(* ===== verification/Go_Prelude.thy ===== *)
theory Go_Prelude
  imports Main "HOL-Library.Word" "HOL-Library.Sublist"
begin

text \<open>
  What the components share: Go error values with their wrapping chain, the
  machine integers, the outcome of a computation that may wait for ever, the
  few functions of package \<open>strings\<close> and \<open>strconv\<close> that the code calls, and
  the collections of facts that carry the component proofs.
\<close>

named_theorems op_defs \<open>definitions of operations, to be unfolded\<close>

type_synonym int64 = "64 word"
type_synonym uint64 = "64 word"


section \<open>Errors as values\<close>

text \<open>
  A Go \<open>error\<close> is a text, an error of a library (known by its text only), or a
  text in front of an error it wraps: \<open>fmt.Errorf("...: %w", err)\<close>. All uses of
  \<open>%w\<close> in the code are the last verb of the format. A nil error is \<^term>\<open>None\<close>.
\<close>

datatype go_error =
    Errorf string
  | External string
  | Wrapf string go_error

type_synonym err = "go_error option"

fun error_text :: "go_error \<Rightarrow> string" where
  "error_text (Errorf m) = m"
| "error_text (External m) = m"
| "error_text (Wrapf m e) = m @ error_text e"

fun errors_is :: "go_error \<Rightarrow> go_error \<Rightarrow> bool" where
  "errors_is (Wrapf m e) t = (Wrapf m e = t \<or> errors_is e t)"
| "errors_is e t = (e = t)"

lemma errors_is_refl [simp]: "errors_is e e"
  by (cases e) auto

lemma errors_is_Wrapf [simp]: "errors_is e t \<Longrightarrow> errors_is (Wrapf m e) t"
  by simp

text \<open>\<open>errors.Is\<close> orders the errors: an error is above everything in its chain.\<close>

lemma errors_is_trans: "errors_is e t \<Longrightarrow> errors_is t u \<Longrightarrow> errors_is e u"
  by (induction e t rule: errors_is.induct) auto

lemma errors_is_size: "errors_is e t \<Longrightarrow> e = t \<or> size t < size e"
  by (induction e t rule: errors_is.induct) auto

instantiation go_error :: order
begin

definition less_eq_go_error :: "go_error \<Rightarrow> go_error \<Rightarrow> bool" where
  "less_eq_go_error t e = errors_is e t"

definition less_go_error :: "go_error \<Rightarrow> go_error \<Rightarrow> bool" where
  "less_go_error t e = (errors_is e t \<and> e \<noteq> t)"

instance
proof
  fix x y z :: go_error
  show "(x < y) = (x \<le> y \<and> \<not> y \<le> x)"
    using errors_is_size [of x y] errors_is_size [of y x]
    by (auto simp: less_eq_go_error_def less_go_error_def)
  show "x \<le> x" by (simp add: less_eq_go_error_def)
  show "x \<le> y \<Longrightarrow> y \<le> z \<Longrightarrow> x \<le> z"
    unfolding less_eq_go_error_def by (rule errors_is_trans)
  show "x \<le> y \<Longrightarrow> y \<le> x \<Longrightarrow> x = y"
    using errors_is_size [of x y] errors_is_size [of y x] by (auto simp: less_eq_go_error_def)
qed

end

lemma wraps_le: "e \<le> Wrapf m e"
  by (simp add: less_eq_go_error_def)


section \<open>Outcomes\<close>

text \<open>
  Workflow code either returns, is parked on something that never happens (a
  signal that is never sent, an activity that never completes), or, where a loop
  is cut off by a bound on its iterations, is still running. \<open>and_then\<close> sequences
  outcomes; \<open>post\<close> says what holds in each kind of outcome.
\<close>

datatype ('a, 's) outcome =
    Return 'a 's
  | Parked 's
  | Running 's

text \<open>A call of code that does not wait returns or panics.\<close>

datatype 'a call = Returns 'a | Panics

fun and_then :: "('a, 's) outcome \<Rightarrow> ('a \<Rightarrow> 's \<Rightarrow> ('b, 's) outcome) \<Rightarrow> ('b, 's) outcome" where
  "and_then (Return a s) f = f a s"
| "and_then (Parked s) f = Parked s"
| "and_then (Running s) f = Running s"

lemma and_then_cong [fundef_cong]:
  "m = m' \<Longrightarrow> (\<And>a s. m' = Return a s \<Longrightarrow> f a s = g a s) \<Longrightarrow> and_then m f = and_then m' g"
  by (cases m') auto

fun post :: "('a, 's) outcome \<Rightarrow> ('a \<Rightarrow> 's \<Rightarrow> bool) \<Rightarrow> ('s \<Rightarrow> bool) \<Rightarrow> ('s \<Rightarrow> bool) \<Rightarrow> bool" where
  "post (Return a s) Q P R = Q a s"
| "post (Parked s) Q P R = P s"
| "post (Running s) Q P R = R s"

lemma post_and_then:
  "post (and_then m f) Q P R = post m (\<lambda>a s. post (f a s) Q P R) P R"
  by (cases m) auto

lemma post_mono:
  assumes "post m Q P R"
    and "\<And>a s. Q a s \<Longrightarrow> Q' a s" and "\<And>s. P s \<Longrightarrow> P' s" and "\<And>s. R s \<Longrightarrow> R' s"
  shows "post m Q' P' R'"
  using assms by (cases m) auto

lemma post_seq:
  assumes "post m Q' P R" and "\<And>a s. Q' a s \<Longrightarrow> post (f a s) Q P R"
  shows "post (and_then m f) Q P R"
  unfolding post_and_then by (rule post_mono [OF assms(1)]) (use assms(2) in auto)

lemma post_seq_eq:
  assumes "post m Q' P R" and "\<And>a s. m = Return a s \<Longrightarrow> Q' a s \<Longrightarrow> post (f a s) Q P R"
  shows "post (and_then m f) Q P R"
  using assms by (cases m) auto

lemma post_Return: "post m Q P R \<Longrightarrow> m = Return a s \<Longrightarrow> Q a s"
  by simp

lemma post_Parked: "post m Q P R \<Longrightarrow> m = Parked s \<Longrightarrow> P s"
  by simp

lemma post_Running: "post m Q P R \<Longrightarrow> m = Running s \<Longrightarrow> R s"
  by simp

lemma post_conj:
  "post m Q P R \<Longrightarrow> post m Q' P' R' \<Longrightarrow>
   post m (\<lambda>a s. Q a s \<and> Q' a s) (\<lambda>s. P s \<and> P' s) (\<lambda>s. R s \<and> R' s)"
  by (cases m) auto

lemma post_True [simp]: "post m (\<lambda>_ _. True) (\<lambda>_. True) (\<lambda>_. True)"
  by (cases m) auto

text \<open>The state a computation stops in.\<close>

fun final_state :: "('a, 's) outcome \<Rightarrow> 's" where
  "final_state (Return a s) = s"
| "final_state (Parked s) = s"
| "final_state (Running s) = s"

text \<open>The same outcome in a changed state.\<close>

fun map_state :: "('s \<Rightarrow> 't) \<Rightarrow> ('a, 's) outcome \<Rightarrow> ('a, 't) outcome" where
  "map_state h (Return a s) = Return a (h s)"
| "map_state h (Parked s) = Parked (h s)"
| "map_state h (Running s) = Running (h s)"

lemma map_state_seq:
  assumes "m' = map_state h m" and "\<And>a s. m = Return a s \<Longrightarrow> f a (h s) = map_state h (f a s)"
  shows "and_then m' f = map_state h (and_then m f)"
  using assms by (cases m) auto

lemma post_final_state: "post m (\<lambda>_. P) P P \<longleftrightarrow> P (final_state m)"
  by (cases m) auto


section \<open>Strings and decimal text\<close>

text \<open>\<open>strings.Contains\<close>.\<close>

fun strings_contains :: "string \<Rightarrow> string \<Rightarrow> bool" where
  "strings_contains [] t = (t = [])"
| "strings_contains (c # s) t = (prefix t (c # s) \<or> strings_contains s t)"

lemma strings_contains_iff: "strings_contains s t \<longleftrightarrow> sublist t s"
  by (induction s) (auto simp: sublist_Cons_right)

lemma strings_contains_char: "strings_contains s [c] \<longleftrightarrow> c \<in> set s"
  by (induction s) auto

lemma strings_contains_append1: "strings_contains s t \<Longrightarrow> strings_contains (s @ u) t"
  by (auto simp: strings_contains_iff sublist_def) blast

text \<open>The text \<open>%d\<close> prints.\<close>

fun nat_text :: "nat \<Rightarrow> string" where
  "nat_text n = (if n < 10 then [char_of (48 + n)]
     else nat_text (n div 10) @ [char_of (48 + n mod 10)])"

declare nat_text.simps [simp del]

definition int_text :: "int \<Rightarrow> string" where
  "int_text i = (if i < 0 then CHR ''-'' # nat_text (nat (- i)) else nat_text (nat i))"

text \<open>
  The text \<open>%q\<close> prints, on the bytes of a string: quotes, backslashes and ASCII
  control characters are escaped; bytes from 128 on are left alone, as for
  printable UTF-8 text.
\<close>

definition hex_digit :: "nat \<Rightarrow> char" where
  "hex_digit n = (if n < 10 then char_of (48 + n) else char_of (87 + n))"

definition quote_char :: "char \<Rightarrow> string" where
  "quote_char c =
    (let n = of_char c :: nat in
     if n = 34 \<or> n = 92 then [char_of (92 :: nat), c]
     else if n = 7 then [char_of (92 :: nat), CHR ''a'']
     else if n = 8 then [char_of (92 :: nat), CHR ''b'']
     else if n = 9 then [char_of (92 :: nat), CHR ''t'']
     else if n = 10 then [char_of (92 :: nat), CHR ''n'']
     else if n = 11 then [char_of (92 :: nat), CHR ''v'']
     else if n = 12 then [char_of (92 :: nat), CHR ''f'']
     else if n = 13 then [char_of (92 :: nat), CHR ''r'']
     else if n < 32 \<or> n = 127
       then [char_of (92 :: nat), CHR ''x'', hex_digit (n div 16), hex_digit (n mod 16)]
     else [c])"

definition strconv_Quote :: "string \<Rightarrow> string" where
  "strconv_Quote s = char_of (34 :: nat) # concat (map quote_char s) @ [char_of (34 :: nat)]"

definition uint64_text :: "uint64 \<Rightarrow> string" where
  "uint64_text w = nat_text (unat w)"

end
