(* ===== verification/Temporal_Types.thy ===== *)
theory Temporal_Types
  imports Go_Prelude
begin

text \<open>
  The data of package \<open>temporal_client\<close>: its constants (\<open>const.go\<close>), the options
  and activity records (\<open>resumable.go\<close>, \<open>workflow.go\<close>, \<open>temporal.go\<close>), the
  interface of the execution data (\<open>interface.go\<close>), and the parts of the Temporal
  SDK the workflow code calls, as a record of functions that every operation
  takes as an argument. Durations are integers (nanoseconds).
\<close>

section \<open>Constants (const.go)\<close>

definition DefaultCorrectionSignal :: string where
  "DefaultCorrectionSignal = ''retryWithCorrection''"
definition DefaultApprovalSignal :: string where
  "DefaultApprovalSignal = ''approve''"
definition DefaultStatusSearchAttribute :: string where
  "DefaultStatusSearchAttribute = ''WorkflowStatus''"
definition QueryGetStatus :: string where
  "QueryGetStatus = ''getStatus''"

definition StatusPending :: string where "StatusPending = ''PENDING''"
definition StatusExecuting :: string where "StatusExecuting = ''EXECUTING''"
definition StatusAwaitingCorrection :: string where
  "StatusAwaitingCorrection = ''AWAITING_CORRECTION''"
definition StatusAwaitingApproval :: string where
  "StatusAwaitingApproval = ''AWAITING_APPROVAL''"
definition StatusFailed :: string where "StatusFailed = ''FAILED''"
definition StatusCompleted :: string where "StatusCompleted = ''COMPLETED''"
definition StatusRejected :: string where "StatusRejected = ''REJECTED''"

lemmas status_defs = StatusPending_def StatusExecuting_def StatusAwaitingCorrection_def
  StatusAwaitingApproval_def StatusFailed_def StatusCompleted_def StatusRejected_def

lemma status_distinct [simp]:
  "distinct [StatusPending, StatusExecuting, StatusAwaitingCorrection,
     StatusAwaitingApproval, StatusFailed, StatusCompleted, StatusRejected]"
  by (simp add: status_defs)

lemma status_neq [simp]:
  "StatusPending \<noteq> StatusExecuting" "StatusPending \<noteq> StatusAwaitingCorrection"
  "StatusPending \<noteq> StatusAwaitingApproval" "StatusPending \<noteq> StatusFailed"
  "StatusPending \<noteq> StatusCompleted" "StatusPending \<noteq> StatusRejected"
  "StatusExecuting \<noteq> StatusPending" "StatusExecuting \<noteq> StatusAwaitingCorrection"
  "StatusExecuting \<noteq> StatusAwaitingApproval" "StatusExecuting \<noteq> StatusFailed"
  "StatusExecuting \<noteq> StatusCompleted" "StatusExecuting \<noteq> StatusRejected"
  "StatusAwaitingCorrection \<noteq> StatusPending" "StatusAwaitingCorrection \<noteq> StatusExecuting"
  "StatusAwaitingCorrection \<noteq> StatusAwaitingApproval"
  "StatusAwaitingCorrection \<noteq> StatusFailed" "StatusAwaitingCorrection \<noteq> StatusCompleted"
  "StatusAwaitingCorrection \<noteq> StatusRejected"
  "StatusAwaitingApproval \<noteq> StatusPending" "StatusAwaitingApproval \<noteq> StatusExecuting"
  "StatusAwaitingApproval \<noteq> StatusAwaitingCorrection"
  "StatusAwaitingApproval \<noteq> StatusFailed" "StatusAwaitingApproval \<noteq> StatusCompleted"
  "StatusAwaitingApproval \<noteq> StatusRejected"
  "StatusFailed \<noteq> StatusPending" "StatusFailed \<noteq> StatusExecuting"
  "StatusFailed \<noteq> StatusAwaitingCorrection" "StatusFailed \<noteq> StatusAwaitingApproval"
  "StatusFailed \<noteq> StatusCompleted" "StatusFailed \<noteq> StatusRejected"
  "StatusCompleted \<noteq> StatusPending" "StatusCompleted \<noteq> StatusExecuting"
  "StatusCompleted \<noteq> StatusAwaitingCorrection" "StatusCompleted \<noteq> StatusAwaitingApproval"
  "StatusCompleted \<noteq> StatusFailed" "StatusCompleted \<noteq> StatusRejected"
  "StatusRejected \<noteq> StatusPending" "StatusRejected \<noteq> StatusExecuting"
  "StatusRejected \<noteq> StatusAwaitingCorrection" "StatusRejected \<noteq> StatusAwaitingApproval"
  "StatusRejected \<noteq> StatusFailed" "StatusRejected \<noteq> StatusCompleted"
  by (simp_all add: status_defs)

definition defaultMaxCorrectionAttempts :: int where "defaultMaxCorrectionAttempts = 5"
definition defaultActivityRetryAttempts :: int where "defaultActivityRetryAttempts = 3"
definition defaultStartToCloseTimeout :: int where
  "defaultStartToCloseTimeout = 30 * 1000000000"


section \<open>Options and activity records\<close>

text \<open>
  \<open>RetryPolicy\<close> of \<open>temporal.go\<close>; the fields of the SDK's policy that the code
  sets are the same. The back-off coefficient, a \<open>float64\<close> that is only copied, is
  its bit pattern.
\<close>

record RetryPolicy =
  InitialInterval :: int
  BackoffCoefficient :: "64 word"
  MaximumInterval :: int
  MaximumAttempts :: int

text \<open>
  The fields of the SDK's \<open>workflow.ActivityOptions\<close> that the code reads; the
  other fields are copied with the struct and have no effect here.
\<close>

record ActivityOptions =
  StartToCloseTimeout :: int
  ActivityRetryPolicy :: "RetryPolicy option"

record ResumableOptions =
  CorrectionSignal :: string
  ApprovalSignal :: string
  MaxCorrectionAttempts :: int
  ActivityRetryAttempts :: int
  StatusSearchAttribute :: string
  WaitTimeout :: int

definition zeroResumableOptions :: ResumableOptions where
  "zeroResumableOptions = \<lparr>CorrectionSignal = '''', ApprovalSignal = '''',
     MaxCorrectionAttempts = 0, ActivityRetryAttempts = 0, StatusSearchAttribute = '''',
     WaitTimeout = 0\<rparr>"

text \<open>\<open>(o ResumableOptions) withDefaults\<close>.\<close>

definition withDefaults :: "ResumableOptions \<Rightarrow> ResumableOptions" where
  "withDefaults opt0 =
    (let opt1 = (if CorrectionSignal opt0 = '''' then opt0\<lparr>CorrectionSignal := DefaultCorrectionSignal\<rparr> else opt0);
         opt2 = (if MaxCorrectionAttempts opt1 \<le> 0
               then opt1\<lparr>MaxCorrectionAttempts := defaultMaxCorrectionAttempts\<rparr> else opt1)
     in (if ActivityRetryAttempts opt2 \<le> 0
         then opt2\<lparr>ActivityRetryAttempts := defaultActivityRetryAttempts\<rparr> else opt2))"

text \<open>
  \<open>ActivityExecutionInfo\<close>. The activity function is opaque, of type \<^typ>\<open>'f\<close>; a
  placeholder has none. A nil \<open>NextActivities\<close> slice is \<^term>\<open>None\<close>.
\<close>

record 'f ActivityExecutionInfo =
  ActivityName :: string
  SignalEvent :: string
  ActivityFn :: "'f option"
  ActivityOpts :: "ActivityOptions option"
  NextActivities :: "string list option"
  Resumable :: "ResumableOptions option"

definition placeholderInfo :: "'f ActivityExecutionInfo" where
  "placeholderInfo = \<lparr>ActivityName = '''', SignalEvent = '''', ActivityFn = None,
     ActivityOpts = None, NextActivities = None, Resumable = None\<rparr>"

text \<open>
  \<open>WorkflowExecutionData\<close>. Each value of the map \<open>activity\<close> is a pointer that only
  this map holds, so the pointer is represented by its key. \<open>ExecutionData\<close> is a
  pointer, of type \<^typ>\<open>'p\<close>, to the data (the data itself, of type \<^typ>\<open>'d\<close>, is
  what the methods of the interface work on); \<open>temporalClient\<close> is the client, of
  type \<^typ>\<open>'c\<close>. A zero time is \<^term>\<open>None\<close>. The field \<open>signalConsumer\<close>, which
  no method reads, is left out.
\<close>

record ('p, 'f, 'c) WorkflowExecutionData =
  ID :: uint64
  WorkflowID :: string
  RunID :: string
  Status :: string
  ExecutionData :: "'p option"
  QueryType :: string
  activity :: "string \<rightharpoonup> 'f ActivityExecutionInfo"
  firstActivity :: string
  StartedAt :: "int option"
  CompletedAt :: "int option"
  temporalClient :: 'c


section \<open>The execution data (interface.go)\<close>

text \<open>
  The methods of the interface \<open>ExecutionData\<close>, implemented by the caller.
  \<open>Unmarshal\<close> returns the error and the state it leaves behind.
\<close>

record 'd ExecutionDataOps =
  SetActivity :: "string \<Rightarrow> 'd \<Rightarrow> 'd"
  GetActivity :: "'d \<Rightarrow> string"
  Marshal :: "'d \<Rightarrow> go_error + string"
  Unmarshal :: "string \<Rightarrow> 'd \<Rightarrow> err \<times> 'd"
  Clone :: "'d \<Rightarrow> 'd"


section \<open>The Temporal SDK as a parameter\<close>

text \<open>A signal payload received into an \<open>interface{}\<close>.\<close>

datatype 'v payload = RawMessage string | ByteSlice string | Value 'v

text \<open>
  \<open>workflow.Await\<close> returns when the condition holds (here: a message was received)
  or with an error; \<open>workflow.AwaitWithTimeout\<close> may also time out. Waiting without a
  timeout may never end. A future's \<open>Get\<close> returns an error or nil, and writes
  through the pointer it is given.
\<close>

datatype ('v, 'w) await =
    AwaitReceived "'v payload" 'w
  | AwaitErr go_error 'w
  | AwaitNever

datatype ('v, 'w) timed_await =
    TimedReceived "'v payload" 'w
  | TimedErr go_error 'w
  | TimedOut 'w

datatype ('d, 'w) future =
    FutureGet err "'d \<Rightarrow> 'd" 'w
  | FutureNever

record ('d, 'f, 'v, 'w) sdk =
  time_Now :: "'w \<Rightarrow> int"
  SetQueryHandler :: "string \<Rightarrow> 'w \<Rightarrow> err \<times> 'w"
  UpsertSearchAttributes :: "string \<Rightarrow> string \<Rightarrow> 'w \<Rightarrow> err \<times> 'w"
  ExecuteActivity :: "ActivityOptions option \<Rightarrow> 'f option \<Rightarrow> 'd option \<Rightarrow> 'w \<Rightarrow> ('d, 'w) future"
  Await :: "string \<Rightarrow> 'w \<Rightarrow> ('v, 'w) await"
  AwaitWithTimeout :: "string \<Rightarrow> int \<Rightarrow> 'w \<Rightarrow> ('v, 'w) timed_await"
  decode_bool :: "'v payload \<Rightarrow> bool"
  json_Marshal :: "'v \<Rightarrow> go_error + string"


section \<open>The state a workflow function works on\<close>

text \<open>
  The receiver \<open>w\<close>, the outside world, and a history of what the code did. No
  operation reads the history; it lets properties speak about order.
\<close>

datatype event =
    EvStatus string
  | EvUpsert string string
  | EvQuery string
  | EvWait string int
  | EvSignal string
  | EvApproval string bool
  | EvActivity string

record ('p, 'f, 'c, 'w) wstate =
  wf :: "('p, 'f, 'c) WorkflowExecutionData"
  world :: 'w
  history :: "event list"

definition emit :: "event \<Rightarrow> ('p, 'f, 'c, 'w) wstate \<Rightarrow> ('p, 'f, 'c, 'w) wstate" where
  "emit e s = s\<lparr>history := history s @ [e]\<rparr>"

lemma emit_simps [simp]:
  "wf (emit e s) = wf s" "world (emit e s) = world s" "history (emit e s) = history s @ [e]"
  by (simp_all add: emit_def)


section \<open>Lemmas on the options\<close>

lemma withDefaults_idem [simp]: "withDefaults (withDefaults opt) = withDefaults opt"
  by (simp add: withDefaults_def Let_def DefaultCorrectionSignal_def
      defaultMaxCorrectionAttempts_def defaultActivityRetryAttempts_def)

lemma withDefaults_fields [simp]:
  "ApprovalSignal (withDefaults opt) = ApprovalSignal opt"
  "StatusSearchAttribute (withDefaults opt) = StatusSearchAttribute opt"
  "WaitTimeout (withDefaults opt) = WaitTimeout opt"
  by (simp_all add: withDefaults_def Let_def)

lemma withDefaults_CorrectionSignal [simp]:
  "CorrectionSignal (withDefaults opt) =
     (if CorrectionSignal opt = '''' then DefaultCorrectionSignal else CorrectionSignal opt)"
  by (simp add: withDefaults_def Let_def)

lemma withDefaults_attempts [simp]:
  "MaxCorrectionAttempts (withDefaults opt) =
     (if MaxCorrectionAttempts opt \<le> 0 then 5 else MaxCorrectionAttempts opt)"
  "ActivityRetryAttempts (withDefaults opt) =
     (if ActivityRetryAttempts opt \<le> 0 then 3 else ActivityRetryAttempts opt)"
  by (simp_all add: withDefaults_def Let_def defaultMaxCorrectionAttempts_def
      defaultActivityRetryAttempts_def)

lemma withDefaults_CorrectionSignal_upd:
  "MaxCorrectionAttempts (withDefaults (opt\<lparr>CorrectionSignal := c\<rparr>)) =
     MaxCorrectionAttempts (withDefaults opt)"
  "ActivityRetryAttempts (withDefaults (opt\<lparr>CorrectionSignal := c\<rparr>)) =
     ActivityRetryAttempts (withDefaults opt)"
  by simp_all

end
