(* ===== verification/Temporal_Resumable.thy ===== *)
theory Temporal_Resumable
  imports Temporal_Types
begin

text \<open>
  \<open>resumable.go\<close>: status reporting, the activity context of a resumable step, the
  wait for a correction or approval signal, and the park-and-retry loop of
  \<open>runResumableActivity\<close>. An activity record is known by its key in the map
  \<open>activity\<close>; \<open>deref\<close> reads it.
\<close>

section \<open>Errors (resumable.go)\<close>

text \<open>
  \<open>NewNonRetryableError\<close>: an SDK application error with its type and its
  non-retryable flag set.
\<close>

record application_error =
  ErrType :: string
  Message :: string
  NonRetryable :: bool

definition NewNonRetryableError :: "string \<Rightarrow> string \<Rightarrow> application_error" where
  "NewNonRetryableError errType message = \<lparr>ErrType = errType, Message = message, NonRetryable = True\<rparr>"


section \<open>Reading and writing the activity map\<close>

definition infoAt :: "(string \<rightharpoonup> 'f ActivityExecutionInfo) \<Rightarrow> string \<Rightarrow> 'f ActivityExecutionInfo" where
  "infoAt act c = (case act c of Some info \<Rightarrow> info | None \<Rightarrow> placeholderInfo)"

definition deref :: "('p, 'f, 'c, 'w) wstate \<Rightarrow> string \<Rightarrow> 'f ActivityExecutionInfo" where
  "deref s c = infoAt (activity (wf s)) c"

text \<open>\<open>info.Resumable = &opts\<close>, a write through the pointer in the map.\<close>

definition setResumable ::
    "string \<Rightarrow> ResumableOptions \<Rightarrow> ('p, 'f, 'c, 'w) wstate \<Rightarrow> ('p, 'f, 'c, 'w) wstate" where
  "setResumable c opts s =
    s\<lparr>wf := (wf s)\<lparr>activity := (activity (wf s))(c \<mapsto> (deref s c)\<lparr>Resumable := Some opts\<rparr>)\<rparr>\<rparr>"


section \<open>Status\<close>

text \<open>
  \<open>statusSearchAttribute\<close> ranges over a Go map, whose order the language leaves
  open: \<open>order\<close> is the sequence of keys the runtime happens to produce.
\<close>

fun statusSearchAttribute ::
    "string list \<Rightarrow> (string \<rightharpoonup> 'f ActivityExecutionInfo) \<Rightarrow> string" where
  "statusSearchAttribute [] act = ''''"
| "statusSearchAttribute (k # order) act =
    (case act k of
       None \<Rightarrow> statusSearchAttribute order act
     | Some info \<Rightarrow>
        (case Resumable info of
           None \<Rightarrow> statusSearchAttribute order act
         | Some r \<Rightarrow>
            if StatusSearchAttribute r \<noteq> '''' then StatusSearchAttribute r
            else statusSearchAttribute order act))"

definition registerStatusQuery ::
    "('d, 'f, 'v, 'w) sdk \<Rightarrow> ('p, 'f, 'c, 'w) wstate \<Rightarrow> err \<times> ('p, 'f, 'c, 'w) wstate" where
  "registerStatusQuery k s =
    (let (e, w') = SetQueryHandler k QueryGetStatus (world s)
     in (e, emit (EvQuery QueryGetStatus) (s\<lparr>world := w'\<rparr>)))"

text \<open>The registered handler: what a \<open>getStatus\<close> query answers in a state.\<close>

definition statusQueryHandler :: "('p, 'f, 'c, 'w) wstate \<Rightarrow> string \<times> err" where
  "statusQueryHandler s = (Status (wf s), None)"

definition setExecutionStatus ::
    "('d, 'f, 'v, 'w) sdk \<Rightarrow> string \<Rightarrow> string \<Rightarrow> ('p, 'f, 'c, 'w) wstate
       \<Rightarrow> err \<times> ('p, 'f, 'c, 'w) wstate" where
  "setExecutionStatus k status searchAttr s =
    (let s1 = emit (EvStatus status) (s\<lparr>wf := (wf s)\<lparr>Status := status\<rparr>\<rparr>)
     in if searchAttr = '''' then (None, s1)
        else (let (e, w') = UpsertSearchAttributes k searchAttr status (world s1)
              in (e, emit (EvUpsert searchAttr status) (s1\<lparr>world := w'\<rparr>))))"


section \<open>Activity context and activity call\<close>

definition resumableActivityContext :: "'f ActivityExecutionInfo \<Rightarrow> ActivityOptions" where
  "resumableActivityContext info =
    (let opts = (case ActivityOpts info of
                   None \<Rightarrow> \<lparr>StartToCloseTimeout = 0, ActivityRetryPolicy = None\<rparr>
                 | Some ao \<Rightarrow> ao);
         opts = (if StartToCloseTimeout opts = 0
                 then opts\<lparr>StartToCloseTimeout := defaultStartToCloseTimeout\<rparr> else opts)
     in (case (ActivityRetryPolicy opts, Resumable info) of
           (None, Some r) \<Rightarrow>
             opts\<lparr>ActivityRetryPolicy := Some \<lparr>InitialInterval = 0, BackoffCoefficient = 0,
               MaximumInterval = 0, MaximumAttempts = ActivityRetryAttempts r\<rparr>\<rparr>
         | _ \<Rightarrow> opts))"

text \<open>
  \<open>workflow.ExecuteActivity(activityCtx, fn, executionData)\<close> followed by
  \<open>future.Get(ctx, executionData)\<close>: the execution data is passed by pointer, so a
  nil pointer stays nil and the data it points to is what \<open>Get\<close> left there.
\<close>

definition callActivity ::
    "('d, 'f, 'v, 'w) sdk \<Rightarrow> ActivityOptions option \<Rightarrow> string \<Rightarrow> 'd option
       \<Rightarrow> ('p, 'f, 'c, 'w) wstate \<Rightarrow> (err \<times> 'd option, ('p, 'f, 'c, 'w) wstate) outcome" where
  "callActivity k opts c executionData s =
    (case ExecuteActivity k opts (ActivityFn (deref s c)) executionData (world s) of
       FutureNever \<Rightarrow> Parked (emit (EvActivity c) s)
     | FutureGet e upd w' \<Rightarrow>
         Return (e, map_option upd executionData) (emit (EvActivity c) (s\<lparr>world := w'\<rparr>)))"


section \<open>Waiting for signals\<close>

definition encodeCorrection ::
    "('d, 'f, 'v, 'w) sdk \<Rightarrow> 'v payload \<Rightarrow> go_error + string" where
  "encodeCorrection k p =
    (case p of
       RawMessage b \<Rightarrow> Inr b
     | ByteSlice b \<Rightarrow> Inr b
     | Value v \<Rightarrow> json_Marshal k v)"

definition waitForSignalPayload ::
    "('d, 'f, 'v, 'w) sdk \<Rightarrow> string \<Rightarrow> int \<Rightarrow> ('p, 'f, 'c, 'w) wstate
       \<Rightarrow> (go_error + string, ('p, 'f, 'c, 'w) wstate) outcome" where
  "waitForSignalPayload k ch timeout s0 =
    (let s = emit (EvWait ch timeout) s0
     in if timeout > 0 then
          (case AwaitWithTimeout k ch timeout (world s) of
             TimedErr e w' \<Rightarrow> Return (Inl e) (s\<lparr>world := w'\<rparr>)
           | TimedOut w' \<Rightarrow> Return (Inl (Errorf ''correction signal timed out'')) (s\<lparr>world := w'\<rparr>)
           | TimedReceived p w' \<Rightarrow>
               Return (encodeCorrection k p) (emit (EvSignal ch) (s\<lparr>world := w'\<rparr>)))
        else
          (case Await k ch (world s) of
             AwaitNever \<Rightarrow> Parked s
           | AwaitErr e w' \<Rightarrow> Return (Inl e) (s\<lparr>world := w'\<rparr>)
           | AwaitReceived p w' \<Rightarrow>
               Return (encodeCorrection k p) (emit (EvSignal ch) (s\<lparr>world := w'\<rparr>))))"

text \<open>The receive part of \<open>waitForApproval\<close>: the received boolean, or the error returned.\<close>

definition receiveApproval ::
    "('d, 'f, 'v, 'w) sdk \<Rightarrow> string \<Rightarrow> ResumableOptions \<Rightarrow> ('p, 'f, 'c, 'w) wstate
       \<Rightarrow> (go_error + bool, ('p, 'f, 'c, 'w) wstate) outcome" where
  "receiveApproval k activityName opts s0 =
    (let ch = ApprovalSignal opts; s = emit (EvWait ch (WaitTimeout opts)) s0
     in if WaitTimeout opts > 0 then
          (case AwaitWithTimeout k ch (WaitTimeout opts) (world s) of
             TimedErr e w' \<Rightarrow> Return (Inl e) (s\<lparr>world := w'\<rparr>)
           | TimedOut w' \<Rightarrow>
               (let s' = snd (setExecutionStatus k StatusFailed (StatusSearchAttribute opts)
                          (s\<lparr>world := w'\<rparr>))
                in Return (Inl (Errorf (''activity '' @ activityName @ '': approval signal '' @
                     strconv_Quote ch @ '' timed out''))) s')
           | TimedReceived p w' \<Rightarrow>
               (let b = decode_bool k p
                in Return (Inr b) (emit (EvApproval ch b) (s\<lparr>world := w'\<rparr>))))
        else
          (case Await k ch (world s) of
             AwaitNever \<Rightarrow> Parked s
           | AwaitErr e w' \<Rightarrow> Return (Inl e) (s\<lparr>world := w'\<rparr>)
           | AwaitReceived p w' \<Rightarrow>
               (let b = decode_bool k p
                in Return (Inr b) (emit (EvApproval ch b) (s\<lparr>world := w'\<rparr>)))))"

definition waitForApproval ::
    "('d, 'f, 'v, 'w) sdk \<Rightarrow> string \<Rightarrow> ResumableOptions \<Rightarrow> ('p, 'f, 'c, 'w) wstate
       \<Rightarrow> (err, ('p, 'f, 'c, 'w) wstate) outcome" where
  "waitForApproval k activityName opts s =
    (let s1 = snd (setExecutionStatus k StatusAwaitingApproval (StatusSearchAttribute opts) s)
     in and_then (receiveApproval k activityName opts s1) (\<lambda>r s2.
       (case r of
          Inl e \<Rightarrow> Return (Some e) s2
        | Inr approved \<Rightarrow>
            if \<not> approved then
              Return (Some (Errorf (''activity '' @ activityName @ '' rejected by approval signal'')))
                (snd (setExecutionStatus k StatusRejected (StatusSearchAttribute opts) s2))
            else Return None s2)))"


section \<open>Corrections and branches\<close>

definition applyCorrection ::
    "'d ExecutionDataOps \<Rightarrow> 'd option \<Rightarrow> string \<Rightarrow> err \<times> 'd option" where
  "applyCorrection D executionData payload =
    (case executionData of
       None \<Rightarrow> (Some (Errorf ''execution data is nil''), None)
     | Some d \<Rightarrow> (let (e, d') = Unmarshal D payload d in (e, Some d')))"

fun applyBranchLoop :: "'d ExecutionDataOps \<Rightarrow> string list \<Rightarrow> 'd \<Rightarrow> 'd" where
  "applyBranchLoop D [] d = d"
| "applyBranchLoop D (nextActivity # rest) d =
    (if GetActivity D d = nextActivity then SetActivity D nextActivity d
     else applyBranchLoop D rest d)"

definition applyBranch ::
    "'d ExecutionDataOps \<Rightarrow> 'f ActivityExecutionInfo \<Rightarrow> 'd option \<Rightarrow> err \<times> 'd option" where
  "applyBranch D info navigable =
    (case navigable of
       None \<Rightarrow> (None, None)
     | Some d \<Rightarrow>
         if GetActivity D d = '''' then (None, Some d)
         else (None, Some (applyBranchLoop D
                 (case NextActivities info of None \<Rightarrow> [] | Some ns \<Rightarrow> ns) d)))"


section \<open>The park-and-retry loop\<close>

text \<open>
  One turn of the \<open>for\<close> loop of \<open>runResumableActivity\<close> parks for the step's signal,
  applies its payload and runs the activity. It leaves the function with an error,
  breaks out of the loop because the activity succeeded, or the activity failed
  with an error the rest of the loop body looks at.
\<close>

datatype 'd turn =
    TurnReturn go_error "'d option"
  | TurnBreak "'d option"
  | TurnFailed go_error "'d option"

definition correctionTurn ::
    "('d, 'f, 'v, 'w) sdk \<Rightarrow> 'd ExecutionDataOps \<Rightarrow> string \<Rightarrow> ActivityOptions \<Rightarrow> ResumableOptions
       \<Rightarrow> 'd option \<Rightarrow> ('p, 'f, 'c, 'w) wstate \<Rightarrow> ('d turn, ('p, 'f, 'c, 'w) wstate) outcome" where
  "correctionTurn k D c actx opts data s =
    (let attr = StatusSearchAttribute opts; info = deref s c;
         pre = ''activity '' @ ActivityName info;
         s1 = snd (setExecutionStatus k StatusAwaitingCorrection attr s)
     in and_then (waitForSignalPayload k (SignalEvent info) (WaitTimeout opts) s1) (\<lambda>r s2.
       (case r of
          Inl waitErr \<Rightarrow>
            Return (TurnReturn (Wrapf (pre @ '': '') waitErr) data)
              (snd (setExecutionStatus k StatusFailed attr s2))
        | Inr payload \<Rightarrow>
           (case (if 0 < length payload \<and> payload \<noteq> ''null'' then applyCorrection D data payload
                  else (None, data)) of
              (Some e, data1) \<Rightarrow>
                Return (TurnReturn (Wrapf (pre @ '': apply correction: '') e) data1) s2
            | (None, data1) \<Rightarrow>
               and_then (callActivity k (Some actx) c data1
                   (snd (setExecutionStatus k StatusExecuting attr s2))) (\<lambda>(e, data2) s4.
                 (case e of
                    None \<Rightarrow> Return (TurnBreak data2) s4
                  | Some actErr \<Rightarrow> Return (TurnFailed actErr data2) s4))))))"

text \<open>
  The loop. \<open>count\<close> is \<open>correctionCount\<close>; it never exceeds the allowed attempts by
  more than one, so an unbounded integer is the code's \<open>int\<close> as long as
  \<open>MaxCorrectionAttempts\<close> is not the largest \<open>int\<close>.
\<close>

function correctionLoop ::
    "('d, 'f, 'v, 'w) sdk \<Rightarrow> 'd ExecutionDataOps \<Rightarrow> string \<Rightarrow> ActivityOptions \<Rightarrow> ResumableOptions
       \<Rightarrow> int \<Rightarrow> 'd option \<Rightarrow> ('p, 'f, 'c, 'w) wstate
       \<Rightarrow> (err \<times> 'd option, ('p, 'f, 'c, 'w) wstate) outcome" where
  "correctionLoop k D c actx opts count data s =
    and_then (correctionTurn k D c actx opts data s) (\<lambda>t s1.
      (case t of
         TurnReturn e data1 \<Rightarrow> Return (Some e, data1) s1
       | TurnBreak data1 \<Rightarrow> Return (None, data1) s1
       | TurnFailed actErr data1 \<Rightarrow>
           (if count + 1 > MaxCorrectionAttempts opts then
              Return (Some (Wrapf (''activity '' @ ActivityName (deref s1 c) @ '' failed after '' @
                  int_text (MaxCorrectionAttempts opts) @ '' correction attempts: '') actErr), data1)
                (snd (setExecutionStatus k StatusFailed (StatusSearchAttribute opts) s1))
            else correctionLoop k D c actx opts (count + 1) data1 s1)))"
  by pat_completeness auto
termination
  by (relation "measure (\<lambda>(k, D, c, actx, opts, count, data, s).
        nat (MaxCorrectionAttempts opts + 1 - count))") auto

declare correctionLoop.simps [simp del]

text \<open>\<open>runResumableActivity\<close>: normalise the options (and store them), loop, approve, branch.\<close>

definition resumableOptionsOf :: "'f ActivityExecutionInfo \<Rightarrow> ResumableOptions" where
  "resumableOptionsOf info =
    (let opts = (case Resumable info of None \<Rightarrow> zeroResumableOptions | Some r \<Rightarrow> r);
         opts = (if CorrectionSignal opts = '''' then opts\<lparr>CorrectionSignal := SignalEvent info\<rparr>
                 else opts)
     in withDefaults opts)"

definition runResumableActivity ::
    "('d, 'f, 'v, 'w) sdk \<Rightarrow> 'd ExecutionDataOps \<Rightarrow> string \<Rightarrow> 'd option
       \<Rightarrow> ('p, 'f, 'c, 'w) wstate \<Rightarrow> (err \<times> 'd option, ('p, 'f, 'c, 'w) wstate) outcome" where
  "runResumableActivity k D c executionData s =
    (let opts = resumableOptionsOf (deref s c);
         s1 = setResumable c opts s;
         activityCtx = resumableActivityContext (deref s1 c)
     in and_then (correctionLoop k D c activityCtx opts 0 executionData s1) (\<lambda>(e, data1) s2.
       (case e of
          Some _ \<Rightarrow> Return (e, data1) s2
        | None \<Rightarrow>
           if ApprovalSignal opts \<noteq> '''' then
             and_then (waitForApproval k (ActivityName (deref s2 c)) opts s2) (\<lambda>e' s3.
               (case e' of
                  Some _ \<Rightarrow> Return (e', data1) s3
                | None \<Rightarrow> Return (applyBranch D (deref s3 c) data1) s3))
           else Return (applyBranch D (deref s2 c) data1) s2)))"

end
