(* ===== verification/Temporal_Workflow.thy ===== *)
theory Temporal_Workflow
  imports Temporal_Resumable
begin

text \<open>
  \<open>workflow.go\<close>: building the activity graph (\<open>NewWorkflowExecution\<close>,
  \<open>AddTransitionActivityWithOptions\<close>) and running it (\<open>runActivity\<close>,
  \<open>getNextActivity\<close>, \<open>Execute\<close>).
\<close>

section \<open>The receiver's accessors\<close>

definition GetWorkflowID :: "('p, 'f, 'c) WorkflowExecutionData \<Rightarrow> string" where
  "GetWorkflowID w = WorkflowID w"

definition SetWorkflowID ::
    "string \<Rightarrow> ('p, 'f, 'c) WorkflowExecutionData \<Rightarrow> ('p, 'f, 'c) WorkflowExecutionData" where
  "SetWorkflowID workflowID w = w\<lparr>WorkflowID := workflowID\<rparr>"

definition GetExecutionData :: "('p, 'f, 'c) WorkflowExecutionData \<Rightarrow> 'p option" where
  "GetExecutionData w = ExecutionData w"

definition SetExecutionData ::
    "'p option \<Rightarrow> ('p, 'f, 'c) WorkflowExecutionData \<Rightarrow> ('p, 'f, 'c) WorkflowExecutionData" where
  "SetExecutionData executionData w = w\<lparr>ExecutionData := executionData\<rparr>"

lemmas accessor_defs [op_defs] =
  GetWorkflowID_def SetWorkflowID_def GetExecutionData_def SetExecutionData_def


section \<open>Building the graph\<close>

definition NewWorkflowExecution :: "'c \<Rightarrow> ('p, 'f, 'c) WorkflowExecutionData" where
  "NewWorkflowExecution client = \<lparr>ID = 0, WorkflowID = '''', RunID = '''', Status = '''',
     ExecutionData = None, QueryType = '''', activity = Map.empty, firstActivity = '''',
     StartedAt = None, CompletedAt = None, temporalClient = client\<rparr>"

lemma NewWorkflowExecution_simps [simp]:
  "activity (NewWorkflowExecution c) = Map.empty" "firstActivity (NewWorkflowExecution c) = ''''"
  "temporalClient (NewWorkflowExecution c) = c" "Status (NewWorkflowExecution c) = ''''"
  by (simp_all add: NewWorkflowExecution_def)

fun addPlaceholders ::
    "string list \<Rightarrow> (string \<rightharpoonup> 'f ActivityExecutionInfo) \<Rightarrow> (string \<rightharpoonup> 'f ActivityExecutionInfo)" where
  "addPlaceholders [] act = act"
| "addPlaceholders (n # ns) act =
    addPlaceholders ns (if act n = None then act(n \<mapsto> placeholderInfo) else act)"

text \<open>
  \<open>register\<close> is the \<open>RegisterActivity\<close> method of the interface \<open>Temporal\<close>, with
  its effect on the client. A variadic call without transitions passes a nil
  slice. \<open>len(w.activity) == 0\<close> is the empty map.
\<close>

definition AddTransitionActivityWithOptions ::
    "(string \<Rightarrow> 'f option \<Rightarrow> 'c \<Rightarrow> 'c) \<Rightarrow> string \<Rightarrow> string \<Rightarrow> 'f option
       \<Rightarrow> ActivityOptions option \<Rightarrow> string list \<Rightarrow> ('p, 'f, 'c) WorkflowExecutionData
       \<Rightarrow> ('p, 'f, 'c) WorkflowExecutionData" where
  "AddTransitionActivityWithOptions register activityName signalEvent activityFn options
      nextActivities w0 =
    (let w1 = w0\<lparr>temporalClient := register activityName activityFn (temporalClient w0)\<rparr>;
         w2 = (if activity w1 = Map.empty then w1\<lparr>firstActivity := activityName\<rparr> else w1);
         info = \<lparr>ActivityName = activityName, SignalEvent = signalEvent, ActivityFn = activityFn,
                 ActivityOpts = options,
                 NextActivities = (if nextActivities = [] then None else Some nextActivities),
                 Resumable = None\<rparr>;
         info' = (if signalEvent \<noteq> '''' then
                   info\<lparr>Resumable := Some (withDefaults
                     (zeroResumableOptions\<lparr>CorrectionSignal := signalEvent\<rparr>))\<rparr>
                 else info)
     in w2\<lparr>activity := addPlaceholders nextActivities ((activity w2)(activityName \<mapsto> info'))\<rparr>)"


section \<open>Running the graph\<close>

fun nextLoop ::
    "(string \<rightharpoonup> 'f ActivityExecutionInfo) \<Rightarrow> string list \<Rightarrow> string \<Rightarrow> string option" where
  "nextLoop act [] nextActivity = None"
| "nextLoop act (info # rest) nextActivity =
    (if info = nextActivity then (case act info of None \<Rightarrow> None | Some _ \<Rightarrow> Some info)
     else nextLoop act rest nextActivity)"

text \<open>\<open>getNextActivity\<close>: the key of the record it returns, or nil.\<close>

definition getNextActivity ::
    "(string \<rightharpoonup> 'f ActivityExecutionInfo) \<Rightarrow> 'f ActivityExecutionInfo \<Rightarrow> string \<Rightarrow> string option" where
  "getNextActivity act currActivity nextActivity =
    nextLoop act (case NextActivities currActivity of None \<Rightarrow> [] | Some ns \<Rightarrow> ns) nextActivity"

definition runActivity ::
    "('d, 'f, 'v, 'w) sdk \<Rightarrow> 'd ExecutionDataOps \<Rightarrow> string \<Rightarrow> 'd option
       \<Rightarrow> ('p, 'f, 'c, 'w) wstate \<Rightarrow> (err \<times> 'd option, ('p, 'f, 'c, 'w) wstate) outcome" where
  "runActivity k D c executionData s =
    (let currActivity = deref s c in
     if SignalEvent currActivity \<noteq> '''' then runResumableActivity k D c executionData s
     else and_then (callActivity k (ActivityOpts currActivity) c executionData s) (\<lambda>(e, data1) s1.
       (case e of
          Some actErr \<Rightarrow>
            Return (Some (Wrapf (''activity '' @ ActivityName currActivity @ '' failed: '') actErr),
              data1) s1
        | None \<Rightarrow> Return (applyBranch D currActivity data1) s1)))"

text \<open>
  The two places of \<open>Execute\<close> that set a final status unless the workflow already
  has failed or was rejected.
\<close>

definition finalStatus ::
    "('d, 'f, 'v, 'w) sdk \<Rightarrow> string \<Rightarrow> string \<Rightarrow> ('p, 'f, 'c, 'w) wstate \<Rightarrow> ('p, 'f, 'c, 'w) wstate" where
  "finalStatus k statusAttr status s =
    (if Status (wf s) \<noteq> StatusFailed \<and> Status (wf s) \<noteq> StatusRejected
     then snd (setExecutionStatus k status statusAttr s) else s)"

text \<open>
  The loop of \<open>Execute\<close>. The graph may have cycles, so the number of turns is
  bounded by \<open>fuel\<close>; without fuel the workflow is still running. \<open>statusAttr\<close> is
  computed once before the loop.
\<close>

fun executeLoop ::
    "nat \<Rightarrow> ('d, 'f, 'v, 'w) sdk \<Rightarrow> 'd ExecutionDataOps \<Rightarrow> string \<Rightarrow> string option \<Rightarrow> 'd option
       \<Rightarrow> ('p, 'f, 'c, 'w) wstate \<Rightarrow> (err \<times> 'd option, ('p, 'f, 'c, 'w) wstate) outcome" where
  "executeLoop fuel k D statusAttr None data s = Return (None, data) s"
| "executeLoop 0 k D statusAttr (Some c) data s = Running s"
| "executeLoop (Suc fuel) k D statusAttr (Some c) data s =
    and_then (runActivity k D c data s) (\<lambda>(e, data1) s1.
      (case e of
         Some _ \<Rightarrow>
           Return (e, data1) (finalStatus k statusAttr StatusFailed s1)
       | None \<Rightarrow>
          (if NextActivities (deref s1 c) = None then Return (None, data1) s1
           else (case data1 of
                   None \<Rightarrow> Return (None, None) s1
                 | Some d \<Rightarrow>
                    (if GetActivity D d = '''' then Return (None, data1) s1
                     else executeLoop fuel k D statusAttr
                       (getNextActivity (activity (wf s1)) (deref s1 c) (GetActivity D d))
                       data1 s1)))))"

definition lookupActivity :: "('p, 'f, 'c) WorkflowExecutionData \<Rightarrow> string \<Rightarrow> string option" where
  "lookupActivity w c = (case activity w c of None \<Rightarrow> None | Some _ \<Rightarrow> Some c)"

definition Execute ::
    "string list \<Rightarrow> nat \<Rightarrow> ('d, 'f, 'v, 'w) sdk \<Rightarrow> 'd ExecutionDataOps \<Rightarrow> 'd option
       \<Rightarrow> ('p, 'f, 'c, 'w) wstate \<Rightarrow> (err \<times> 'd option, ('p, 'f, 'c, 'w) wstate) outcome" where
  "Execute order fuel k D executionData s =
    (let currActivity = lookupActivity (wf s) (firstActivity (wf s));
         s1 = s\<lparr>wf := (wf s)\<lparr>StartedAt := Some (time_Now k (world s))\<rparr>\<rparr>;
         statusAttr = statusSearchAttribute order (activity (wf s1));
         (e2, s2) = setExecutionStatus k StatusPending statusAttr s1
     in (case e2 of
           Some _ \<Rightarrow> Return (e2, executionData) s2
         | None \<Rightarrow>
            (let (e3, s3) = registerStatusQuery k s2
             in (case e3 of
                   Some _ \<Rightarrow> Return (e3, executionData) s3
                 | None \<Rightarrow>
                    and_then (executeLoop fuel k D statusAttr currActivity executionData s3)
                      (\<lambda>(e, data1) s4.
                        (case e of
                           Some _ \<Rightarrow> Return (e, data1) s4
                         | None \<Rightarrow>
                            Return (None, data1)
                              (finalStatus k statusAttr StatusCompleted
                                (s4\<lparr>wf := (wf s4)\<lparr>CompletedAt :=
                                   Some (time_Now k (world s4))\<rparr>\<rparr>))))))))"

end
