(* ===== verification/Temporal_Spec.thy ===== *)
theory Temporal_Spec
  imports Temporal_Types
begin

text \<open>
  The abstract workflow machine: what \<open>Execute\<close> promises about the order of the
  things it does, independently of how the loop is written. A phase says where
  the workflow is; a step is labelled with the event an observer sees. The
  machine is that of the "Status values" table and the numbered loop of
  \<open>temporal/README.md\<close>, completed where the README is silent.
\<close>

section \<open>The graph as the machine sees it\<close>

record graph =
  g_first :: string
  g_signal :: "string \<Rightarrow> string"
  g_next :: "string \<Rightarrow> string list"
  g_max :: "string \<Rightarrow> int"
  g_approval :: "string \<Rightarrow> string"
  g_timeout :: "string \<Rightarrow> int"
  g_attr :: "string \<Rightarrow> string"

definition follows :: "graph \<Rightarrow> string option \<Rightarrow> string \<Rightarrow> bool" where
  "follows G prev c = (case prev of None \<Rightarrow> c = g_first G | Some l \<Rightarrow> c \<in> set (g_next G l))"

lemma follows_simps [simp]:
  "follows G None c \<longleftrightarrow> c = g_first G"
  "follows G (Some l) c \<longleftrightarrow> c \<in> set (g_next G l)"
  by (simp_all add: follows_def)


section \<open>Phases and steps\<close>

datatype phase =
    Created
  | Starting
  | Ready
  | PlainRun string string
  | Awaiting string int
  | Listening string int
  | Corrected string int
  | Armed string int
  | Attempted string int
  | ApprovalPending string
  | ApprovalListening string
  | Decided string bool
  | Closed string

fun phase_status :: "phase \<Rightarrow> string option" where
  "phase_status Created = None"
| "phase_status Starting = Some StatusPending"
| "phase_status Ready = Some StatusPending"
| "phase_status (PlainRun c st) = Some st"
| "phase_status (Awaiting c n) = Some StatusAwaitingCorrection"
| "phase_status (Listening c n) = Some StatusAwaitingCorrection"
| "phase_status (Corrected c n) = Some StatusAwaitingCorrection"
| "phase_status (Armed c n) = Some StatusExecuting"
| "phase_status (Attempted c n) = Some StatusExecuting"
| "phase_status (ApprovalPending c) = Some StatusAwaitingApproval"
| "phase_status (ApprovalListening c) = Some StatusAwaitingApproval"
| "phase_status (Decided c b) = Some StatusAwaitingApproval"
| "phase_status (Closed st) = Some st"

text \<open>Between two activities: the last activity that ran, and the status it left.\<close>

fun idle :: "graph \<Rightarrow> phase \<Rightarrow> (string option \<times> string) option" where
  "idle G Ready = Some (None, StatusPending)"
| "idle G (PlainRun c st) = Some (Some c, st)"
| "idle G (Attempted c n) =
     (if g_approval G c = '''' then Some (Some c, StatusExecuting) else None)"
| "idle G (Decided c b) = (if b then Some (Some c, StatusAwaitingApproval) else None)"
| "idle G _ = None"

fun_cases idleE: "idle G p = Some (l, st)"

lemma idle_status: "idle G p = Some (l, st) \<Longrightarrow> phase_status p = Some st"
  by (elim idleE) (auto split: if_splits)

text \<open>Where a workflow may fail: after a plain run, on a wait, on a bad payload, or on the last attempt.\<close>

fun may_fail :: "graph \<Rightarrow> phase \<Rightarrow> bool" where
  "may_fail G (PlainRun c st) = True"
| "may_fail G (Listening c n) = True"
| "may_fail G (Corrected c n) = True"
| "may_fail G (Attempted c n) = (g_max G c < n + 1)"
| "may_fail G (ApprovalListening c) = True"
| "may_fail G _ = False"

fun_cases may_failE: "may_fail G p"

inductive wf_step :: "graph \<Rightarrow> phase \<Rightarrow> event \<Rightarrow> phase \<Rightarrow> bool" for G where
  start: "wf_step G Created (EvStatus StatusPending) Starting"
| register: "wf_step G Starting (EvQuery QueryGetStatus) Ready"
| upsert: "phase_status p = Some st \<Longrightarrow> g_attr G n \<noteq> '''' \<Longrightarrow> wf_step G p (EvUpsert (g_attr G n) st) p"
| plain: "idle G p = Some (l, st) \<Longrightarrow> follows G l c \<Longrightarrow> g_signal G c = '''' \<Longrightarrow>
    wf_step G p (EvActivity c) (PlainRun c st)"
| park: "idle G p = Some (l, st) \<Longrightarrow> follows G l c \<Longrightarrow> g_signal G c \<noteq> '''' \<Longrightarrow>
    wf_step G p (EvStatus StatusAwaitingCorrection) (Awaiting c 0)"
| listen: "wf_step G (Awaiting c n) (EvWait (g_signal G c) (g_timeout G c)) (Listening c n)"
| receive: "wf_step G (Listening c n) (EvSignal (g_signal G c)) (Corrected c n)"
| execute: "wf_step G (Corrected c n) (EvStatus StatusExecuting) (Armed c n)"
| attempt: "wf_step G (Armed c n) (EvActivity c) (Attempted c n)"
| retry: "n + 1 \<le> g_max G c \<Longrightarrow>
    wf_step G (Attempted c n) (EvStatus StatusAwaitingCorrection) (Awaiting c (n + 1))"
| ask: "g_approval G c \<noteq> '''' \<Longrightarrow>
    wf_step G (Attempted c n) (EvStatus StatusAwaitingApproval) (ApprovalPending c)"
| await: "wf_step G (ApprovalPending c) (EvWait (g_approval G c) (g_timeout G c)) (ApprovalListening c)"
| decide: "wf_step G (ApprovalListening c) (EvApproval (g_approval G c) b) (Decided c b)"
| reject: "wf_step G (Decided c False) (EvStatus StatusRejected) (Closed StatusRejected)"
| fail: "may_fail G p \<Longrightarrow> wf_step G p (EvStatus StatusFailed) (Closed StatusFailed)"
| complete: "idle G p = Some (l, st) \<Longrightarrow>
    wf_step G p (EvStatus StatusCompleted) (Closed StatusCompleted)"

declare wf_step.intros [intro]

inductive_cases step_StatusE: "wf_step G p (EvStatus st) q"
inductive_cases step_UpsertE: "wf_step G p (EvUpsert a st) q"
inductive_cases step_QueryE: "wf_step G p (EvQuery s) q"
inductive_cases step_WaitE: "wf_step G p (EvWait s t) q"
inductive_cases step_SignalE: "wf_step G p (EvSignal s) q"
inductive_cases step_ApprovalE: "wf_step G p (EvApproval s b) q"
inductive_cases step_ActivityE: "wf_step G p (EvActivity c) q"

inductive_simps step_Closed [simp]: "wf_step G (Closed st) e q"
inductive_simps step_Created [simp]: "wf_step G Created e q"

lemmas step_elims = step_StatusE step_UpsertE step_QueryE step_WaitE step_SignalE
  step_ApprovalE step_ActivityE


section \<open>Runs\<close>

inductive wf_run :: "graph \<Rightarrow> phase \<Rightarrow> event list \<Rightarrow> phase \<Rightarrow> bool" for G where
  run_nil: "wf_run G p [] p"
| run_snoc: "wf_run G p evs q \<Longrightarrow> wf_step G q e r \<Longrightarrow> wf_run G p (evs @ [e]) r"

declare run_nil [intro!, simp]

inductive_cases run_nilE [elim!]: "wf_run G p [] q"
inductive_cases run_snocE: "wf_run G p (evs @ [e]) q"

lemma wf_run_append:
  assumes "wf_run G q evs' r" and "wf_run G p evs q"
  shows "wf_run G p (evs @ evs') r"
  using assms
proof (induction rule: wf_run.induct)
  case (run_nil q)
  then show ?case by simp
next
  case (run_snoc q evs' r e r')
  then have "wf_run G p ((evs @ evs') @ [e]) r'" by (blast intro: wf_run.run_snoc)
  then show ?case by simp
qed

lemma wf_run_split:
  "wf_run G p (evs @ evs') r \<Longrightarrow> \<exists>q. wf_run G p evs q \<and> wf_run G q evs' r"
proof (induction evs' arbitrary: r rule: rev_induct)
  case Nil
  then show ?case by auto
next
  case (snoc e evs')
  from snoc.prems obtain q' where "wf_run G p (evs @ evs') q'" "wf_step G q' e r"
    by (metis append_assoc run_snocE)
  then show ?case using snoc.IH by (meson run_snoc)
qed

lemma wf_run_Cons_iff:
  "wf_run G p (e # evs) r \<longleftrightarrow> (\<exists>q. wf_step G p e q \<and> wf_run G q evs r)"
proof
  assume "wf_run G p (e # evs) r"
  then obtain q where "wf_run G p [e] q" "wf_run G q evs r"
    using wf_run_split [of G p "[e]" evs r] by auto
  moreover from this(1) have "wf_step G p e q"
    by (metis append_Nil run_snocE run_nilE)
  ultimately show "\<exists>q. wf_step G p e q \<and> wf_run G q evs r" by blast
next
  assume "\<exists>q. wf_step G p e q \<and> wf_run G q evs r"
  then obtain q where "wf_step G p e q" "wf_run G q evs r" by blast
  then show "wf_run G p (e # evs) r"
    using wf_run_append [of G q evs r p "[e]"] wf_run.run_snoc [of G p "[]" p e q] by simp
qed


section \<open>What every run of the machine satisfies\<close>

subsection \<open>The status protocol\<close>

text \<open>The statuses a workflow may show one after the other.\<close>

fun status_next :: "string option \<Rightarrow> string \<Rightarrow> bool" where
  "status_next None st = (st = StatusPending)"
| "status_next (Some old) st =
    (if old = StatusPending then st \<in> {StatusAwaitingCorrection, StatusFailed, StatusCompleted}
     else if old = StatusAwaitingCorrection then st \<in> {StatusExecuting, StatusFailed}
     else if old = StatusExecuting then
       st \<in> {StatusAwaitingCorrection, StatusAwaitingApproval, StatusFailed, StatusCompleted}
     else if old = StatusAwaitingApproval then
       st \<in> {StatusAwaitingCorrection, StatusRejected, StatusFailed, StatusCompleted}
     else False)"

fun statuses :: "event list \<Rightarrow> string list" where
  "statuses [] = []"
| "statuses (EvStatus st # evs) = st # statuses evs"
| "statuses (e # evs) = statuses evs"

fun status_path :: "string option \<Rightarrow> string list \<Rightarrow> bool" where
  "status_path old [] = True"
| "status_path old (st # sts) = (status_next old st \<and> status_path (Some st) sts)"

lemma statuses_append [simp]: "statuses (xs @ ys) = statuses xs @ statuses ys"
  by (induction xs rule: statuses.induct) auto

definition last_status :: "string option \<Rightarrow> string list \<Rightarrow> string option" where
  "last_status old sts = (if sts = [] then old else Some (last sts))"

lemma status_path_append:
  "status_path old (xs @ ys) \<longleftrightarrow> status_path old xs \<and> status_path (last_status old xs) ys"
  by (induction xs arbitrary: old) (auto simp: last_status_def)

lemma last_status_append [simp]:
  "last_status old (xs @ ys) = last_status (last_status old xs) ys"
  by (simp add: last_status_def)

text \<open>The statuses of a phase that is neither created nor closed.\<close>

fun phase_ok :: "phase \<Rightarrow> bool" where
  "phase_ok (PlainRun c st) = (st \<in> {StatusPending, StatusExecuting, StatusAwaitingApproval})"
| "phase_ok _ = True"

lemma idle_ok:
  "idle G p = Some (l, st) \<Longrightarrow> phase_ok p \<Longrightarrow>
   st \<in> {StatusPending, StatusExecuting, StatusAwaitingApproval}"
  by (elim idleE) (auto split: if_splits)

lemma step_phase_ok: "wf_step G p e q \<Longrightarrow> phase_ok p \<Longrightarrow> phase_ok q"
  by (induction rule: wf_step.induct) (auto dest: idle_ok)

lemma may_fail_status_next:
  "may_fail G p \<Longrightarrow> phase_ok p \<Longrightarrow> status_next (phase_status p) StatusFailed"
  by (elim may_failE) auto

lemma step_status:
  assumes "wf_step G p e q" and "phase_ok p"
  shows "status_path (phase_status p) (statuses [e]) \<and>
    phase_status q = last_status (phase_status p) (statuses [e])"
  using assms
proof (induction rule: wf_step.induct)
  case (fail p)
  then show ?case by (simp add: last_status_def may_fail_status_next)
next
  case (complete p l st)
  then show ?case using idle_ok [of G p l st] idle_status [of G p l st]
    by (auto simp: last_status_def)
next
  case (park p l st c)
  then show ?case using idle_ok [of G p l st] idle_status [of G p l st]
    by (auto simp: last_status_def)
next
  case (plain p l st c)
  then show ?case using idle_status [of G p l st] by (simp add: last_status_def)
qed (auto simp: last_status_def)

lemma run_status:
  assumes "wf_run G p evs q" and "phase_ok p"
  shows "phase_ok q \<and> status_path (phase_status p) (statuses evs) \<and>
    phase_status q = last_status (phase_status p) (statuses evs)"
  using assms
proof (induction rule: wf_run.induct)
  case (run_nil p)
  then show ?case by (simp add: last_status_def)
next
  case (run_snoc p evs q e r)
  then show ?case using step_status [of G q e r] step_phase_ok [of G q e r]
    by (simp add: status_path_append)
qed


subsection \<open>No gated activity runs before its signal\<close>

text \<open>
  \<open>gate_ok G pending evs\<close>: every run of a gated activity \<open>c\<close> uses up one receipt of
  \<open>c\<close>'s own signal that no earlier run has used; \<open>pending\<close> is the signal received
  and not used.
\<close>

fun gate_ok :: "graph \<Rightarrow> string option \<Rightarrow> event list \<Rightarrow> bool" where
  "gate_ok G pending [] = True"
| "gate_ok G pending (EvSignal ch # evs) = gate_ok G (Some ch) evs"
| "gate_ok G pending (EvActivity c # evs) =
    ((g_signal G c = '''' \<or> pending = Some (g_signal G c)) \<and> gate_ok G None evs)"
| "gate_ok G pending (e # evs) = gate_ok G pending evs"

fun gate_after :: "string option \<Rightarrow> event list \<Rightarrow> string option" where
  "gate_after pending [] = pending"
| "gate_after pending (EvSignal ch # evs) = gate_after (Some ch) evs"
| "gate_after pending (EvActivity c # evs) = gate_after None evs"
| "gate_after pending (e # evs) = gate_after pending evs"

lemma gate_ok_append:
  "gate_ok G p (xs @ ys) \<longleftrightarrow> gate_ok G p xs \<and> gate_ok G (gate_after p xs) ys"
  by (induction G p xs rule: gate_ok.induct) auto

lemma gate_after_append [simp]: "gate_after p (xs @ ys) = gate_after (gate_after p xs) ys"
  by (induction p xs rule: gate_after.induct) auto

fun phase_gate :: "graph \<Rightarrow> phase \<Rightarrow> string option" where
  "phase_gate G (Corrected c n) = Some (g_signal G c)"
| "phase_gate G (Armed c n) = Some (g_signal G c)"
| "phase_gate G _ = None"

lemma idle_gate: "idle G p = Some x \<Longrightarrow> phase_gate G p = None"
  by (cases x) (auto elim: idleE)

lemma step_gate:
  "wf_step G p e q \<Longrightarrow> q \<noteq> Closed StatusFailed \<Longrightarrow>
   gate_ok G (phase_gate G p) [e] \<and> phase_gate G q = gate_after (phase_gate G p) [e]"
  by (induction rule: wf_step.induct) (auto simp: idle_gate)

lemma step_to_failed:
  "wf_step G p e (Closed StatusFailed) \<Longrightarrow> gate_ok G (phase_gate G p) [e]"
  by (erule wf_step.cases) auto

lemma run_closed: "wf_run G (Closed st) evs q \<Longrightarrow> q = Closed st \<and> (\<forall>e \<in> set evs. \<exists>a. e = EvUpsert a st)"
  by (induction "Closed st" evs q rule: wf_run.induct) auto

lemma gate_ok_upserts:
  "\<forall>e \<in> set evs. \<exists>a. e = EvUpsert a st \<Longrightarrow> gate_ok G pending evs"
  by (induction evs) auto

lemma run_gate:
  assumes "wf_run G p evs q" and "phase_gate G p = None"
  shows "gate_ok G None evs \<and> (q = Closed StatusFailed \<or> phase_gate G q = gate_after None evs)"
  using assms
proof (induction rule: wf_run.induct)
  case (run_nil p)
  then show ?case by simp
next
  case (run_snoc p evs q e r)
  show ?case
  proof (cases "q = Closed StatusFailed")
    case True
    with run_snoc show ?thesis by (auto simp: gate_ok_append)
  next
    case False
    with run_snoc have "gate_ok G None evs" "phase_gate G q = gate_after None evs" by auto
    then show ?thesis using step_gate [OF run_snoc.hyps(2)] step_to_failed [of G q e] run_snoc.hyps(2)
      by (auto simp: gate_ok_append)
  qed
qed


subsection \<open>The activities run along declared edges\<close>

text \<open>
  The activities of a history, in order: the first is the start node; each later
  one is a declared successor of the one before it, or a repetition of a gated one.
\<close>

fun activities :: "event list \<Rightarrow> string list" where
  "activities [] = []"
| "activities (EvActivity c # evs) = c # activities evs"
| "activities (e # evs) = activities evs"

lemma activities_append [simp]: "activities (xs @ ys) = activities xs @ activities ys"
  by (induction xs rule: activities.induct) auto

fun edges_ok :: "graph \<Rightarrow> string option \<Rightarrow> string list \<Rightarrow> bool" where
  "edges_ok G prev [] = True"
| "edges_ok G prev (c # cs) =
    ((follows G prev c \<or> prev = Some c \<and> g_signal G c \<noteq> '''') \<and> edges_ok G (Some c) cs)"

definition last_activity :: "string option \<Rightarrow> string list \<Rightarrow> string option" where
  "last_activity prev cs = (if cs = [] then prev else Some (last cs))"

lemma edges_ok_append:
  "edges_ok G prev (xs @ ys) \<longleftrightarrow> edges_ok G prev xs \<and> edges_ok G (last_activity prev xs) ys"
  by (induction xs arbitrary: prev) (auto simp: last_activity_def)

lemma last_activity_append [simp]:
  "last_activity prev (xs @ ys) = last_activity (last_activity prev xs) ys"
  by (simp add: last_activity_def)

lemma last_activity_simps [simp]:
  "last_activity prev [] = prev" "last_activity prev [c] = Some c"
  by (simp_all add: last_activity_def)

text \<open>How the phase and the last activity that ran go together.\<close>

definition reaches :: "graph \<Rightarrow> string option \<Rightarrow> string \<Rightarrow> bool" where
  "reaches G l c \<longleftrightarrow> g_signal G c \<noteq> '''' \<and> (follows G l c \<or> l = Some c)"

fun phase_last :: "graph \<Rightarrow> phase \<Rightarrow> string option \<Rightarrow> bool" where
  "phase_last G (PlainRun c st) l = (l = Some c)"
| "phase_last G (Awaiting c n) l = reaches G l c"
| "phase_last G (Listening c n) l = reaches G l c"
| "phase_last G (Corrected c n) l = reaches G l c"
| "phase_last G (Armed c n) l = reaches G l c"
| "phase_last G (Attempted c n) l = (l = Some c \<and> g_signal G c \<noteq> '''')"
| "phase_last G (ApprovalPending c) l = (l = Some c)"
| "phase_last G (ApprovalListening c) l = (l = Some c)"
| "phase_last G (Decided c b) l = (l = Some c)"
| "phase_last G (Closed st) l = True"
| "phase_last G _ l = (l = None)"

lemma idle_last: "idle G p = Some (l', st) \<Longrightarrow> phase_last G p l \<Longrightarrow> l = l'"
  by (elim idleE) (auto split: if_splits)

lemma step_edges:
  assumes "wf_step G p e q" and "phase_last G p l"
  shows "edges_ok G l (activities [e]) \<and> phase_last G q (last_activity l (activities [e]))"
  using assms
  by (induction rule: wf_step.induct) (auto simp: reaches_def dest: idle_last)

lemma run_edges:
  assumes "wf_run G p evs q" and "phase_last G p l"
  shows "edges_ok G l (activities evs) \<and> phase_last G q (last_activity l (activities evs))"
  using assms
proof (induction rule: wf_run.induct)
  case (run_snoc p evs q e r)
  then show ?case using step_edges [OF run_snoc.hyps(2)] by (simp add: edges_ok_append)
qed simp


subsection \<open>What a graph without options never shows\<close>

text \<open>
  A graph no activity of which asks for an approval, a time limit or a search
  attribute: then nothing is upserted, no approval is read and no wait is bounded.
\<close>

definition option_free :: "graph \<Rightarrow> bool" where
  "option_free G \<longleftrightarrow> g_approval G = (\<lambda>_. '''') \<and> g_timeout G = (\<lambda>_. 0) \<and> g_attr G = (\<lambda>_. '''')"

fun unbounded_event :: "event \<Rightarrow> bool" where
  "unbounded_event (EvStatus st) =
     (st \<in> {StatusPending, StatusAwaitingCorrection, StatusExecuting, StatusFailed, StatusCompleted})"
| "unbounded_event (EvUpsert a st) = False"
| "unbounded_event (EvWait ch t) = (t = 0)"
| "unbounded_event (EvApproval ch b) = False"
| "unbounded_event e = True"

fun approval_free :: "phase \<Rightarrow> bool" where
  "approval_free (ApprovalPending c) = False"
| "approval_free (ApprovalListening c) = False"
| "approval_free (Decided c b) = False"
| "approval_free p = True"

lemma step_option_free:
  "wf_step G p e q \<Longrightarrow> option_free G \<Longrightarrow> approval_free p \<Longrightarrow> unbounded_event e \<and> approval_free q"
  by (induction rule: wf_step.induct) (auto simp: option_free_def)

lemma run_option_free:
  assumes "wf_run G p evs q" and "option_free G" and "approval_free p"
  shows "list_all unbounded_event evs \<and> approval_free q"
  using assms
proof (induction rule: wf_run.induct)
  case (run_snoc p evs q e r)
  then show ?case using step_option_free [OF run_snoc.hyps(2)] by simp
qed simp


subsection \<open>A rejection ends the workflow\<close>

fun is_rejection :: "event \<Rightarrow> bool" where
  "is_rejection (EvApproval ch b) = (\<not> b)"
| "is_rejection e = False"

definition rejected :: "event list \<Rightarrow> bool" where
  "rejected evs = list_ex is_rejection evs"

text \<open>After a rejection only the status \<open>REJECTED\<close> is reported.\<close>

fun only_reports_rejected :: "event \<Rightarrow> bool" where
  "only_reports_rejected (EvStatus st) = (st = StatusRejected)"
| "only_reports_rejected (EvUpsert a st) = (st \<in> {StatusAwaitingApproval, StatusRejected})"
| "only_reports_rejected e = False"

fun rejection_ends :: "event list \<Rightarrow> bool" where
  "rejection_ends [] = True"
| "rejection_ends (e # evs) =
    ((if is_rejection e then list_all only_reports_rejected evs else True) \<and> rejection_ends evs)"

lemma rejection_ends_snoc:
  "rejection_ends (evs @ [e]) \<longleftrightarrow>
     rejection_ends evs \<and> (rejected evs \<longrightarrow> only_reports_rejected e)"
  by (induction evs) (auto simp: rejected_def)

fun rejected_phase :: "phase \<Rightarrow> bool" where
  "rejected_phase (Decided c b) = (\<not> b)"
| "rejected_phase (Closed st) = (st = StatusRejected)"
| "rejected_phase p = False"

lemma step_rejected:
  "wf_step G p e q \<Longrightarrow> phase_ok p \<Longrightarrow>
   (rejected_phase q \<longleftrightarrow> rejected_phase p \<or> is_rejection e) \<and>
   (rejected_phase p \<longrightarrow> only_reports_rejected e)"
proof (induction rule: wf_step.induct)
  case (upsert p st n)
  then show ?case by (cases p rule: rejected_phase.cases) auto
next
  case (plain p l st c)
  then show ?case by (auto elim!: idleE split: if_splits)
next
  case (park p l st c)
  then show ?case by (auto elim!: idleE split: if_splits)
next
  case (fail p)
  then show ?case by (auto elim!: may_failE)
next
  case (complete p l st)
  then show ?case by (auto elim!: idleE split: if_splits)
qed auto

lemma run_rejected:
  assumes "wf_run G p evs q" and "phase_ok p" and "\<not> rejected_phase p"
  shows "rejection_ends evs \<and> (rejected evs \<longleftrightarrow> rejected_phase q)"
  using assms
proof (induction rule: wf_run.induct)
  case (run_nil p)
  then show ?case by (simp add: rejected_def)
next
  case (run_snoc p evs q e r)
  then have "phase_ok q" using run_status by blast
  with run_snoc step_rejected [OF run_snoc.hyps(2)] show ?case
    by (auto simp: rejection_ends_snoc) (auto simp: rejected_def)
qed

end
