(* ===== verification/Temporal_Refinement.thy ===== *)
theory Temporal_Refinement
  imports Temporal_Workflow Temporal_Spec
begin

text \<open>
  The workflow code implements the abstract machine of \<open>Temporal_Spec\<close>: one lemma
  per operation moves the phase, and \<open>Execute\<close> composes them.
\<close>

section \<open>Abstraction\<close>

definition graph_of_activities ::
    "string \<Rightarrow> (string \<rightharpoonup> 'f ActivityExecutionInfo) \<Rightarrow> graph" where
  "graph_of_activities first act = \<lparr>
     g_first = first,
     g_signal = (\<lambda>c. SignalEvent (infoAt act c)),
     g_next = (\<lambda>c. case NextActivities (infoAt act c) of None \<Rightarrow> [] | Some ns \<Rightarrow> ns),
     g_max = (\<lambda>c. MaxCorrectionAttempts (resumableOptionsOf (infoAt act c))),
     g_approval = (\<lambda>c. ApprovalSignal (resumableOptionsOf (infoAt act c))),
     g_timeout = (\<lambda>c. WaitTimeout (resumableOptionsOf (infoAt act c))),
     g_attr = (\<lambda>c. StatusSearchAttribute (resumableOptionsOf (infoAt act c)))\<rparr>"

definition graph_of :: "('p, 'f, 'c) WorkflowExecutionData \<Rightarrow> graph" where
  "graph_of w = graph_of_activities (firstActivity w) (activity w)"

text \<open>The state \<open>s\<close>, reached with history \<open>h0\<close> followed by a run of the machine, is at phase \<open>p\<close>.\<close>

definition at_phase ::
    "event list \<Rightarrow> graph \<Rightarrow> phase \<Rightarrow> ('p, 'f, 'c, 'w) wstate \<Rightarrow> bool" where
  "at_phase h0 G p s \<longleftrightarrow> graph_of (wf s) = G \<and>
     (\<exists>evs. history s = h0 @ evs \<and> wf_run G Created evs p) \<and>
     (\<forall>st. phase_status p = Some st \<longrightarrow> Status (wf s) = st)"

lemma at_phase_start:
  "graph_of (wf s) = G \<Longrightarrow> at_phase (history s) G Created s"
  by (simp add: at_phase_def)

lemma at_phase_graph: "at_phase h0 G p s \<Longrightarrow> graph_of (wf s) = G"
  by (simp add: at_phase_def)

lemma at_phase_fields:
  assumes "at_phase h0 G p s"
  shows "SignalEvent (deref s c) = g_signal G c"
    and "(case NextActivities (deref s c) of None \<Rightarrow> [] | Some ns \<Rightarrow> ns) = g_next G c"
    and "MaxCorrectionAttempts (resumableOptionsOf (deref s c)) = g_max G c"
    and "ApprovalSignal (resumableOptionsOf (deref s c)) = g_approval G c"
    and "firstActivity (wf s) = g_first G"
    and "WaitTimeout (resumableOptionsOf (deref s c)) = g_timeout G c"
    and "StatusSearchAttribute (resumableOptionsOf (deref s c)) = g_attr G c"
  using at_phase_graph [OF assms]
  by (auto simp: graph_of_def graph_of_activities_def deref_def)

lemma at_phase_world [simp]: "at_phase h0 G p (s\<lparr>world := w'\<rparr>) = at_phase h0 G p s"
  by (simp add: at_phase_def)

lemma at_phase_times [simp]:
  "at_phase h0 G p (s\<lparr>wf := (wf s)\<lparr>StartedAt := t\<rparr>\<rparr>) = at_phase h0 G p s"
  "at_phase h0 G p (s\<lparr>wf := (wf s)\<lparr>CompletedAt := t\<rparr>\<rparr>) = at_phase h0 G p s"
  by (simp_all add: at_phase_def graph_of_def)

lemma at_phase_ok: "at_phase h0 G p s \<Longrightarrow> phase_ok p"
  unfolding at_phase_def using run_status by (metis phase_ok.simps(2))

lemma at_phase_Status: "at_phase h0 G p s \<Longrightarrow> phase_status p = Some st \<Longrightarrow> Status (wf s) = st"
  by (simp add: at_phase_def)

lemma at_phase_emit:
  "at_phase h0 G p s \<Longrightarrow> wf_step G p e q \<Longrightarrow> phase_status q = phase_status p \<Longrightarrow>
   at_phase h0 G q (emit e s)"
  unfolding at_phase_def by (auto intro: run_snoc)

text \<open>The attributes a status may be upserted under: none, or one some activity asks for.\<close>

definition attr_ok :: "graph \<Rightarrow> string \<Rightarrow> bool" where
  "attr_ok G attr \<longleftrightarrow> attr = '''' \<or> (\<exists>n. attr = g_attr G n)"

lemma attr_ok_node [simp]: "attr_ok G (g_attr G n)"
  by (auto simp: attr_ok_def)

lemma at_phase_status:
  assumes "at_phase h0 G p s" and "wf_step G p (EvStatus st) q" and "phase_status q = Some st"
    and "attr_ok G attr"
  shows "at_phase h0 G q (snd (setExecutionStatus k st attr s))"
proof -
  let ?s1 = "emit (EvStatus st) (s\<lparr>wf := (wf s)\<lparr>Status := st\<rparr>\<rparr>)"
  have s1: "at_phase h0 G q ?s1"
    using assms unfolding at_phase_def by (auto simp: graph_of_def intro: run_snoc)
  moreover have "wf_step G q (EvUpsert attr st) q" if "attr \<noteq> ''''"
    using assms(3,4) that by (auto simp: attr_ok_def)
  ultimately show ?thesis
    by (auto simp: setExecutionStatus_def Let_def split: prod.splits intro!: at_phase_emit)
qed

lemma resumableOptionsOf_idem:
  "resumableOptionsOf (info\<lparr>Resumable := Some (resumableOptionsOf info)\<rparr>) = resumableOptionsOf info"
  by (simp add: resumableOptionsOf_def Let_def DefaultCorrectionSignal_def split: option.splits)

lemma deref_setResumable [simp]:
  "deref (setResumable c opts s) c' =
     (if c' = c then (deref s c)\<lparr>Resumable := Some opts\<rparr> else deref s c')"
  by (simp add: deref_def setResumable_def infoAt_def)

lemma at_phase_setResumable:
  "at_phase h0 G p s \<Longrightarrow> at_phase h0 G p (setResumable c (resumableOptionsOf (deref s c)) s)"
  unfolding at_phase_def graph_of_def graph_of_activities_def
  by (auto simp: setResumable_def deref_def infoAt_def resumableOptionsOf_idem fun_eq_iff
      split: option.splits)


section \<open>Phases at which the code may be left\<close>

fun parked_phase :: "phase \<Rightarrow> bool" where
  "parked_phase (PlainRun c st) = True"
| "parked_phase (Listening c n) = True"
| "parked_phase (Attempted c n) = True"
| "parked_phase (ApprovalListening c) = True"
| "parked_phase _ = False"

definition failing :: "graph \<Rightarrow> phase \<Rightarrow> bool" where
  "failing G q \<longleftrightarrow> q = Closed StatusFailed \<or> q = Closed StatusRejected \<or> may_fail G q"

definition fails :: "event list \<Rightarrow> graph \<Rightarrow> ('p, 'f, 'c, 'w) wstate \<Rightarrow> bool" where
  "fails h0 G s \<longleftrightarrow> (\<exists>q. at_phase h0 G q s \<and> failing G q)"

lemma failsI: "at_phase h0 G q s \<Longrightarrow> failing G q \<Longrightarrow> fails h0 G s"
  by (auto simp: fails_def)

definition rests :: "event list \<Rightarrow> graph \<Rightarrow> ('p, 'f, 'c, 'w) wstate \<Rightarrow> bool" where
  "rests h0 G s \<longleftrightarrow> (\<exists>q. at_phase h0 G q s \<and> parked_phase q)"

lemma restsI [intro]: "at_phase h0 G q s \<Longrightarrow> parked_phase q \<Longrightarrow> rests h0 G s"
  by (auto simp: rests_def)


section \<open>One lemma per operation\<close>

lemma callActivity_phase:
  assumes "at_phase h0 G p s" and "wf_step G p (EvActivity c) q"
    and "phase_status q = phase_status p" and "parked_phase q"
  shows "post (callActivity k opts c data s) (\<lambda>_. at_phase h0 G q) (rests h0 G) (\<lambda>_. False)"
  using assms by (auto simp: callActivity_def split: future.splits intro!: at_phase_emit restsI)

lemma waitForSignalPayload_phase:
  assumes "at_phase h0 G (Awaiting c n) s"
  shows "post (waitForSignalPayload k (g_signal G c) (g_timeout G c) s)
     (\<lambda>r s'. case r of Inl e \<Rightarrow> at_phase h0 G (Listening c n) s' \<or> at_phase h0 G (Corrected c n) s'
           | Inr pl \<Rightarrow> at_phase h0 G (Corrected c n) s')
     (rests h0 G) (\<lambda>_. False)"
proof -
  let ?s = "emit (EvWait (g_signal G c) (g_timeout G c)) s"
  have l: "at_phase h0 G (Listening c n) ?s"
    by (rule at_phase_emit [OF assms]) auto
  have r: "at_phase h0 G (Corrected c n) (emit (EvSignal (g_signal G c)) (?s\<lparr>world := w'\<rparr>))" for w'
    by (rule at_phase_emit [of _ _ "Listening c n"]) (use l in auto)
  show ?thesis using l r
    by (auto simp: waitForSignalPayload_def Let_def split: timed_await.splits await.splits
        sum.splits)
qed

lemma failed_phase:
  "at_phase h0 G q s \<Longrightarrow> may_fail G q \<Longrightarrow> attr_ok G attr \<Longrightarrow>
   at_phase h0 G (Closed StatusFailed) (snd (setExecutionStatus k StatusFailed attr s))"
  by (auto intro: at_phase_status)

lemma failingI [intro]:
  "failing G (Closed StatusFailed)" "failing G (Closed StatusRejected)"
  "failing G (Listening c n)" "failing G (Corrected c n)" "failing G (ApprovalListening c)"
  "failing G (PlainRun c st)"
  by (simp_all add: failing_def)

lemma correctionTurn_phase:
  assumes "at_phase h0 G p s"
    and "wf_step G p (EvStatus StatusAwaitingCorrection) (Awaiting c n)"
    and opts: "WaitTimeout opts = g_timeout G c" "StatusSearchAttribute opts = g_attr G c"
  shows "post (correctionTurn k D c actx opts data s)
     (\<lambda>t s'. case t of
          TurnReturn e d \<Rightarrow> fails h0 G s'
        | _ \<Rightarrow> at_phase h0 G (Attempted c n) s')
     (rests h0 G) (\<lambda>_. False)"
proof -
  let ?attr = "g_attr G c"
  have s1: "at_phase h0 G (Awaiting c n)
      (snd (setExecutionStatus k StatusAwaitingCorrection ?attr s))"
    using assms by (auto intro: at_phase_status)
  have sig: "SignalEvent (deref s c) = g_signal G c"
    by (rule at_phase_fields(1) [OF assms(1)])
  have failed: "fails h0 G (snd (setExecutionStatus k StatusFailed ?attr s'))"
    if "at_phase h0 G (Listening c n) s' \<or> at_phase h0 G (Corrected c n) s'" for s'
    using that by (metis attr_ok_node failed_phase failsI failingI(1) may_fail.simps(2,3))
  have run: "post (callActivity k (Some actx) c d
        (snd (setExecutionStatus k StatusExecuting ?attr s2)))
      (\<lambda>_. at_phase h0 G (Attempted c n)) (rests h0 G) (\<lambda>_. False)"
    if "at_phase h0 G (Corrected c n) s2" for d s2
  proof (rule callActivity_phase [where p = "Armed c n"])
    show "at_phase h0 G (Armed c n) (snd (setExecutionStatus k StatusExecuting ?attr s2))"
      by (rule at_phase_status [OF that]) auto
  qed auto
  show ?thesis
    unfolding correctionTurn_def Let_def sig opts
    by (rule post_seq [OF waitForSignalPayload_phase [OF s1]])
      (auto split: sum.splits prod.splits option.splits intro: failed failsI
        intro!: post_seq [OF run])
qed

text \<open>What an activity call leaves behind, by the error it returns.\<close>

definition called ::
    "event list \<Rightarrow> graph \<Rightarrow> (phase \<Rightarrow> bool) \<Rightarrow> err \<times> 'd option \<Rightarrow> ('p, 'f, 'c, 'w) wstate \<Rightarrow> bool" where
  "called h0 G good r s \<longleftrightarrow>
     (case fst r of None \<Rightarrow> (\<exists>q. at_phase h0 G q s \<and> good q) | Some _ \<Rightarrow> fails h0 G s)"

lemma called_Some [simp]: "called h0 G good (Some e, d) s \<longleftrightarrow> fails h0 G s"
  by (simp add: called_def)

lemma called_None: "at_phase h0 G q s \<Longrightarrow> good q \<Longrightarrow> called h0 G good (None, d) s"
  by (auto simp: called_def)

lemma called_NoneE:
  assumes "called h0 G good (None, d) s"
  obtains q where "at_phase h0 G q s" and "good q"
  using assms by (auto simp: called_def)

lemma correctionLoop_phase:
  assumes "at_phase h0 G p s"
    and "wf_step G p (EvStatus StatusAwaitingCorrection) (Awaiting c count)"
    and "MaxCorrectionAttempts opts = g_max G c"
    and "WaitTimeout opts = g_timeout G c" "StatusSearchAttribute opts = g_attr G c"
  shows "post (correctionLoop k D c actx opts count data s)
     (called h0 G (\<lambda>q. \<exists>n. q = Attempted c n)) (rests h0 G) (\<lambda>_. False)"
  using assms
proof (induction k D c actx opts count data s arbitrary: p rule: correctionLoop.induct)
  case (1 k D c actx opts count data s)
  show ?case
    unfolding correctionLoop.simps [of k D c actx opts count data s]
  proof (rule post_seq_eq [OF correctionTurn_phase [OF "1.prems"(1,2,4,5)]], goal_cases)
    case turn: (1 t s1)
    have last: "at_phase h0 G (Closed StatusFailed)
        (snd (setExecutionStatus k StatusFailed (StatusSearchAttribute opts) s1))"
      if "at_phase h0 G (Attempted c count) s1" "MaxCorrectionAttempts opts < count + 1"
      using that "1.prems"(3,5) by (auto intro: failed_phase)
    show ?case
    proof (cases t)
      case (TurnFailed e d)
      with turn have att: "at_phase h0 G (Attempted c count) s1" by simp
      show ?thesis
      proof (cases "count + 1 > MaxCorrectionAttempts opts")
        case True
        with att have "at_phase h0 G (Closed StatusFailed)
            (snd (setExecutionStatus k StatusFailed (StatusSearchAttribute opts) s1))"
          using "1.prems"(3,5) by (auto intro: failed_phase)
        with True TurnFailed show ?thesis by (auto intro: failsI)
      next
        case False
        with "1.prems"(3) have
          "wf_step G (Attempted c count) (EvStatus StatusAwaitingCorrection) (Awaiting c (count + 1))"
          by auto
        with False TurnFailed show ?thesis
          using "1.IH" [OF turn(1) TurnFailed _ att] "1.prems"(3-5) by simp
      qed
    qed (use turn in \<open>auto intro: called_None\<close>)
  qed
qed

lemma receiveApproval_phase:
  assumes "at_phase h0 G (ApprovalPending c) s" and "ApprovalSignal opts = g_approval G c"
    and "WaitTimeout opts = g_timeout G c" "StatusSearchAttribute opts = g_attr G c"
  shows "post (receiveApproval k name opts s)
     (\<lambda>r s'. case r of
          Inl e \<Rightarrow> fails h0 G s'
        | Inr b \<Rightarrow> at_phase h0 G (Decided c b) s')
     (rests h0 G) (\<lambda>_. False)"
proof -
  let ?s = "emit (EvWait (g_approval G c) (g_timeout G c)) s"
  have l: "at_phase h0 G (ApprovalListening c) ?s"
    by (rule at_phase_emit [OF assms(1)]) auto
  have d: "at_phase h0 G (Decided c b) (emit (EvApproval (g_approval G c) b) (?s\<lparr>world := w'\<rparr>))"
    for w' b
    by (rule at_phase_emit [of _ _ "ApprovalListening c"]) (use l in auto)
  have f: "fails h0 G (snd (setExecutionStatus k StatusFailed (g_attr G c) (?s\<lparr>world := w'\<rparr>)))" for w'
    by (rule failsI [OF failed_phase [of _ _ "ApprovalListening c"]]) (use l in auto)
  show ?thesis using l d f
    by (auto simp: receiveApproval_def Let_def assms(2-4) intro: failsI
        split: timed_await.splits await.splits)
qed

lemma waitForApproval_phase:
  assumes "at_phase h0 G p s"
    and "wf_step G p (EvStatus StatusAwaitingApproval) (ApprovalPending c)"
    and "ApprovalSignal opts = g_approval G c"
    and "WaitTimeout opts = g_timeout G c" "StatusSearchAttribute opts = g_attr G c"
  shows "post (waitForApproval k name opts s)
     (\<lambda>e s'. called h0 G (\<lambda>q. q = Decided c True) (e, data) s') (rests h0 G) (\<lambda>_. False)"
proof -
  let ?attr = "g_attr G c"
  have s1: "at_phase h0 G (ApprovalPending c)
      (snd (setExecutionStatus k StatusAwaitingApproval ?attr s))"
    by (rule at_phase_status [OF assms(1,2)]) simp_all
  have rejected: "at_phase h0 G (Closed StatusRejected)
      (snd (setExecutionStatus k StatusRejected ?attr s'))"
    if "at_phase h0 G (Decided c False) s'" for s'
    by (rule at_phase_status [OF that]) auto
  show ?thesis
    unfolding waitForApproval_def Let_def assms(5)
    by (rule post_seq [OF receiveApproval_phase [OF s1 assms(3-5)]])
      (auto split: sum.splits intro: failsI called_None dest!: rejected)
qed

lemma applyBranch_None [simp]: "fst (applyBranch D info d) = None"
  by (simp add: applyBranch_def split: option.splits)

text \<open>The phases in which an activity \<open>c\<close> has just succeeded.\<close>

definition finished :: "graph \<Rightarrow> string \<Rightarrow> phase \<Rightarrow> bool" where
  "finished G c q \<longleftrightarrow> (\<exists>st. idle G q = Some (Some c, st))"

lemma called_finished:
  "at_phase h0 G q s \<Longrightarrow> finished G c q \<Longrightarrow> called h0 G (finished G c) (applyBranch D info d) s"
  by (auto simp: called_def)

lemma runResumableActivity_phase:
  assumes at: "at_phase h0 G p s" and idle: "idle G p = Some (l, st)" and fol: "follows G l c"
    and gated: "g_signal G c \<noteq> ''''"
  shows "post (runResumableActivity k D c data s) (called h0 G (finished G c)) (rests h0 G) (\<lambda>_. False)"
proof -
  let ?opts = "resumableOptionsOf (deref s c)"
  let ?s1 = "setResumable c ?opts s"
  have s1: "at_phase h0 G p ?s1" by (rule at_phase_setResumable [OF at])
  have max: "MaxCorrectionAttempts ?opts = g_max G c" and app: "ApprovalSignal ?opts = g_approval G c"
    and tmo: "WaitTimeout ?opts = g_timeout G c" and attr: "StatusSearchAttribute ?opts = g_attr G c"
    by (rule at_phase_fields [OF at])+
  have step: "wf_step G p (EvStatus StatusAwaitingCorrection) (Awaiting c 0)"
    using idle fol gated by (rule wf_step.park)
  show ?thesis
    unfolding runResumableActivity_def Let_def
  proof (rule post_seq [OF correctionLoop_phase [OF s1 step max tmo attr]], goal_cases)
    case (1 r s2)
    obtain e d where r: "r = (e, d)" by (cases r)
    show ?case
    proof (cases e)
      case (Some x)
      with 1 r show ?thesis by simp
    next
      case None
      with 1 r obtain n where s2: "at_phase h0 G (Attempted c n) s2"
        by (auto elim!: called_NoneE)
      show ?thesis
      proof (cases "g_approval G c = ''''")
        case True
        then have "finished G c (Attempted c n)" by (simp add: finished_def)
        with s2 None True r show ?thesis by (simp add: app called_finished)
      next
        case False
        then have "wf_step G (Attempted c n) (EvStatus StatusAwaitingApproval) (ApprovalPending c)"
          by auto
        note w = waitForApproval_phase [OF s2 this app tmo attr, where data = d]
        have "finished G c (Decided c True)" by (simp add: finished_def)
        then show ?thesis
          using None False r
          by (auto simp: app split: option.splits elim!: called_NoneE
              intro: called_finished intro!: post_seq [OF w])
      qed
    qed
  qed
qed

lemma runActivity_phase:
  assumes at: "at_phase h0 G p s" and idle: "idle G p = Some (l, st)" and fol: "follows G l c"
  shows "post (runActivity k D c data s) (called h0 G (finished G c)) (rests h0 G) (\<lambda>_. False)"
proof (cases "g_signal G c = ''''")
  case False
  then show ?thesis
    using runResumableActivity_phase [OF at idle fol]
    by (simp add: runActivity_def Let_def at_phase_fields(1) [OF at])
next
  case True
  have step: "wf_step G p (EvActivity c) (PlainRun c st)"
    using idle fol True by (rule wf_step.plain)
  have eq: "phase_status (PlainRun c st) = phase_status p"
    using idle_status [OF idle] by simp
  have fin: "finished G c (PlainRun c st)" by (simp add: finished_def)
  have run: "post (callActivity k opts c data s)
      (\<lambda>_. at_phase h0 G (PlainRun c st)) (rests h0 G) (\<lambda>_. False)" for opts
    by (rule callActivity_phase [OF at step eq]) simp
  show ?thesis
    using True
    by (auto simp: runActivity_def Let_def at_phase_fields(1) [OF at] split: option.splits
        intro!: post_seq [OF run] failsI [OF _ failingI(6)] called_finished [OF _ fin])
qed

definition closed_error :: "event list \<Rightarrow> graph \<Rightarrow> ('p, 'f, 'c, 'w) wstate \<Rightarrow> bool" where
  "closed_error h0 G s \<longleftrightarrow>
     at_phase h0 G (Closed StatusFailed) s \<or> at_phase h0 G (Closed StatusRejected) s"

lemma fails_closed:
  assumes "fails h0 G s" and "attr_ok G attr"
  shows "closed_error h0 G (finalStatus k attr StatusFailed s)"
proof -
  obtain q where q: "at_phase h0 G q s" "failing G q" using assms(1) by (auto simp: fails_def)
  show ?thesis
  proof (cases "may_fail G q")
    case True
    have "Status (wf s) \<noteq> StatusFailed \<and> Status (wf s) \<noteq> StatusRejected"
      using True at_phase_ok [OF q(1)] at_phase_Status [OF q(1)]
      by (cases "(G, q)" rule: may_fail.cases) auto
    then show ?thesis
      using failed_phase [OF q(1) True assms(2), of k] by (simp add: finalStatus_def closed_error_def)
  next
    case False
    with q(2) have "q = Closed StatusFailed \<or> q = Closed StatusRejected" by (auto simp: failing_def)
    then show ?thesis using q(1) at_phase_Status [OF q(1)]
      by (auto simp: finalStatus_def closed_error_def)
  qed
qed

lemma getNextActivity_Some:
  assumes "getNextActivity act info n = Some c"
  shows "c = n \<and> c \<in> set (case NextActivities info of None \<Rightarrow> [] | Some ns \<Rightarrow> ns) \<and> act c \<noteq> None"
proof -
  have nx: "nextLoop act ns n = Some c \<Longrightarrow> c = n \<and> c \<in> set ns \<and> act c \<noteq> None" for ns
    by (induction act ns n rule: nextLoop.induct) (auto split: if_splits option.splits)
  show ?thesis by (rule nx [OF assms [unfolded getNextActivity_def]])
qed

definition between :: "event list \<Rightarrow> graph \<Rightarrow> ('p, 'f, 'c, 'w) wstate \<Rightarrow> bool" where
  "between h0 G s \<longleftrightarrow> (\<exists>q x. at_phase h0 G q s \<and> idle G q = Some x)"

lemma betweenI: "at_phase h0 G q s \<Longrightarrow> idle G q = Some x \<Longrightarrow> between h0 G s"
  by (auto simp: between_def)

lemma between_completed:
  assumes "between h0 G s" and "attr_ok G attr"
  shows "at_phase h0 G (Closed StatusCompleted) (finalStatus k attr StatusCompleted s)"
proof -
  obtain q l st where q: "at_phase h0 G q s" "idle G q = Some (l, st)"
    using assms(1) by (auto simp: between_def)
  have "st \<in> {StatusPending, StatusExecuting, StatusAwaitingApproval}"
    by (rule idle_ok [OF q(2) at_phase_ok [OF q(1)]])
  then have "Status (wf s) \<noteq> StatusFailed \<and> Status (wf s) \<noteq> StatusRejected"
    using at_phase_Status [OF q(1) idle_status [OF q(2)]] by auto
  then show ?thesis
    using q assms(2) at_phase_status [OF q(1), of StatusCompleted "Closed StatusCompleted" attr k]
    by (auto simp: finalStatus_def)
qed

lemma between_times [simp]:
  "between h0 G (s\<lparr>wf := (wf s)\<lparr>CompletedAt := t\<rparr>\<rparr>) = between h0 G s"
  by (simp add: between_def)

definition executed ::
    "event list \<Rightarrow> graph \<Rightarrow> err \<times> 'd option \<Rightarrow> ('p, 'f, 'c, 'w) wstate \<Rightarrow> bool" where
  "executed h0 G r s \<longleftrightarrow> (case fst r of None \<Rightarrow> between h0 G s | Some _ \<Rightarrow> closed_error h0 G s)"

lemma executed_simps [simp]:
  "executed h0 G (None, d) s = between h0 G s"
  "executed h0 G (Some e, d) s = closed_error h0 G s"
  by (simp_all add: executed_def)

lemma executeLoop_phase:
  assumes "at_phase h0 G p s" and "idle G p = Some (l, st)"
    and "\<And>c. cur = Some c \<Longrightarrow> follows G l c" and "attr_ok G attr"
  shows "post (executeLoop fuel k D attr cur data s) (executed h0 G) (rests h0 G) (between h0 G)"
  using assms
proof (induction fuel k D attr cur data s arbitrary: p l st rule: executeLoop.induct)
  case (1 fuel k D attr data s)
  then show ?case by (auto intro: betweenI)
next
  case (2 k D attr c data s)
  then show ?case by (auto intro: betweenI)
next
  case (3 fuel k D attr c data s)
  have run: "post (runActivity k D c data s) (called h0 G (finished G c)) (rests h0 G) (between h0 G)"
    by (rule post_mono [OF runActivity_phase [OF "3.prems"(1,2) "3.prems"(3) [OF refl]]]) auto
  show ?case
    unfolding executeLoop.simps
  proof (rule post_seq_eq [OF run], goal_cases)
    case ran: (1 r s1)
    obtain e d where r: "r = (e, d)" by (cases r)
    show ?case
    proof (cases e)
      case (Some x)
      with ran r fails_closed [of h0 G s1 attr k] "3.prems"(4) show ?thesis by simp
    next
      case None
      with ran r obtain q st' where q: "at_phase h0 G q s1" "idle G q = Some (Some c, st')"
        by (auto elim!: called_NoneE simp: finished_def)
      have next_ok: "follows G (Some c) c'"
        if "getNextActivity (activity (wf s1)) (deref s1 c) n = Some c'" for n c'
        using getNextActivity_Some [OF that] at_phase_fields(2) [OF q(1), of c] by auto
      have cont: "post (executeLoop fuel k D attr
            (getNextActivity (activity (wf s1)) (deref s1 c) (GetActivity D x)) (Some x) s1)
          (executed h0 G) (rests h0 G) (between h0 G)"
        if "d = Some x" "GetActivity D x \<noteq> ''''" "NextActivities (deref s1 c) \<noteq> None" for x
        using "3.IH" [OF ran(1) r [symmetric] None that(3,1,2) q next_ok "3.prems"(4)] that(1) by simp
      show ?thesis
        using q r None by (auto split: option.splits intro: betweenI cont)
    qed
  qed
qed

lemma statusSearchAttribute_ok:
  "attr_ok (graph_of w) (statusSearchAttribute order (activity w))"
proof (induction order "activity w" rule: statusSearchAttribute.induct)
  case (2 n order)
  have "\<exists>m. StatusSearchAttribute r = g_attr (graph_of w) m"
    if "activity w n = Some info" "Resumable info = Some r" for info r
    using that
    by (auto simp: graph_of_def graph_of_activities_def infoAt_def resumableOptionsOf_def Let_def
        intro!: exI [of _ n])
  with 2 show ?case by (fastforce simp: attr_ok_def split: option.splits)
qed (simp add: attr_ok_def)

text \<open>
  \<open>Execute\<close>: with nil it has completed; with an error it has failed or was rejected,
  or it never got past reporting \<open>PENDING\<close> and registering the status query.
\<close>

lemma Execute_phase:
  fixes s :: "('p, 'f, 'c, 'w) wstate"
  defines "G \<equiv> graph_of (wf s)" and "h0 \<equiv> history s"
  shows "post (Execute order fuel k D data s)
     (\<lambda>r s'. if fst r = None then at_phase h0 G (Closed StatusCompleted) s'
             else closed_error h0 G s' \<or> at_phase h0 G Starting s' \<or> at_phase h0 G Ready s')
     (rests h0 G) (between h0 G)"
proof -
  define s1 where "s1 = s\<lparr>wf := (wf s)\<lparr>StartedAt := Some (time_Now k (world s))\<rparr>\<rparr>"
  define attr where "attr = statusSearchAttribute order (activity (wf s1))"
  obtain e2 s2 where s2: "setExecutionStatus k StatusPending attr s1 = (e2, s2)" by fastforce
  obtain e3 s3 where s3: "registerStatusQuery k s2 = (e3, s3)" by fastforce
  have attr: "attr_ok G attr"
    unfolding attr_def G_def by (simp add: statusSearchAttribute_ok s1_def)
  have p1: "at_phase h0 G Created s1"
    unfolding s1_def G_def h0_def by (simp add: at_phase_start)
  have p2: "at_phase h0 G Starting s2"
    using at_phase_status [OF p1, of StatusPending Starting attr k] s2 attr by auto
  have p3: "at_phase h0 G Ready s3"
    using s3 p2 by (auto simp: registerStatusQuery_def split: prod.splits intro!: at_phase_emit)
  have first: "follows G None c" if "lookupActivity (wf s) (firstActivity (wf s)) = Some c" for c
    using that by (auto simp: lookupActivity_def G_def graph_of_def graph_of_activities_def
        split: option.splits)
  note loop = executeLoop_phase [OF p3 idle.simps(1) first attr]
  show ?thesis
    unfolding Execute_def Let_def s1_def [symmetric] attr_def [symmetric] s2 prod.case s3
    using p2 p3 attr
    by (auto split: option.splits intro!: post_seq [OF loop] between_completed)
qed

end
