(* ===== verification/Temporal_Stable.thy ===== *)
theory Temporal_Stable
  imports Temporal_Workflow
begin

text \<open>
  Facts that every operation of the workflow code keeps, whatever the SDK does. The
  locale asks for the few primitive changes of the state and gives the fact for
  \<open>Execute\<close>; it is interpreted for the frame of the receiver (which fields never
  change), for the history (nothing done is undone) and, in \<open>Temporal_Graph\<close>, for
  the well-formedness of the activity graph.
\<close>

locale stable =
  fixes R :: "('p, 'f, 'c, 'w) wstate \<Rightarrow> ('p, 'f, 'c, 'w) wstate \<Rightarrow> bool"
  assumes R_refl: "R s s"
    and R_trans: "R s t \<Longrightarrow> R t u \<Longrightarrow> R s u"
    and R_emit: "R s (emit e s)"
    and R_world: "R s (s\<lparr>world := w'\<rparr>)"
    and R_Status: "R s (s\<lparr>wf := (wf s)\<lparr>Status := st\<rparr>\<rparr>)"
    and R_StartedAt: "R s (s\<lparr>wf := (wf s)\<lparr>StartedAt := t0\<rparr>\<rparr>)"
    and R_CompletedAt: "R s (s\<lparr>wf := (wf s)\<lparr>CompletedAt := t0\<rparr>\<rparr>)"
    and R_setResumable: "R s (setResumable c (resumableOptionsOf (deref s c)) s)"
begin

abbreviation keeps :: "('p, 'f, 'c, 'w) wstate \<Rightarrow> ('a, ('p, 'f, 'c, 'w) wstate) outcome \<Rightarrow> bool" where
  "keeps s m \<equiv> post m (\<lambda>_. R s) (R s) (R s)"

lemma keeps_seq:
  assumes "keeps s m" and "\<And>a t. R s t \<Longrightarrow> keeps t (f a t)"
  shows "keeps s (and_then m f)"
proof (rule post_seq [OF assms(1)])
  fix a t
  assume st: "R s t"
  show "keeps s (f a t)"
    by (rule post_mono [OF assms(2) [OF st]]) (use st R_trans in blast)+
qed

lemma keeps_after: "R s t \<Longrightarrow> keeps t m \<Longrightarrow> keeps s m"
  by (rule post_mono) (use R_trans in blast)+

lemma emit_world: "R s (emit e (s\<lparr>world := w'\<rparr>))"
  using R_trans R_world R_emit by blast

lemma world_emit: "R s ((emit e s)\<lparr>world := w'\<rparr>)"
  using R_trans R_world R_emit by blast

lemma emit_world_emit: "R s (emit e' ((emit e s)\<lparr>world := w'\<rparr>))"
  using R_trans world_emit R_emit by blast

lemma setExecutionStatus_R: "R s (snd (setExecutionStatus k st attr s))"
proof -
  have "R s (emit (EvStatus st) (s\<lparr>wf := (wf s)\<lparr>Status := st\<rparr>\<rparr>))"
    using R_trans R_Status R_emit by blast
  then show ?thesis
    by (auto simp: setExecutionStatus_def Let_def split: prod.splits intro: R_trans emit_world)
qed

lemma callActivity_R: "keeps s (callActivity k opts c data s)"
  by (simp add: callActivity_def R_emit emit_world split: future.splits)

lemma waitForSignalPayload_R: "keeps s (waitForSignalPayload k ch t s)"
  by (simp add: waitForSignalPayload_def Let_def R_emit world_emit emit_world_emit
      split: timed_await.splits await.splits)

lemma receiveApproval_R: "keeps s (receiveApproval k n opts s)"
  by (auto simp: receiveApproval_def Let_def R_emit world_emit emit_world_emit
      intro: R_trans [OF world_emit setExecutionStatus_R] split: timed_await.splits await.splits)

lemma waitForApproval_R: "keeps s (waitForApproval k n opts s)"
  unfolding waitForApproval_def Let_def
  by (rule keeps_after [OF setExecutionStatus_R], rule keeps_seq [OF receiveApproval_R])
    (auto simp: R_refl setExecutionStatus_R split: sum.splits)

lemma status_callActivity_R:
  "keeps s (callActivity k opts c data (snd (setExecutionStatus k st attr s)))"
  by (rule keeps_after [OF setExecutionStatus_R callActivity_R])

lemma correctionTurn_R: "keeps s (correctionTurn k D c actx opts data s)"
  unfolding correctionTurn_def Let_def
  by (rule keeps_after [OF setExecutionStatus_R], rule keeps_seq [OF waitForSignalPayload_R])
    (auto simp: R_refl setExecutionStatus_R split: sum.splits prod.splits option.splits
      intro!: keeps_seq [OF status_callActivity_R])

lemma correctionLoop_R: "keeps s (correctionLoop k D c actx opts count data s)"
proof (induction k D c actx opts count data s rule: correctionLoop.induct)
  case (1 k D c actx opts count data s)
  show ?case
    unfolding correctionLoop.simps [of k D c actx opts count data s]
  proof (rule post_seq_eq [OF correctionTurn_R], goal_cases)
    case turn: (1 t s1)
    show ?case
    proof (cases t)
      case (TurnFailed e d)
      show ?thesis
      proof (cases "count + 1 > MaxCorrectionAttempts opts")
        case True
        then show ?thesis
          using TurnFailed R_trans [OF turn(2) setExecutionStatus_R] by simp
      next
        case False
        then show ?thesis
          using TurnFailed keeps_after [OF turn(2) "1.IH" [OF turn(1) TurnFailed]] by simp
      qed
    qed (use turn in auto)
  qed
qed

lemma runResumableActivity_R: "keeps s (runResumableActivity k D c data s)"
  unfolding runResumableActivity_def Let_def
  by (rule keeps_after [OF R_setResumable], rule keeps_seq [OF correctionLoop_R])
    (auto simp: R_refl split: prod.splits option.splits intro!: keeps_seq [OF waitForApproval_R])

lemma runActivity_R: "keeps s (runActivity k D c data s)"
  unfolding runActivity_def Let_def
  by (auto simp: R_refl runResumableActivity_R split: prod.splits option.splits
      intro!: keeps_seq [OF callActivity_R])

lemma finalStatus_R: "R s (finalStatus k attr st s)"
  by (simp add: finalStatus_def R_refl setExecutionStatus_R)

lemma executeLoop_R: "keeps s (executeLoop fuel k D attr cur data s)"
proof (induction fuel k D attr cur data s rule: executeLoop.induct)
  case (3 fuel k D attr c data s)
  show ?case
    unfolding executeLoop.simps
  proof (rule post_seq_eq [OF runActivity_R], goal_cases)
    case ran: (1 r s1)
    obtain e d where r: "r = (e, d)" by (cases r)
    show ?case
    proof (cases e)
      case (Some x)
      then show ?thesis using r R_trans [OF ran(2) finalStatus_R] by simp
    next
      case None
      then show ?thesis using r ran(2) keeps_after [OF ran(2) "3.IH" [OF ran(1) r [symmetric] None]]
        by (auto split: option.splits)
    qed
  qed
qed (auto simp: R_refl)

theorem Execute_R: "keeps s (Execute order fuel k D data s)"
proof -
  let ?s1 = "s\<lparr>wf := (wf s)\<lparr>StartedAt := Some (time_Now k (world s))\<rparr>\<rparr>"
  let ?attr = "statusSearchAttribute order (activity (wf ?s1))"
  obtain e2 s2 where s2: "setExecutionStatus k StatusPending ?attr ?s1 = (e2, s2)" by fastforce
  obtain e3 s3 where s3: "registerStatusQuery k s2 = (e3, s3)" by fastforce
  have "R s (snd (setExecutionStatus k StatusPending ?attr ?s1))"
    by (rule R_trans [OF R_StartedAt setExecutionStatus_R])
  then have r2: "R s s2" by (simp only: s2 snd_conv)
  have r3: "R s s3"
    using s3 R_trans [OF r2 emit_world] by (auto simp: registerStatusQuery_def split: prod.splits)
  show ?thesis
    unfolding Execute_def Let_def s2 s3 prod.case
    using r2 r3
    by (auto split: option.splits intro!: keeps_seq [OF keeps_after [OF r3 executeLoop_R]]
        R_refl R_trans [OF R_CompletedAt finalStatus_R])
qed

end


section \<open>Two facts that hold of every operation\<close>

definition same_frame :: "('p, 'f, 'c, 'w) wstate \<Rightarrow> ('p, 'f, 'c, 'w) wstate \<Rightarrow> bool" where
  "same_frame s s' \<longleftrightarrow>
     WorkflowID (wf s') = WorkflowID (wf s) \<and> RunID (wf s') = RunID (wf s) \<and>
     ExecutionData (wf s') = ExecutionData (wf s) \<and> QueryType (wf s') = QueryType (wf s) \<and>
     firstActivity (wf s') = firstActivity (wf s) \<and> temporalClient (wf s') = temporalClient (wf s)"

definition extends :: "('p, 'f, 'c, 'w) wstate \<Rightarrow> ('p, 'f, 'c, 'w) wstate \<Rightarrow> bool" where
  "extends s s' \<longleftrightarrow> prefix (history s) (history s')"

interpretation frame: stable same_frame
  by unfold_locales (auto simp: same_frame_def setResumable_def emit_def)

interpretation growth: stable extends
  by unfold_locales (auto simp: extends_def setResumable_def)

end
