(* ===== verification/Temporal_Graph.thy ===== *)
theory Temporal_Graph
  imports Temporal_Refinement Temporal_Stable
begin

text \<open>
  The activity graph: what \<open>AddTransitionActivityWithOptions\<close> builds, the
  well-formedness it establishes and \<open>Execute\<close> keeps.
\<close>

section \<open>One registration\<close>

text \<open>The record a registration stores under its name.\<close>

definition registeredInfo ::
    "string \<Rightarrow> string \<Rightarrow> 'f option \<Rightarrow> ActivityOptions option \<Rightarrow> string list
       \<Rightarrow> 'f ActivityExecutionInfo" where
  "registeredInfo n sig fn opts nexts =
    \<lparr>ActivityName = n, SignalEvent = sig, ActivityFn = fn, ActivityOpts = opts,
     NextActivities = (if nexts = [] then None else Some nexts),
     Resumable = (if sig \<noteq> '''' then
       Some (withDefaults (zeroResumableOptions\<lparr>CorrectionSignal := sig\<rparr>)) else None)\<rparr>"

lemma addPlaceholders_lookup:
  "addPlaceholders ns act k =
     (case act k of Some info \<Rightarrow> Some info
      | None \<Rightarrow> if k \<in> set ns then Some placeholderInfo else None)"
  by (induction ns act rule: addPlaceholders.induct) (auto split: option.splits)

lemma AddTransition_activity:
  "activity (AddTransitionActivityWithOptions register n sig fn opts nexts w) k =
     (if k = n then Some (registeredInfo n sig fn opts nexts)
      else case activity w k of Some info \<Rightarrow> Some info
           | None \<Rightarrow> if k \<in> set nexts then Some placeholderInfo else None)"
  by (simp add: AddTransitionActivityWithOptions_def Let_def addPlaceholders_lookup
      registeredInfo_def)

lemma AddTransition_firstActivity:
  "firstActivity (AddTransitionActivityWithOptions register n sig fn opts nexts w) =
     (if activity w = Map.empty then n else firstActivity w)"
  by (simp add: AddTransitionActivityWithOptions_def Let_def)

lemma AddTransition_client:
  "temporalClient (AddTransitionActivityWithOptions register n sig fn opts nexts w) =
     register n fn (temporalClient w)"
  by (simp add: AddTransitionActivityWithOptions_def Let_def)

lemma AddTransition_activity_nonempty:
  "activity (AddTransitionActivityWithOptions register n sig fn opts nexts w) \<noteq> Map.empty"
proof
  assume "activity (AddTransitionActivityWithOptions register n sig fn opts nexts w) = Map.empty"
  from fun_cong [OF this, of n] show False by (simp add: AddTransition_activity)
qed

lemmas AddTransition_simps [simp] =
  AddTransition_activity AddTransition_firstActivity AddTransition_client
  AddTransition_activity_nonempty


section \<open>Well-formed graphs\<close>

text \<open>
  Every declared successor has a record; a record carries its own name unless it is
  a placeholder, which has no function, signal or successors; a gated record has
  options; stored options are normalised.
\<close>

definition node_ok :: "(string \<rightharpoonup> 'f ActivityExecutionInfo) \<Rightarrow> string \<Rightarrow> 'f ActivityExecutionInfo \<Rightarrow> bool" where
  "node_ok act n info \<longleftrightarrow>
     (case NextActivities info of None \<Rightarrow> True | Some ns \<Rightarrow> ns \<noteq> [] \<and> set ns \<subseteq> dom act) \<and>
     (ActivityName info = n \<or>
       ActivityName info = '''' \<and> ActivityFn info = None \<and> SignalEvent info = '''' \<and>
       NextActivities info = None) \<and>
     (SignalEvent info \<noteq> '''' \<longrightarrow> Resumable info \<noteq> None) \<and>
     (case Resumable info of None \<Rightarrow> True | Some r \<Rightarrow> withDefaults r = r)"

definition wf_graph :: "('p, 'f, 'c) WorkflowExecutionData \<Rightarrow> bool" where
  "wf_graph w \<longleftrightarrow>
     (activity w = Map.empty \<or> firstActivity w \<in> dom (activity w)) \<and>
     (\<forall>n info. activity w n = Some info \<longrightarrow> node_ok (activity w) n info)"

lemma node_ok_mono: "node_ok act n info \<Longrightarrow> dom act \<subseteq> dom act' \<Longrightarrow> node_ok act' n info"
  unfolding node_ok_def by (cases "NextActivities info") (simp, simp, meson subset_trans)

lemma node_ok_placeholder: "node_ok act n placeholderInfo"
  by (simp add: node_ok_def placeholderInfo_def)

lemma node_ok_registered:
  "set nexts \<subseteq> dom act \<Longrightarrow> node_ok act n (registeredInfo n sig fn opts nexts)"
  by (simp add: node_ok_def registeredInfo_def)

lemma wf_graph_new: "wf_graph (NewWorkflowExecution c)"
  by (simp add: wf_graph_def NewWorkflowExecution_def)

lemma wf_graph_AddTransition:
  assumes "wf_graph w"
  shows "wf_graph (AddTransitionActivityWithOptions register n sig fn opts nexts w)"
proof -
  let ?w = "AddTransitionActivityWithOptions register n sig fn opts nexts w"
  have dom: "dom (activity ?w) = insert n (dom (activity w) \<union> set nexts)"
    by (auto simp: dom_def split: option.splits if_splits)
  have "node_ok (activity ?w) m info" if "activity ?w m = Some info" for m info
  proof (cases "m = n")
    case True
    with that dom show ?thesis by (auto intro: node_ok_registered)
  next
    case False
    show ?thesis
    proof (cases "activity w m")
      case None
      with that False show ?thesis by (auto intro: node_ok_placeholder split: if_splits)
    next
      case (Some i)
      with that False have "i = info" by simp
      with Some assms have "node_ok (activity w) m info" by (auto simp: wf_graph_def)
      then show ?thesis by (rule node_ok_mono) (auto simp: dom)
    qed
  qed
  moreover have "firstActivity ?w \<in> dom (activity ?w)"
    using assms by (auto simp: dom wf_graph_def simp del: AddTransition_activity)
  ultimately show ?thesis by (simp add: wf_graph_def)
qed

lemma wf_graph_setResumable:
  assumes "wf_graph (wf s)" and "activity (wf s) \<noteq> Map.empty"
  shows "wf_graph (wf (setResumable c (resumableOptionsOf (deref s c)) s))"
proof -
  let ?opts = "resumableOptionsOf (deref s c)"
  have norm: "withDefaults ?opts = ?opts" by (simp add: resumableOptionsOf_def Let_def)
  have old: "node_ok (activity (wf s)) c (deref s c)"
    using assms by (auto simp: deref_def infoAt_def wf_graph_def node_ok_placeholder split: option.splits)
  have act: "activity (wf (setResumable c ?opts s)) =
      (activity (wf s))(c \<mapsto> (deref s c)\<lparr>Resumable := Some ?opts\<rparr>)"
    by (simp add: setResumable_def)
  have new: "node_ok (activity (wf (setResumable c ?opts s))) c ((deref s c)\<lparr>Resumable := Some ?opts\<rparr>)"
    using old norm by (auto simp: act node_ok_def split: option.splits)
  have others: "node_ok (activity (wf (setResumable c ?opts s))) m info"
    if "activity (wf s) m = Some info" for m info
  proof (rule node_ok_mono)
    show "node_ok (activity (wf s)) m info" using assms that by (auto simp: wf_graph_def)
    show "dom (activity (wf s)) \<subseteq> dom (activity (wf (setResumable c ?opts s)))"
      unfolding act by auto
  qed
  show ?thesis
    unfolding wf_graph_def using assms new others
    by (auto simp: act wf_graph_def setResumable_def split: if_splits)
qed

definition keeps_wf_graph :: "('p, 'f, 'c, 'w) wstate \<Rightarrow> ('p, 'f, 'c, 'w) wstate \<Rightarrow> bool" where
  "keeps_wf_graph s s' \<longleftrightarrow>
     (wf_graph (wf s) \<and> activity (wf s) \<noteq> Map.empty \<longrightarrow>
      wf_graph (wf s') \<and> activity (wf s') \<noteq> Map.empty)"

lemma setResumable_nonempty: "activity (wf (setResumable c opts s)) \<noteq> Map.empty"
  by (simp add: setResumable_def)

interpretation graph_inv: stable keeps_wf_graph
  by unfold_locales
    (auto simp: keeps_wf_graph_def wf_graph_setResumable setResumable_nonempty, auto simp: wf_graph_def)


section \<open>A sequence of registrations\<close>

record 'f registration =
  reg_name :: string
  reg_signal :: string
  reg_fn :: "'f option"
  reg_options :: "ActivityOptions option"
  reg_next :: "string list"

definition register_one ::
    "(string \<Rightarrow> 'f option \<Rightarrow> 'c \<Rightarrow> 'c) \<Rightarrow> 'f registration \<Rightarrow> ('p, 'f, 'c) WorkflowExecutionData
       \<Rightarrow> ('p, 'f, 'c) WorkflowExecutionData" where
  "register_one register r w = AddTransitionActivityWithOptions register (reg_name r) (reg_signal r)
     (reg_fn r) (reg_options r) (reg_next r) w"

definition register_all ::
    "(string \<Rightarrow> 'f option \<Rightarrow> 'c \<Rightarrow> 'c) \<Rightarrow> 'f registration list \<Rightarrow> ('p, 'f, 'c) WorkflowExecutionData
       \<Rightarrow> ('p, 'f, 'c) WorkflowExecutionData" where
  "register_all register rs w = fold (register_one register) rs w"

definition info_of_registration :: "'f registration \<Rightarrow> 'f ActivityExecutionInfo" where
  "info_of_registration r = registeredInfo (reg_name r) (reg_signal r) (reg_fn r) (reg_options r) (reg_next r)"

text \<open>What the finished graph holds: the last registration of a name, or a placeholder.\<close>

fun last_registration :: "'f registration list \<Rightarrow> string \<Rightarrow> 'f registration option" where
  "last_registration [] n = None"
| "last_registration (r # rs) n =
    (case last_registration rs n of Some r' \<Rightarrow> Some r' | None \<Rightarrow> if reg_name r = n then Some r else None)"

lemma register_all_activity:
  "activity (register_all register rs w) n =
     (case last_registration rs n of
        Some r \<Rightarrow> Some (info_of_registration r)
      | None \<Rightarrow> (case activity w n of Some info \<Rightarrow> Some info
                 | None \<Rightarrow> if \<exists>r \<in> set rs. n \<in> set (reg_next r) then Some placeholderInfo else None))"
  by (induction rs arbitrary: w)
    (auto simp: register_all_def register_one_def info_of_registration_def split: option.splits)

lemma register_all_wf: "wf_graph w \<Longrightarrow> wf_graph (register_all register rs w)"
  by (induction rs arbitrary: w)
    (simp_all add: register_all_def register_one_def wf_graph_AddTransition)

lemma register_all_first:
  "activity w = Map.empty \<Longrightarrow>
   firstActivity (register_all register rs w) =
     (case rs of [] \<Rightarrow> firstActivity w | r # _ \<Rightarrow> reg_name r)"
proof (cases rs)
  case (Cons r rs')
  have keep: "firstActivity (fold (register_one register) qs v) = firstActivity v"
    if "activity v \<noteq> Map.empty" for qs v
    using that by (induction qs arbitrary: v) (simp_all add: register_one_def)
  assume "activity w = Map.empty"
  with Cons show ?thesis
    using keep [of "register_one register r w" rs']
    by (simp add: register_all_def register_one_def)
qed (simp add: register_all_def)

lemma register_all_client:
  "temporalClient (register_all register rs w) =
     fold (\<lambda>r. register (reg_name r) (reg_fn r)) rs (temporalClient w)"
  by (induction rs arbitrary: w) (simp_all add: register_all_def register_one_def)

end
