(* ===== verification/Temporal_Budget.thy ===== *)
theory Temporal_Budget
  imports Temporal_Graph
begin

text \<open>
  How long the code runs: the number of attempts of one gated activity, the turns
  of \<open>Execute\<close> on an acyclic graph, and the independence of the result from the
  fuel once there is enough.
\<close>

section \<open>Attempts\<close>

text \<open>The number of activities run so far.\<close>

definition runs :: "('p, 'f, 'c, 'w) wstate \<Rightarrow> nat" where
  "runs s = length (activities (history s))"

lemma runs_emit [simp]: "runs (emit e s) = runs s + length (activities [e])"
  by (simp add: runs_def)

lemma runs_world [simp]: "runs (s\<lparr>world := w'\<rparr>) = runs s"
  by (simp add: runs_def)

lemma runs_setResumable [simp]: "runs (setResumable c opts s) = runs s"
  by (simp add: runs_def setResumable_def)

lemma runs_setExecutionStatus [simp]: "runs (snd (setExecutionStatus k st attr s)) = runs s"
  by (simp add: setExecutionStatus_def Let_def runs_def split: prod.splits)

lemma Status_setExecutionStatus [simp]:
  "Status (wf (snd (setExecutionStatus k st attr s))) = st"
  by (simp add: setExecutionStatus_def Let_def split: prod.splits)

lemma deref_setExecutionStatus [simp]:
  "deref (snd (setExecutionStatus k st attr s)) c = deref s c"
  by (simp add: setExecutionStatus_def Let_def deref_def split: prod.splits)

lemma callActivity_runs:
  "post (callActivity k opts c data s) (\<lambda>_ s'. runs s' = runs s + 1) (\<lambda>s'. runs s' = runs s + 1)
     (\<lambda>_. False)"
  by (auto simp: callActivity_def split: future.splits)

lemma waitForSignalPayload_runs:
  "post (waitForSignalPayload k ch t s) (\<lambda>_ s'. runs s' = runs s) (\<lambda>s'. runs s' = runs s) (\<lambda>_. False)"
  by (auto simp: waitForSignalPayload_def Let_def split: timed_await.splits await.splits)

lemma receiveApproval_runs:
  "post (receiveApproval k n opts s) (\<lambda>_ s'. runs s' = runs s) (\<lambda>s'. runs s' = runs s) (\<lambda>_. False)"
  by (auto simp: receiveApproval_def Let_def split: timed_await.splits await.splits)

lemma waitForApproval_runs:
  "post (waitForApproval k n opts s) (\<lambda>_ s'. runs s' = runs s) (\<lambda>s'. runs s' = runs s) (\<lambda>_. False)"
  unfolding waitForApproval_def Let_def
  by (rule post_seq [OF post_mono [OF receiveApproval_runs]]) (auto split: sum.splits)

lemma correctionTurn_runs:
  "post (correctionTurn k D c actx opts data s)
     (\<lambda>t s'. runs s' \<le> runs s + 1) (\<lambda>s'. runs s' \<le> runs s + 1) (\<lambda>_. False)"
proof -
  have call: "post (callActivity k o1 c d t)
      (\<lambda>_ s'. runs s' \<le> Suc (runs s)) (\<lambda>s'. runs s' \<le> Suc (runs s)) (\<lambda>_. False)"
    if "runs t = runs s" for o1 d t
    by (rule post_mono [OF callActivity_runs]) (use that in auto)
  show ?thesis
    unfolding correctionTurn_def Let_def
    by (rule post_seq [OF post_mono [OF waitForSignalPayload_runs]])
      (auto split: sum.splits prod.splits option.splits
        intro!: post_seq [OF call])
qed

lemma correctionLoop_runs:
  "count \<le> MaxCorrectionAttempts opts \<Longrightarrow>
   post (correctionLoop k D c actx opts count data s)
     (\<lambda>_ s'. runs s' \<le> runs s + nat (MaxCorrectionAttempts opts - count) + 1)
     (\<lambda>s'. runs s' \<le> runs s + nat (MaxCorrectionAttempts opts - count) + 1) (\<lambda>_. False)"
proof (induction k D c actx opts count data s rule: correctionLoop.induct)
  case (1 k D c actx opts count data s)
  let ?n = "nat (MaxCorrectionAttempts opts - count)"
  have turn: "post (correctionTurn k D c actx opts data s)
      (\<lambda>t s'. runs s' \<le> runs s + 1) (\<lambda>s'. runs s' \<le> runs s + ?n + 1) (\<lambda>_. False)"
    by (rule post_mono [OF correctionTurn_runs]) auto
  show ?case
    unfolding correctionLoop.simps [of k D c actx opts count data s]
  proof (rule post_seq_eq [OF turn], goal_cases)
    case ran: (1 t s1)
    show ?case
    proof (cases "(\<exists>e d. t = TurnFailed e d) \<and> count + 1 \<le> MaxCorrectionAttempts opts")
      case True
      then obtain e d where t: "t = TurnFailed e d" and more: "count + 1 \<le> MaxCorrectionAttempts opts"
        by blast
      from more have "?n = nat (MaxCorrectionAttempts opts - (count + 1)) + 1" by simp
      with more t ran show ?thesis
        by (auto intro: post_mono [OF "1.IH" [OF ran(1) t]])
    next
      case False
      with ran show ?thesis by (auto split: turn.splits)
    qed
  qed
qed

lemma resumableOptionsOf_max: "0 < MaxCorrectionAttempts (resumableOptionsOf info)"
  by (simp add: resumableOptionsOf_def Let_def)

lemma runResumableActivity_runs:
  "post (runResumableActivity k D c data s)
     (\<lambda>_ s'. runs s' \<le> runs s + nat (MaxCorrectionAttempts (resumableOptionsOf (deref s c))) + 1)
     (\<lambda>s'. runs s' \<le> runs s + nat (MaxCorrectionAttempts (resumableOptionsOf (deref s c))) + 1)
     (\<lambda>_. False)"
proof -
  let ?opts = "resumableOptionsOf (deref s c)"
  let ?Q = "\<lambda>s'. runs s' \<le> runs s + nat (MaxCorrectionAttempts ?opts) + 1"
  have loop: "post (correctionLoop k D c actx ?opts 0 data (setResumable c ?opts s))
      (\<lambda>_. ?Q) ?Q (\<lambda>_. False)" for actx
    by (rule post_mono [OF correctionLoop_runs]) (use resumableOptionsOf_max [of "deref s c"] in auto)
  have approval: "post (waitForApproval k n ?opts t)
      (\<lambda>_ s'. runs s' \<le> Suc (runs s + nat (MaxCorrectionAttempts ?opts)))
      (\<lambda>s'. runs s' \<le> Suc (runs s + nat (MaxCorrectionAttempts ?opts))) (\<lambda>_. False)"
    if "runs t \<le> Suc (runs s + nat (MaxCorrectionAttempts ?opts))" for t n
    by (rule post_mono [OF waitForApproval_runs]) (use that in auto)
  show ?thesis
    unfolding runResumableActivity_def Let_def
    by (rule post_seq [OF loop])
      (auto split: option.splits prod.splits intro!: post_seq [OF approval])
qed


section \<open>Enough fuel\<close>

definition same_graph :: "('p, 'f, 'c, 'w) wstate \<Rightarrow> ('p, 'f, 'c, 'w) wstate \<Rightarrow> bool" where
  "same_graph s s' \<longleftrightarrow> graph_of (wf s') = graph_of (wf s)"

lemma graph_of_setResumable:
  "graph_of (wf (setResumable c (resumableOptionsOf (deref s c)) s)) = graph_of (wf s)"
  using at_phase_setResumable [OF at_phase_start [OF refl], of s c] by (rule at_phase_graph)

interpretation graph_frame: stable same_graph
  by unfold_locales (simp_all add: same_graph_def graph_of_setResumable, simp_all add: graph_of_def)

text \<open>No operation below the loop of \<open>Execute\<close> needs fuel.\<close>

abbreviation total :: "('a, 's) outcome \<Rightarrow> bool" where
  "total m \<equiv> post m (\<lambda>_ _. True) (\<lambda>_. True) (\<lambda>_. False)"

lemma runActivity_total: "total (runActivity k D c data s)"
proof -
  have call: "total (callActivity k o1 c d t)" for o1 d t
    by (simp add: callActivity_def split: future.splits)
  have "total (runResumableActivity k D c data s)"
    by (rule post_mono [OF runResumableActivity_runs]) auto
  then show ?thesis
    by (auto simp: runActivity_def Let_def split: option.splits intro!: post_seq [OF call])
qed

text \<open>A rank that decreases along the edges: the graph has no cycle.\<close>

definition ranked :: "(string \<Rightarrow> nat) \<Rightarrow> graph \<Rightarrow> bool" where
  "ranked rk G \<longleftrightarrow> (\<forall>c. \<forall>n \<in> set (g_next G c). rk n < rk c)"

lemma executeLoop_ranked:
  assumes "ranked rk (graph_of (wf s))" and "\<And>c. cur = Some c \<Longrightarrow> rk c < fuel"
  shows "total (executeLoop fuel k D attr cur data s)"
  using assms
proof (induction fuel k D attr cur data s rule: executeLoop.induct)
  case (3 fuel k D attr c data s)
  have run: "post (runActivity k D c data s) (\<lambda>_. same_graph s) (\<lambda>_. True) (\<lambda>_. False)"
    by (rule post_mono [OF post_conj [OF runActivity_total graph_frame.runActivity_R]]) auto
  show ?case
    unfolding executeLoop.simps
  proof (rule post_seq_eq [OF run], goal_cases)
    case ran: (1 r s1)
    obtain e d where r: "r = (e, d)" by (cases r)
    have G: "graph_of (wf s1) = graph_of (wf s)" using ran(2) by (simp add: same_graph_def)
    have "rk c' < fuel" if "getNextActivity (activity (wf s1)) (deref s1 c) n = Some c'" for c' n
    proof -
      have "c' \<in> set (g_next (graph_of (wf s)) c)"
        using getNextActivity_Some [OF that] at_phase_fields(2) [OF at_phase_start [OF G], of c]
        by auto
      then show ?thesis using "3.prems" by (fastforce simp: ranked_def)
    qed
    then show ?case
      using r "3.IH" [OF ran(1) r [symmetric]] "3.prems"(1) G by (auto split: option.splits)
  qed
qed simp_all

lemma Execute_total:
  fixes s :: "('p, 'f, 'c, 'w) wstate"
  assumes "\<And>cur attr (t :: ('p, 'f, 'c, 'w) wstate). graph_of (wf t) = graph_of (wf s) \<Longrightarrow>
      cur = lookupActivity (wf s) (firstActivity (wf s)) \<Longrightarrow>
      total (executeLoop fuel k D attr cur data t)"
  shows "total (Execute order fuel k D data s)"
proof -
  let ?s1 = "s\<lparr>wf := (wf s)\<lparr>StartedAt := Some (time_Now k (world s))\<rparr>\<rparr>"
  let ?attr = "statusSearchAttribute order (activity (wf ?s1))"
  obtain e2 s2 where s2: "setExecutionStatus k StatusPending ?attr ?s1 = (e2, s2)" by fastforce
  obtain e3 s3 where s3: "registerStatusQuery k s2 = (e3, s3)" by fastforce
  have "wf s3 = wf s2" using s3 by (auto simp: registerStatusQuery_def split: prod.splits)
  moreover have "graph_of (wf s2) = graph_of (wf s)"
    using s2 by (auto simp: setExecutionStatus_def Let_def graph_of_def split: prod.splits if_splits)
  ultimately have "total (executeLoop fuel k D ?attr
      (lookupActivity (wf s) (firstActivity (wf s))) data s3)"
    using assms by simp
  then show ?thesis
    unfolding Execute_def Let_def s2 s3 prod.case
    by (auto split: option.splits intro!: post_seq)
qed

lemma Execute_ranked:
  assumes "ranked rk (graph_of (wf s))" and "rk (firstActivity (wf s)) < fuel"
  shows "total (Execute order fuel k D data s)"
  by (rule Execute_total, rule executeLoop_ranked [where rk = rk])
    (use assms in \<open>auto simp: lookupActivity_def split: option.splits\<close>)


section \<open>More fuel changes nothing\<close>

lemma executeLoop_more:
  "\<forall>t. executeLoop fuel k D attr cur data s \<noteq> Running t \<Longrightarrow>
   executeLoop (fuel + n) k D attr cur data s = executeLoop fuel k D attr cur data s"
proof (induction fuel k D attr cur data s rule: executeLoop.induct)
  case (1 fuel k D attr data s)
  then show ?case by (cases "fuel + n") auto
next
  case (2 k D attr c data s)
  then show ?case by simp
next
  case (3 fuel k D attr c data s)
  show ?case
  proof (cases "runActivity k D c data s")
    case (Return r s1)
    obtain e d where r: "r = (e, d)" by (cases r)
    show ?thesis
      using "3.prems" "3.IH" [OF Return r [symmetric]] Return r
      by (auto split: option.splits)
  qed simp_all
qed

lemma Execute_more:
  assumes "\<forall>t. Execute order fuel k D data s \<noteq> Running t"
  shows "Execute order (fuel + n) k D data s = Execute order fuel k D data s"
proof -
  let ?s1 = "s\<lparr>wf := (wf s)\<lparr>StartedAt := Some (time_Now k (world s))\<rparr>\<rparr>"
  let ?attr = "statusSearchAttribute order (activity (wf ?s1))"
  let ?cur = "lookupActivity (wf s) (firstActivity (wf s))"
  obtain e2 s2 where s2: "setExecutionStatus k StatusPending ?attr ?s1 = (e2, s2)" by fastforce
  obtain e3 s3 where s3: "registerStatusQuery k s2 = (e3, s3)" by fastforce
  show ?thesis
  proof (cases "e2 = None \<and> e3 = None")
    case True
    with assms have "\<forall>t. executeLoop fuel k D ?attr ?cur data s3 \<noteq> Running t"
      unfolding Execute_def Let_def s2 s3 prod.case by auto
    then have "executeLoop (fuel + n) k D ?attr ?cur data s3 = executeLoop fuel k D ?attr ?cur data s3"
      by (rule executeLoop_more)
    with True show ?thesis unfolding Execute_def Let_def s2 s3 prod.case by simp
  next
    case False
    then show ?thesis unfolding Execute_def Let_def s2 s3 prod.case by (auto split: option.splits)
  qed
qed

end
