(* ===== verification/Temporal_Progress.thy ===== *)
theory Temporal_Progress
  imports Temporal_Budget
begin

text \<open>
  What the pipeline achieves when the outside world answers: the retry budget of a
  gated activity is exact, and on a graph without cycles a workflow whose activities
  succeed completes.
\<close>

section \<open>An environment that answers\<close>

text \<open>A payload that \<open>correctionTurn\<close> can apply.\<close>

definition usable :: "('d, 'f, 'v, 'w) sdk \<Rightarrow> 'd ExecutionDataOps \<Rightarrow> 'v payload \<Rightarrow> bool" where
  "usable k D p \<longleftrightarrow> (\<exists>b. encodeCorrection k p = Inr b \<and>
     (b = '''' \<or> b = ''null'' \<or> (\<forall>d. fst (Unmarshal D b d) = None)))"

text \<open>
  Every wait is answered with a usable payload. \<open>left\<close> counts the runs of activities
  that still fail, each with \<open>e\<close>; nothing else changes it.
\<close>

definition answering ::
    "('d, 'f, 'v, 'w) sdk \<Rightarrow> 'd ExecutionDataOps \<Rightarrow> ('w \<Rightarrow> nat) \<Rightarrow> go_error \<Rightarrow> bool" where
  "answering k D left e \<longleftrightarrow>
     (\<forall>ch w. \<exists>p w'. Await k ch w = AwaitReceived p w' \<and> usable k D p \<and> left w' = left w) \<and>
     (\<forall>ch t w. \<exists>p w'. AwaitWithTimeout k ch t w = TimedReceived p w' \<and> usable k D p \<and> left w' = left w) \<and>
     (\<forall>a st w. left (snd (UpsertSearchAttributes k a st w)) = left w) \<and>
     (\<forall>opts f d w. \<exists>upd w'. ExecuteActivity k opts f d w =
        FutureGet (if left w = 0 then None else Some e) upd w' \<and> left w' = left w - 1)"

lemma answering_status:
  "answering k D left e \<Longrightarrow> left (world (snd (setExecutionStatus k st attr s))) = left (world s)"
  by (simp add: answering_def setExecutionStatus_def Let_def case_prod_beta)

lemma activities_status [simp]:
  "activities (history (snd (setExecutionStatus k st attr s))) = activities (history s)"
  by (simp add: setExecutionStatus_def Let_def case_prod_beta)

lemma answering_wait:
  assumes "answering k D left e"
  obtains b s' where "waitForSignalPayload k ch t s = Return (Inr b) s'"
    and "b = '''' \<or> b = ''null'' \<or> (\<forall>d. fst (Unmarshal D b d) = None)"
    and "left (world s') = left (world s)" and "wf s' = wf s"
    and "activities (history s') = activities (history s)"
proof (cases "t > 0")
  case True
  obtain p w' where "AwaitWithTimeout k ch t (world s) = TimedReceived p w'" "usable k D p"
    "left w' = left (world s)"
    using assms unfolding answering_def by blast
  with True that show ?thesis by (auto simp: waitForSignalPayload_def Let_def usable_def)
next
  case False
  obtain p w' where "Await k ch (world s) = AwaitReceived p w'" "usable k D p" "left w' = left (world s)"
    using assms unfolding answering_def by blast
  with False that show ?thesis by (auto simp: waitForSignalPayload_def Let_def usable_def)
qed

lemma answering_call:
  assumes "answering k D left e"
  obtains d' s' where "callActivity k opts c (Some d) s =
      Return (if left (world s) = 0 then None else Some e, Some d') s'"
    and "left (world s') = left (world s) - 1" and "wf s' = wf s"
    and "activities (history s') = activities (history s) @ [c]"
proof -
  obtain upd w' where "ExecuteActivity k opts (ActivityFn (deref s c)) (Some d) (world s) =
      FutureGet (if left (world s) = 0 then None else Some e) upd w'" "left w' = left (world s) - 1"
    using assms unfolding answering_def by blast
  with that show ?thesis by (simp add: callActivity_def)
qed


section \<open>One turn and the loop\<close>

lemma answering_turn:
  assumes "answering k D left e"
  obtains d' s' where "correctionTurn k D c actx opts (Some d) s =
      Return (if left (world s) = 0 then TurnBreak (Some d') else TurnFailed e (Some d')) s'"
    and "left (world s') = left (world s) - 1" and "deref s' c = deref s c"
    and "activities (history s') = activities (history s) @ [c]" and "Status (wf s') = StatusExecuting"
proof -
  let ?attr = "StatusSearchAttribute opts"
  let ?s1 = "snd (setExecutionStatus k StatusAwaitingCorrection ?attr s)"
  obtain b s2 where s2: "waitForSignalPayload k (SignalEvent (deref s c)) (WaitTimeout opts) ?s1 = Return (Inr b) s2"
    "b = '''' \<or> b = ''null'' \<or> (\<forall>d. fst (Unmarshal D b d) = None)"
    "left (world s2) = left (world s)" "wf s2 = wf ?s1" "activities (history s2) = activities (history s)"
    using answering_wait [OF assms, of "SignalEvent (deref s c)" "WaitTimeout opts" ?s1]
    by (metis answering_status [OF assms] activities_status)
  obtain d1 where d1: "(if 0 < length b \<and> b \<noteq> ''null'' then applyCorrection D (Some d) b else (None, Some d)) =
      (None, Some d1)"
  proof (cases "0 < length b \<and> b \<noteq> ''null''")
    case True
    obtain x d1 where u: "Unmarshal D b d = (x, d1)" by fastforce
    from s2(2) True have "fst (Unmarshal D b d) = None" by auto
    with u have "applyCorrection D (Some d) b = (None, Some d1)" by (simp add: applyCorrection_def)
    with True that show ?thesis by simp
  next
    case False
    then show ?thesis using that by auto
  qed
  let ?s3 = "snd (setExecutionStatus k StatusExecuting ?attr s2)"
  have w3: "left (world ?s3) = left (world s)" "activities (history ?s3) = activities (history s)"
    by (simp_all add: s2(3,5) answering_status [OF assms])
  obtain d2 s4 where s4': "callActivity k (Some actx) c (Some d1) ?s3 =
      Return (if left (world ?s3) = 0 then None else Some e, Some d2) s4"
    "left (world s4) = left (world ?s3) - 1" "wf s4 = wf ?s3"
    "activities (history s4) = activities (history ?s3) @ [c]"
    by (rule answering_call [OF assms])
  note s4 = s4' [unfolded w3]
  have "deref s4 c = deref ?s3 c" using s4(3) by (simp add: deref_def)
  also have "\<dots> = deref s2 c" by simp
  also have "\<dots> = deref ?s1 c" using s2(4) by (simp add: deref_def)
  finally have same: "deref s4 c = deref s c" by simp
  have turn: "correctionTurn k D c actx opts (Some d) s =
      Return (if left (world s) = 0 then TurnBreak (Some d2) else TurnFailed e (Some d2)) s4"
    unfolding correctionTurn_def Let_def s2(1) and_then.simps sum.case d1 prod.case option.case s4(1)
    by simp
  show ?thesis by (rule that [OF turn s4(2) same s4(4)]) (simp add: s4(3))
qed

lemma loop_turns:
  "correctionTurn k D c actx opts data s = Return (TurnBreak d') s1 \<Longrightarrow>
     correctionLoop k D c actx opts count data s = Return (None, d') s1"
  "correctionTurn k D c actx opts data s = Return (TurnFailed e d') s1 \<Longrightarrow>
     count + 1 \<le> MaxCorrectionAttempts opts \<Longrightarrow>
     correctionLoop k D c actx opts count data s = correctionLoop k D c actx opts (count + 1) d' s1"
  "correctionTurn k D c actx opts data s = Return (TurnFailed e d') s1 \<Longrightarrow>
     count + 1 > MaxCorrectionAttempts opts \<Longrightarrow>
     correctionLoop k D c actx opts count data s =
       Return (Some (Wrapf (''activity '' @ ActivityName (deref s1 c) @ '' failed after '' @
         int_text (MaxCorrectionAttempts opts) @ '' correction attempts: '') e), d')
         (snd (setExecutionStatus k StatusFailed (StatusSearchAttribute opts) s1))"
  by (simp_all add: correctionLoop.simps [of k D c actx opts count data s])

lemma answering_loop:
  assumes "answering k D left e" and "count \<le> MaxCorrectionAttempts opts"
  shows "\<exists>d' s'. activities (history s') = activities (history s) @
        replicate (min (left (world s)) (nat (MaxCorrectionAttempts opts - count)) + 1) c \<and>
      deref s' c = deref s c \<and>
      (if int (left (world s)) \<le> MaxCorrectionAttempts opts - count
       then correctionLoop k D c actx opts count (Some d) s = Return (None, Some d') s' \<and>
         left (world s') = 0 \<and> Status (wf s') = StatusExecuting
       else correctionLoop k D c actx opts count (Some d) s =
         Return (Some (Wrapf (''activity '' @ ActivityName (deref s c) @ '' failed after '' @
           int_text (MaxCorrectionAttempts opts) @ '' correction attempts: '') e), Some d') s' \<and>
         Status (wf s') = StatusFailed)"
  using assms(2)
proof (induction "nat (MaxCorrectionAttempts opts - count)" arbitrary: count d s)
  case 0
  then have max: "count = MaxCorrectionAttempts opts" by simp
  obtain d' s1 where turn: "correctionTurn k D c actx opts (Some d) s =
      Return (if left (world s) = 0 then TurnBreak (Some d') else TurnFailed e (Some d')) s1"
    "left (world s1) = left (world s) - 1" "deref s1 c = deref s c"
    "activities (history s1) = activities (history s) @ [c]" "Status (wf s1) = StatusExecuting"
    using answering_turn [OF assms(1)] by blast
  show ?case
  proof (cases "left (world s) = 0")
    case True
    with turn max show ?thesis
      by (intro exI [of _ d'] exI [of _ s1]) (simp add: loop_turns)
  next
    case False
    let ?s2 = "snd (setExecutionStatus k StatusFailed (StatusSearchAttribute opts) s1)"
    from False turn max show ?thesis
      by (intro exI [of _ d'] exI [of _ ?s2]) (simp add: loop_turns)
  qed
next
  case (Suc n)
  from Suc.hyps(2) have less: "count + 1 \<le> MaxCorrectionAttempts opts" by simp
  have nats: "nat (MaxCorrectionAttempts opts - count) = Suc n"
    "nat (MaxCorrectionAttempts opts - (count + 1)) = n" using Suc.hyps(2) by simp_all
  obtain d' s1 where turn: "correctionTurn k D c actx opts (Some d) s =
      Return (if left (world s) = 0 then TurnBreak (Some d') else TurnFailed e (Some d')) s1"
    "left (world s1) = left (world s) - 1" "deref s1 c = deref s c"
    "activities (history s1) = activities (history s) @ [c]" "Status (wf s1) = StatusExecuting"
    using answering_turn [OF assms(1)] by blast
  show ?case
  proof (cases "left (world s) = 0")
    case True
    with turn less show ?thesis
      by (intro exI [of _ d'] exI [of _ s1]) (simp add: loop_turns)
  next
    case False
    then obtain m where m: "left (world s) = Suc m" by (cases "left (world s)") auto
    have loop: "correctionLoop k D c actx opts count (Some d) s =
        correctionLoop k D c actx opts (count + 1) (Some d') s1"
      using turn(1) False less by (simp add: loop_turns)
    from Suc.hyps(1) [of "count + 1" s1 d'] nats(2) less
    obtain d'' s2 where IH: "activities (history s2) = activities (history s1) @ replicate (min m n + 1) c"
      "deref s2 c = deref s c"
      "if int m \<le> MaxCorrectionAttempts opts - (count + 1)
       then correctionLoop k D c actx opts (count + 1) (Some d') s1 = Return (None, Some d'') s2 \<and>
         left (world s2) = 0 \<and> Status (wf s2) = StatusExecuting
       else correctionLoop k D c actx opts (count + 1) (Some d') s1 =
         Return (Some (Wrapf (''activity '' @ ActivityName (deref s c) @ '' failed after '' @
           int_text (MaxCorrectionAttempts opts) @ '' correction attempts: '') e), Some d'') s2 \<and>
         Status (wf s2) = StatusFailed"
      using turn(2,3) m by auto
    have "activities (history s2) = activities (history s) @ replicate (min (Suc m) (Suc n) + 1) c"
      using IH(1) turn(4) by simp
    then show ?thesis
      using IH(2,3) unfolding m nats(1) loop
      by (intro exI [of _ d''] exI [of _ s2]) (auto split: if_splits)
  qed
qed


section \<open>A visit of a gated activity\<close>

lemma applyBranch_Some: "\<exists>d2. applyBranch D info (Some d) = (None, Some d2)"
  by (simp add: applyBranch_def)

lemma answering_runResumableActivity:
  assumes "answering k D left e" and "ApprovalSignal (resumableOptionsOf (deref s c)) = ''''"
  shows "\<exists>d' s'. activities (history s') = activities (history s) @
        replicate (min (left (world s)) (nat (MaxCorrectionAttempts (resumableOptionsOf (deref s c)))) + 1) c \<and>
      (if int (left (world s)) \<le> MaxCorrectionAttempts (resumableOptionsOf (deref s c))
       then runResumableActivity k D c (Some d) s = Return (None, Some d') s' \<and>
         left (world s') = 0 \<and> Status (wf s') = StatusExecuting
       else runResumableActivity k D c (Some d) s =
         Return (Some (Wrapf (''activity '' @ ActivityName (deref s c) @ '' failed after '' @
           int_text (MaxCorrectionAttempts (resumableOptionsOf (deref s c))) @
           '' correction attempts: '') e), Some d') s' \<and>
         Status (wf s') = StatusFailed)"
proof -
  let ?opts = "resumableOptionsOf (deref s c)"
  let ?s1 = "setResumable c ?opts s"
  let ?actx = "resumableActivityContext (deref ?s1 c)"
  have le: "0 \<le> MaxCorrectionAttempts ?opts" using resumableOptionsOf_max [of "deref s c"] by simp
  have start: "world ?s1 = world s" "history ?s1 = history s" "ActivityName (deref ?s1 c) = ActivityName (deref s c)"
    by (simp_all add: setResumable_def deref_def infoAt_def)
  obtain d' s' where loop: "activities (history s') = activities (history s) @
        replicate (min (left (world s)) (nat (MaxCorrectionAttempts ?opts)) + 1) c"
    "if int (left (world s)) \<le> MaxCorrectionAttempts ?opts
       then correctionLoop k D c ?actx ?opts 0 (Some d) ?s1 = Return (None, Some d') s' \<and>
         left (world s') = 0 \<and> Status (wf s') = StatusExecuting
       else correctionLoop k D c ?actx ?opts 0 (Some d) ?s1 =
         Return (Some (Wrapf (''activity '' @ ActivityName (deref s c) @ '' failed after '' @
           int_text (MaxCorrectionAttempts ?opts) @ '' correction attempts: '') e), Some d') s' \<and>
         Status (wf s') = StatusFailed"
    using answering_loop [OF assms(1) le, of s c ?actx d] answering_loop [OF assms(1) le, of ?s1 c ?actx d]
    unfolding start diff_zero by blast
  obtain d2 where branch: "applyBranch D (deref s' c) (Some d') = (None, Some d2)"
    using applyBranch_Some [of D "deref s' c" d'] by blast
  show ?thesis
  proof (cases "int (left (world s)) \<le> MaxCorrectionAttempts ?opts")
    case True
    with loop assms(2) branch have "runResumableActivity k D c (Some d) s = Return (None, Some d2) s'"
      by (simp add: runResumableActivity_def Let_def)
    with True loop show ?thesis by (intro exI [of _ d2] exI [of _ s']) simp
  next
    case False
    with loop have "runResumableActivity k D c (Some d) s =
        Return (Some (Wrapf (''activity '' @ ActivityName (deref s c) @ '' failed after '' @
           int_text (MaxCorrectionAttempts ?opts) @ '' correction attempts: '') e), Some d') s'"
      by (simp add: runResumableActivity_def Let_def)
    with False loop show ?thesis by (intro exI [of _ d'] exI [of _ s']) simp
  qed
qed


section \<open>An environment in which everything succeeds\<close>

text \<open>
  Every activity succeeds, every wait is answered with a payload that is usable as a
  correction and decodes to true as an approval, and the calls for the status succeed.
\<close>

definition cooperative :: "('d, 'f, 'v, 'w) sdk \<Rightarrow> 'd ExecutionDataOps \<Rightarrow> bool" where
  "cooperative k D \<longleftrightarrow> answering k D (\<lambda>_. 0) (Errorf '''') \<and>
     (\<forall>ch w. \<exists>p w'. Await k ch w = AwaitReceived p w' \<and> decode_bool k p) \<and>
     (\<forall>ch t w. \<exists>p w'. AwaitWithTimeout k ch t w = TimedReceived p w' \<and> decode_bool k p) \<and>
     (\<forall>a st w. fst (UpsertSearchAttributes k a st w) = None) \<and>
     (\<forall>q w. fst (SetQueryHandler k q w) = None)"

lemma cooperative_answering: "cooperative k D \<Longrightarrow> answering k D (\<lambda>_. 0) (Errorf '''')"
  by (simp add: cooperative_def)

lemma cooperative_approval:
  assumes "cooperative k D"
  obtains s' where "waitForApproval k n opts s = Return None s'"
    and "activities (history s') = activities (history s)"
proof -
  let ?s1 = "snd (setExecutionStatus k StatusAwaitingApproval (StatusSearchAttribute opts) s)"
  obtain s2 where s2: "receiveApproval k n opts ?s1 = Return (Inr True) s2"
    "activities (history s2) = activities (history s)"
  proof (cases "WaitTimeout opts > 0")
    case True
    obtain p w' where "AwaitWithTimeout k (ApprovalSignal opts) (WaitTimeout opts) (world ?s1) = TimedReceived p w'"
      "decode_bool k p"
      using assms unfolding cooperative_def by blast
    with True that show ?thesis by (simp add: receiveApproval_def Let_def)
  next
    case False
    obtain p w' where "Await k (ApprovalSignal opts) (world ?s1) = AwaitReceived p w'" "decode_bool k p"
      using assms unfolding cooperative_def by blast
    with False that show ?thesis by (simp add: receiveApproval_def Let_def)
  qed
  show ?thesis by (rule that [of s2]) (simp_all add: waitForApproval_def Let_def s2)
qed

lemma cooperative_runActivity:
  assumes "cooperative k D"
  obtains d' s' where "runActivity k D c (Some d) s = Return (None, Some d') s'"
    and "activities (history s') = activities (history s) @ [c]"
proof (cases "SignalEvent (deref s c) = ''''")
  case True
  obtain d1 s1 where s1: "callActivity k (ActivityOpts (deref s c)) c (Some d) s = Return (None, Some d1) s1"
    "activities (history s1) = activities (history s) @ [c]"
    by (rule answering_call [OF cooperative_answering [OF assms], of "ActivityOpts (deref s c)" c d s]) simp
  obtain d2 where "applyBranch D (deref s c) (Some d1) = (None, Some d2)"
    using applyBranch_Some [of D "deref s c" d1] by blast
  with s1 True that show ?thesis by (simp add: runActivity_def Let_def)
next
  case False
  let ?opts = "resumableOptionsOf (deref s c)"
  let ?s1 = "setResumable c ?opts s"
  let ?actx = "resumableActivityContext (deref ?s1 c)"
  have le: "0 \<le> MaxCorrectionAttempts ?opts" using resumableOptionsOf_max [of "deref s c"] by simp
  obtain d2 s2 where s2: "correctionLoop k D c ?actx ?opts 0 (Some d) ?s1 = Return (None, Some d2) s2"
    "activities (history s2) = activities (history s) @ [c]"
    using answering_loop [OF cooperative_answering [OF assms] le, of ?s1 c ?actx d] le
    by (auto simp: setResumable_def)
  define d3 where "d3 i = the (snd (applyBranch D i (Some d2)))" for i :: "'b ActivityExecutionInfo"
  have branch: "applyBranch D i (Some d2) = (None, Some (d3 i))" for i
    using applyBranch_Some [of D i d2] by (auto simp: d3_def)
  obtain s3 where s3: "waitForApproval k (ActivityName (deref s2 c)) ?opts s2 = Return None s3"
    "activities (history s3) = activities (history s) @ [c]"
    using cooperative_approval [OF assms, of "ActivityName (deref s2 c)" ?opts s2] s2(2) by metis
  show ?thesis
  proof (cases "ApprovalSignal ?opts = ''''")
    case True
    show ?thesis
      by (rule that [of "d3 (deref s2 c)" s2]) (use True False in \<open>simp_all add: runActivity_def runResumableActivity_def Let_def s2 [simplified] branch\<close>)
  next
    case approval: False
    show ?thesis
      by (rule that [of "d3 (deref s3 c)" s3])
        (use approval False in \<open>simp_all add: runActivity_def runResumableActivity_def Let_def s2 [simplified] s3 branch\<close>)
  qed
qed

text \<open>
  The loop of \<open>Execute\<close> on a ranked graph: each activity has a lower rank than the one
  before it, so none runs twice.
\<close>

lemma cooperative_executeLoop:
  assumes "cooperative k D" and "ranked rk (graph_of (wf s))" and "\<And>c. cur = Some c \<Longrightarrow> rk c < fuel"
  shows "\<exists>d' s' cs. executeLoop fuel k D attr cur (Some d) s = Return (None, Some d') s' \<and>
    activities (history s') = activities (history s) @ cs \<and>
    sorted_wrt (\<lambda>a b. rk b < rk a) cs \<and> (case cur of None \<Rightarrow> cs = [] | Some c \<Rightarrow> \<exists>cs'. cs = c # cs')"
  using assms(2,3)
proof (induction fuel arbitrary: cur d s)
  case 0
  then show ?case by (cases cur) auto
next
  case (Suc fuel)
  show ?case
  proof (cases cur)
    case (Some c)
    obtain d1 s1 where run: "runActivity k D c (Some d) s = Return (None, Some d1) s1"
      "activities (history s1) = activities (history s) @ [c]"
      using cooperative_runActivity [OF assms(1)] by blast
    have G: "graph_of (wf s1) = graph_of (wf s)"
      using post_Return [OF graph_frame.runActivity_R run(1)] by (simp add: same_graph_def)
    let ?next = "getNextActivity (activity (wf s1)) (deref s1 c) (GetActivity D d1)"
    show ?thesis
    proof (cases "NextActivities (deref s1 c) = None \<or> GetActivity D d1 = ''''")
      case True
      then show ?thesis using Some run by (intro exI [of _ d1] exI [of _ s1] exI [of _ "[c]"]) auto
    next
      case False
      have step: "executeLoop (Suc fuel) k D attr cur (Some d) s = executeLoop fuel k D attr ?next (Some d1) s1"
        using False Some run by auto
      have lower: "rk c' < rk c" if "?next = Some c'" for c'
      proof -
        have "c' \<in> set (g_next (graph_of (wf s)) c)"
          using getNextActivity_Some [OF that] at_phase_fields(2) [OF at_phase_start [OF G], of c] by auto
        with Suc.prems(1) show ?thesis by (simp add: ranked_def)
      qed
      then have "rk c' < fuel" if "?next = Some c'" for c'
        using that Suc.prems(2) [OF Some] by fastforce
      with Suc.IH [of s1 ?next d1] Suc.prems(1) G
      obtain d' s' cs where loop: "executeLoop fuel k D attr ?next (Some d1) s1 = Return (None, Some d') s'"
        "activities (history s') = activities (history s1) @ cs" "sorted_wrt (\<lambda>a b. rk b < rk a) cs"
        "case ?next of None \<Rightarrow> cs = [] | Some c \<Rightarrow> \<exists>cs'. cs = c # cs'" by auto
      have "sorted_wrt (\<lambda>a b. rk b < rk a) (c # cs)"
        using loop(3,4) lower by (cases ?next) (auto, meson less_trans)
      then show ?thesis
        using Some step loop run(2) by (intro exI [of _ d'] exI [of _ s'] exI [of _ "c # cs"]) simp
    qed
  qed simp
qed

lemma cooperative_status:
  assumes "cooperative k D"
  shows "fst (setExecutionStatus k st attr s) = None"
  using assms by (simp add: setExecutionStatus_def Let_def case_prod_beta cooperative_def)

lemma activities_finalStatus [simp]:
  "activities (history (finalStatus k attr st s)) = activities (history s)"
  by (simp add: finalStatus_def)

lemma CompletedAt_finalStatus [simp]:
  "CompletedAt (wf (finalStatus k attr st s)) = CompletedAt (wf s)"
  by (simp add: finalStatus_def setExecutionStatus_def Let_def case_prod_beta)

lemma cooperative_Execute:
  assumes "cooperative k D" and "ranked rk (graph_of (wf s))" and "rk (firstActivity (wf s)) < fuel"
  shows "\<exists>d' s' cs. Execute order fuel k D (Some d) s = Return (None, Some d') s' \<and>
    CompletedAt (wf s') \<noteq> None \<and> activities (history s') = activities (history s) @ cs \<and>
    sorted_wrt (\<lambda>a b. rk b < rk a) cs \<and>
    (case lookupActivity (wf s) (firstActivity (wf s)) of None \<Rightarrow> cs = [] | Some c \<Rightarrow> \<exists>cs'. cs = c # cs')"
proof -
  let ?s1 = "s\<lparr>wf := (wf s)\<lparr>StartedAt := Some (time_Now k (world s))\<rparr>\<rparr>"
  let ?attr = "statusSearchAttribute order (activity (wf ?s1))"
  let ?cur = "lookupActivity (wf s) (firstActivity (wf s))"
  define s2 where "s2 = snd (setExecutionStatus k StatusPending ?attr ?s1)"
  define s3 where "s3 = snd (registerStatusQuery k s2)"
  have e2: "setExecutionStatus k StatusPending ?attr ?s1 = (None, s2)"
    using cooperative_status [OF assms(1)] by (simp add: s2_def prod_eq_iff)
  have e3: "registerStatusQuery k s2 = (None, s3)"
    using assms(1) by (simp add: s3_def prod_eq_iff registerStatusQuery_def case_prod_beta cooperative_def)
  have "wf s3 = wf s2" "activities (history s3) = activities (history s2)"
    by (simp_all add: s3_def registerStatusQuery_def case_prod_beta)
  moreover have "graph_of (wf s2) = graph_of (wf s)" "activities (history s2) = activities (history s)"
    by (simp_all add: s2_def) (simp add: setExecutionStatus_def Let_def graph_of_def case_prod_beta)
  ultimately have s3: "graph_of (wf s3) = graph_of (wf s)" "activities (history s3) = activities (history s)"
    by simp_all
  have "rk c < fuel" if "?cur = Some c" for c
    using that assms(3) by (auto simp: lookupActivity_def split: option.splits)
  with cooperative_executeLoop [OF assms(1), of rk s3 ?cur fuel ?attr d] assms(2) s3
  obtain d' s' cs where loop: "executeLoop fuel k D ?attr ?cur (Some d) s3 = Return (None, Some d') s'"
    "activities (history s') = activities (history s) @ cs" "sorted_wrt (\<lambda>a b. rk b < rk a) cs"
    "case ?cur of None \<Rightarrow> cs = [] | Some c \<Rightarrow> \<exists>cs'. cs = c # cs'" by auto
  let ?s5 = "finalStatus k ?attr StatusCompleted
    (s'\<lparr>wf := (wf s')\<lparr>CompletedAt := Some (time_Now k (world s'))\<rparr>\<rparr>)"
  have "Execute order fuel k D (Some d) s = Return (None, Some d') ?s5"
    unfolding Execute_def Let_def e2 e3 prod.case option.case loop(1) and_then.simps ..
  with loop show ?thesis by (intro exI [of _ d'] exI [of _ ?s5] exI [of _ cs]) simp
qed

end
