(* ===== verification/Temporal_Properties.thy ===== *)
theory Temporal_Properties
  imports Temporal_Progress
begin

text \<open>
  The properties of the activity pipeline (\<open>workflow.go\<close>, \<open>resumable.go\<close>), each
  stated over the translated operations, with witnesses on a small SDK that
  answers every call.
\<close>

section \<open>What the history of a call shows\<close>

text \<open>The events a call appended to the history satisfy \<open>P\<close>.\<close>

definition recorded ::
    "(event list \<Rightarrow> bool) \<Rightarrow> ('p, 'f, 'c, 'w) wstate \<Rightarrow> ('p, 'f, 'c, 'w) wstate \<Rightarrow> bool" where
  "recorded P s s' \<longleftrightarrow> (\<exists>evs. history s' = history s @ evs \<and> P evs)"

text \<open>The call took the abstract machine from its initial phase to \<open>p\<close>, whose status is reported.\<close>

definition ran_to ::
    "('p, 'f, 'c, 'w) wstate \<Rightarrow> ('p, 'f, 'c, 'w) wstate \<Rightarrow> phase \<Rightarrow> bool" where
  "ran_to s s' p \<longleftrightarrow> recorded (\<lambda>evs. wf_run (graph_of (wf s)) Created evs p) s s' \<and>
     phase_status p = Some (Status (wf s'))"

lemma ran_toI:
  "at_phase (history s) (graph_of (wf s)) p s' \<Longrightarrow> p \<noteq> Created \<Longrightarrow> ran_to s s' p"
  unfolding at_phase_def ran_to_def recorded_def by (cases p) auto

lemma Execute_run:
  "post (Execute order fuel k D data s)
     (\<lambda>r s'. \<exists>p. ran_to s s' p \<and>
        (case fst r of None \<Rightarrow> p = Closed StatusCompleted
         | Some _ \<Rightarrow> p \<in> {Closed StatusFailed, Closed StatusRejected, Starting, Ready}))
     (\<lambda>s'. \<exists>p. ran_to s s' p \<and> parked_phase p)
     (\<lambda>s'. \<exists>p. ran_to s s' p \<and> idle (graph_of (wf s)) p \<noteq> None)"
proof (rule post_mono [OF Execute_phase], goal_cases)
  case (1 r s')
  then show ?case
    by (cases "fst r") (auto simp: closed_error_def intro: ran_toI)
next
  case (2 s')
  then obtain q where q: "at_phase (history s) (graph_of (wf s)) q s'" "parked_phase q"
    by (auto simp: rests_def)
  from q(2) have "q \<noteq> Created" by auto
  with q show ?case by (blast intro: ran_toI)
next
  case (3 s')
  then obtain q x where q: "at_phase (history s) (graph_of (wf s)) q s'"
    "idle (graph_of (wf s)) q = Some x"
    by (auto simp: between_def)
  from q(2) have "q \<noteq> Created" by auto
  with q show ?case by (auto intro: ran_toI)
qed

text \<open>Whatever holds of every run of the machine holds of every call.\<close>

lemma Execute_recorded:
  assumes "\<And>evs p. wf_run (graph_of (wf s)) Created evs p \<Longrightarrow> P evs"
  shows "post (Execute order fuel k D data s)
     (\<lambda>_. recorded P s) (recorded P s) (recorded P s)"
  by (rule post_mono [OF Execute_run]) (use assms in \<open>auto simp: ran_to_def recorded_def\<close>)

text \<open>
  C1: \<open>Execute\<close> implements the workflow machine. Whatever the SDK answers, the
  events of a call are a run of the machine on the registered graph and the
  stored status is the status of the phase reached; with nil the workflow has
  completed, with an error it has failed, was rejected, or never got past the
  start; a call that is parked waits for an activity or a signal.
\<close>

theorem Execute_refines_machine:
  "post (Execute order fuel k D data s)
     (\<lambda>r s'. \<exists>p. ran_to s s' p \<and>
        (case fst r of None \<Rightarrow> p = Closed StatusCompleted
         | Some _ \<Rightarrow> p \<in> {Closed StatusFailed, Closed StatusRejected, Starting, Ready}))
     (\<lambda>s'. \<exists>p. ran_to s s' p \<and> parked_phase p)
     (\<lambda>s'. \<exists>p. ran_to s s' p \<and> idle (graph_of (wf s)) p \<noteq> None)"
  by (rule Execute_run)

text \<open>
  C2: The statuses an observer sees follow the status protocol (\<open>PENDING\<close> first,
  \<open>EXECUTING\<close> only after \<open>AWAITING_CORRECTION\<close>, nothing after \<open>COMPLETED\<close>,
  \<open>FAILED\<close> or \<open>REJECTED\<close>), at whatever point \<open>Execute\<close> is stopped.
\<close>

theorem Execute_status_protocol:
  "post (Execute order fuel k D data s)
     (\<lambda>_. recorded (\<lambda>evs. status_path None (statuses evs)) s)
     (recorded (\<lambda>evs. status_path None (statuses evs)) s)
     (recorded (\<lambda>evs. status_path None (statuses evs)) s)"
  by (rule Execute_recorded) (use run_status in fastforce)

text \<open>
  C3: No gated activity runs before its signal: in every history of \<open>Execute\<close> each
  run of an activity with a signal event uses up one receipt of exactly that
  signal since the previous run of an activity.
\<close>

theorem Execute_signal_gate:
  "post (Execute order fuel k D data s)
     (\<lambda>_. recorded (gate_ok (graph_of (wf s)) None) s)
     (recorded (gate_ok (graph_of (wf s)) None) s)
     (recorded (gate_ok (graph_of (wf s)) None) s)"
  by (rule Execute_recorded) (use run_gate in fastforce)

text \<open>
  C5: The activities \<open>Execute\<close> runs form a path of the registered graph: the first
  is the first one registered, each next one is a declared successor of the one
  before it or a retry of the same gated activity.
\<close>

theorem Execute_follows_edges:
  "post (Execute order fuel k D data s)
     (\<lambda>_. recorded (\<lambda>evs. edges_ok (graph_of (wf s)) None (activities evs)) s)
     (recorded (\<lambda>evs. edges_ok (graph_of (wf s)) None (activities evs)) s)
     (recorded (\<lambda>evs. edges_ok (graph_of (wf s)) None (activities evs)) s)"
  by (rule Execute_recorded) (use run_edges in fastforce)

text \<open>
  C4: A negative approval is final: after it the code reports \<open>REJECTED\<close> and does
  nothing else, and \<open>Execute\<close> returns an error with that status; without one the
  status is never \<open>REJECTED\<close>.
\<close>

theorem Execute_rejection_final:
  "post (Execute order fuel k D data s)
     (\<lambda>r s'. recorded (\<lambda>evs. rejection_ends evs \<and>
        (rejected evs \<longleftrightarrow> fst r \<noteq> None \<and> Status (wf s') = StatusRejected)) s s')
     (recorded (\<lambda>evs. \<not> rejected evs) s)
     (recorded (\<lambda>evs. \<not> rejected evs) s)"
proof (rule post_mono [OF Execute_run], goal_cases)
  case (1 r s')
  then obtain p where p: "ran_to s s' p" "case fst r of None \<Rightarrow> p = Closed StatusCompleted
      | Some _ \<Rightarrow> p \<in> {Closed StatusFailed, Closed StatusRejected, Starting, Ready}" by blast
  from p(1) obtain evs where evs: "history s' = history s @ evs"
    "wf_run (graph_of (wf s)) Created evs p" "phase_status p = Some (Status (wf s'))"
    by (auto simp: ran_to_def recorded_def)
  have "rejected_phase p \<longleftrightarrow> fst r \<noteq> None \<and> Status (wf s') = StatusRejected"
    using p(2) evs(3) by (auto split: option.splits)
  then show ?case using evs(1) run_rejected [OF evs(2)] by (auto simp: recorded_def)
next
  case (2 s')
  then obtain p evs where "history s' = history s @ evs" "parked_phase p"
    "wf_run (graph_of (wf s)) Created evs p" by (auto simp: ran_to_def recorded_def)
  moreover from this(2) have "\<not> rejected_phase p" by (cases p) auto
  ultimately show ?case using run_rejected by (fastforce simp: recorded_def)
next
  case (3 s')
  then obtain p evs x where "history s' = history s @ evs" "idle (graph_of (wf s)) p = Some x"
    "wf_run (graph_of (wf s)) Created evs p" by (auto simp: ran_to_def recorded_def)
  moreover from this(2) have "\<not> rejected_phase p"
    by (cases "(graph_of (wf s), p)" rule: idle.cases) (auto split: if_splits)
  ultimately show ?case using run_rejected by (fastforce simp: recorded_def)
qed


section \<open>Workflows built by the public operations\<close>

text \<open>A receiver on which only \<open>AddTransitionActivityWithOptions\<close> was called.\<close>

definition registered_workflow ::
    "(string \<Rightarrow> 'f option \<Rightarrow> 'c \<Rightarrow> 'c) \<Rightarrow> 'f registration list \<Rightarrow> 'c \<Rightarrow> 'w \<Rightarrow> ('p, 'f, 'c, 'w) wstate" where
  "registered_workflow register rs client w =
     \<lparr>wf = register_all register rs (NewWorkflowExecution client), world = w, history = []\<rparr>"

lemma registered_info:
  "infoAt (activity (register_all register rs (NewWorkflowExecution client))) c =
     (case last_registration rs c of Some r \<Rightarrow> info_of_registration r | None \<Rightarrow> placeholderInfo)"
  by (simp add: infoAt_def register_all_activity split: option.splits)

lemma option_free_registered:
  "option_free (graph_of (register_all register rs (NewWorkflowExecution client)))"
  by (auto simp: option_free_def graph_of_def graph_of_activities_def registered_info fun_eq_iff
      resumableOptionsOf_def info_of_registration_def registeredInfo_def placeholderInfo_def
      zeroResumableOptions_def split: option.splits)

text \<open>
  C12: On a workflow built only with \<open>AddTransitionActivityWithOptions\<close> the approval
  step, the search attribute and the signal time limit of \<open>ResumableOptions\<close> are
  out of reach: nothing is upserted, no approval is read, \<open>AWAITING_APPROVAL\<close> and
  \<open>REJECTED\<close> are never reported, and every wait for a signal is unbounded.
\<close>

theorem registered_workflow_unbounded:
  "post (Execute order fuel k D data (registered_workflow register rs client w))
     (\<lambda>_ s'. list_all unbounded_event (history s'))
     (\<lambda>s'. list_all unbounded_event (history s'))
     (\<lambda>s'. list_all unbounded_event (history s'))"
proof (rule post_mono [OF Execute_recorded [where P = "list_all unbounded_event"]])
  fix evs p
  assume run: "wf_run (graph_of (wf (registered_workflow register rs client w))) Created evs p"
  have "option_free (graph_of (wf (registered_workflow register rs client w)))"
    unfolding registered_workflow_def by (simp add: option_free_registered)
  from run_option_free [OF run this] show "list_all unbounded_event evs" by simp
qed (auto simp: recorded_def registered_workflow_def)

text \<open>
  C13: The graph of a registered workflow is well formed (every declared successor
  has a record, the start node exists, a gated record has options, stored options
  are normalised, placeholders are inert), and it still is wherever \<open>Execute\<close> stops.
\<close>

theorem registered_workflow_wf_graph:
  "wf_graph (register_all register rs (NewWorkflowExecution client)) \<and>
   post (Execute order fuel k D data (registered_workflow register rs client w))
     (\<lambda>_ s'. wf_graph (wf s')) (\<lambda>s'. wf_graph (wf s')) (\<lambda>s'. wf_graph (wf s'))"
proof -
  let ?s = "registered_workflow register rs client w :: ('e, 'b, 'c, 'f) wstate"
  have wfg: "wf_graph (register_all register rs (NewWorkflowExecution client))"
    by (rule register_all_wf [OF wf_graph_new])
  then have wfs: "wf_graph (wf ?s)" by (simp add: registered_workflow_def)
  show ?thesis
  proof (cases "activity (wf ?s) = Map.empty")
    case False
    have "post (Execute order fuel k D data ?s)
        (\<lambda>_ s'. wf_graph (wf s')) (\<lambda>s'. wf_graph (wf s')) (\<lambda>s'. wf_graph (wf s'))"
      by (rule post_mono [OF graph_inv.Execute_R]) (use wfs False in \<open>simp_all add: keeps_wf_graph_def\<close>)
    with wfg show ?thesis by simp
  next
    case True
    then have "lookupActivity (wf ?s) (firstActivity (wf ?s)) = None"
      by (simp add: lookupActivity_def)
    then have "post (Execute order fuel k D data ?s)
        (\<lambda>_ s'. wf_graph (wf s')) (\<lambda>s'. wf_graph (wf s')) (\<lambda>s'. wf_graph (wf s'))"
      using True
      by (auto simp: Execute_def Let_def wf_graph_def setExecutionStatus_def registerStatusQuery_def
          finalStatus_def split: prod.splits option.splits)
    with wfg show ?thesis by simp
  qed
qed

text \<open>
  C14: After a sequence of registrations the graph holds exactly the last record
  registered under each name, and an inert placeholder for each other name that was
  declared as a successor; the start node is the first name registered.
\<close>

theorem register_all_contents:
  "activity (register_all register rs (NewWorkflowExecution client)) n =
     (case last_registration rs n of
        Some r \<Rightarrow> Some (info_of_registration r)
      | None \<Rightarrow> if \<exists>r \<in> set rs. n \<in> set (reg_next r) then Some placeholderInfo else None) \<and>
   firstActivity (register_all register rs (NewWorkflowExecution client)) =
     (case rs of [] \<Rightarrow> '''' | r # _ \<Rightarrow> reg_name r) \<and>
   temporalClient (register_all register rs (NewWorkflowExecution client)) =
     fold (\<lambda>r. register (reg_name r) (reg_fn r)) rs client"
  using register_all_first [of "NewWorkflowExecution client" register rs]
  by (cases "last_registration rs n") (simp_all add: register_all_activity register_all_client split: list.splits)

lemma last_registration_None: "last_registration rs n = None \<longleftrightarrow> n \<notin> reg_name ` set rs"
  by (induction rs) (auto split: option.splits)

lemma last_registration_Some:
  "last_registration rs n = Some r \<Longrightarrow> r \<in> set rs \<and> reg_name r = n"
  by (induction rs) (auto split: option.splits if_splits)

lemma last_registration_distinct:
  assumes "distinct (map reg_name rs)"
  shows "last_registration rs n = Some r \<longleftrightarrow> r \<in> set rs \<and> reg_name r = n"
proof
  assume r: "r \<in> set rs \<and> reg_name r = n"
  then obtain r' where r': "last_registration rs n = Some r'"
    using last_registration_None [of rs n] by fastforce
  with r assms have "r' = r"
    by (metis last_registration_Some distinct_map inj_onD)
  with r' show "last_registration rs n = Some r" by simp
qed (rule last_registration_Some)

text \<open>
  Activities with different names may be registered in any order: the records
  of the graph are the same (only the start node depends on which comes first).
\<close>

theorem registration_order:
  assumes "set rs = set rs'" and "distinct (map reg_name rs)" and "distinct (map reg_name rs')"
  shows "activity (register_all register rs (NewWorkflowExecution client)) =
    activity (register_all register rs' (NewWorkflowExecution client))"
proof
  fix n
  have "last_registration rs n = last_registration rs' n"
    using last_registration_distinct [OF assms(2), of n] last_registration_distinct [OF assms(3), of n]
      assms(1) by (metis not_None_eq)
  then show "activity (register_all register rs (NewWorkflowExecution client)) n =
      activity (register_all register rs' (NewWorkflowExecution client)) n"
    using assms(1)
    by (cases "last_registration rs' n") (simp_all add: register_all_activity)
qed

definition demo_step :: "string \<Rightarrow> string \<Rightarrow> string list \<Rightarrow> unit registration" where
  "demo_step n sig nexts = \<lparr>reg_name = n, reg_signal = sig, reg_fn = Some (), reg_options = None,
     reg_next = nexts\<rparr>"

theorem registration_order_witness:
  "activity (register_all (\<lambda>_ _ c. c) [demo_step ''a'' '''' [''b''], demo_step ''b'' ''go'' []]
      (NewWorkflowExecution ())) =
   activity (register_all (\<lambda>_ _ c. c) [demo_step ''b'' ''go'' [], demo_step ''a'' '''' [''b'']]
      (NewWorkflowExecution ()))"
  by (rule registration_order) (auto simp: demo_step_def)


section \<open>A small SDK for the witnesses\<close>

text \<open>
  Every wait is answered with \<open>p\<close>, every activity returns \<open>e\<close> and leaves the data as
  it is; the data is the name \<open>GetActivity\<close> returns. The world counts the calls.
\<close>

definition demo_sdk :: "err \<Rightarrow> string payload \<Rightarrow> err \<Rightarrow> (string, unit, string, nat) sdk" where
  "demo_sdk e p upsert = \<lparr>time_Now = int, SetQueryHandler = (\<lambda>q w. (None, w)),
     UpsertSearchAttributes = (\<lambda>a st w. (upsert, w)),
     ExecuteActivity = (\<lambda>opts f d w. FutureGet e (\<lambda>x. x) (w + 1)),
     Await = (\<lambda>ch w. AwaitReceived p (w + 1)),
     AwaitWithTimeout = (\<lambda>ch t w. TimedReceived p (w + 1)),
     decode_bool = (\<lambda>q. q = Value ''true''), json_Marshal = (\<lambda>v. Inr v)\<rparr>"

definition demo_data :: "string ExecutionDataOps" where
  "demo_data = \<lparr>SetActivity = (\<lambda>n d. n), GetActivity = (\<lambda>d. d), Marshal = (\<lambda>d. Inr d),
     Unmarshal = (\<lambda>b d. (None, b)), Clone = (\<lambda>d. d)\<rparr>"

definition demo_state :: "unit registration list \<Rightarrow> (unit, unit, unit, nat) wstate" where
  "demo_state rs = registered_workflow (\<lambda>_ _ c. c) rs () 0"

lemmas demo_defs = demo_sdk_def demo_data_def demo_state_def demo_step_def registered_workflow_def
  register_all_def register_one_def

lemma demo_deref:
  "deref (demo_state rs) c =
     (case last_registration rs c of Some r \<Rightarrow> info_of_registration r | None \<Rightarrow> placeholderInfo)"
  by (simp add: demo_state_def registered_workflow_def deref_def registered_info)

lemma register_all_Status: "Status (register_all register rs w) = Status w"
  by (induction rs arbitrary: w)
    (simp_all add: register_all_def register_one_def AddTransitionActivityWithOptions_def Let_def)

lemma demo_Status: "Status (wf (demo_state rs)) = ''''"
  by (simp add: demo_state_def registered_workflow_def register_all_Status)


section \<open>Budgets and termination\<close>

text \<open>
  C9: One visit of a gated activity runs it at most \<open>MaxCorrectionAttempts + 1\<close>
  times, and always ends (in an error, in success, or parked): the park-and-retry
  loop never goes on for ever.
\<close>

theorem resumable_attempts_bounded:
  "post (runResumableActivity k D c data s)
     (\<lambda>_ s'. runs s' \<le> runs s + nat (MaxCorrectionAttempts (resumableOptionsOf (deref s c))) + 1)
     (\<lambda>s'. runs s' \<le> runs s + nat (MaxCorrectionAttempts (resumableOptionsOf (deref s c))) + 1)
     (\<lambda>_. False)"
  by (rule runResumableActivity_runs)

text \<open>
  C8: The retry budget of a gated activity is exact. If every signal arrives and the
  first \<open>n\<close> runs fail with \<open>e\<close>, the visit succeeds after \<open>n + 1\<close> runs when \<open>n\<close> is at
  most \<open>MaxCorrectionAttempts\<close>; otherwise it gives up after \<open>MaxCorrectionAttempts + 1\<close>
  runs with status \<open>FAILED\<close> and an error that names the activity and the number of
  attempts and wraps \<open>e\<close>.
\<close>

theorem resumable_retry_budget:
  assumes "answering k D left e" and "ApprovalSignal (resumableOptionsOf (deref s c)) = ''''"
  shows "\<exists>d' s'. activities (history s') = activities (history s) @
        replicate (min (left (world s)) (nat (MaxCorrectionAttempts (resumableOptionsOf (deref s c)))) + 1) c \<and>
      (if int (left (world s)) \<le> MaxCorrectionAttempts (resumableOptionsOf (deref s c))
       then runResumableActivity k D c (Some d) s = Return (None, Some d') s' \<and>
         left (world s') = 0 \<and> Status (wf s') = StatusExecuting
       else runResumableActivity k D c (Some d) s =
         Return (Some (Wrapf (''activity '' @ ActivityName (deref s c) @ '' failed after '' @
           int_text (MaxCorrectionAttempts (resumableOptionsOf (deref s c))) @
           '' correction attempts: '') e), Some d') s' \<and>
         Status (wf s') = StatusFailed)"
  by (rule answering_runResumableActivity [OF assms])

text \<open>An SDK whose world is the number of runs that still fail.\<close>

definition flaky_sdk :: "go_error \<Rightarrow> (string, unit, string, nat) sdk" where
  "flaky_sdk e = \<lparr>time_Now = int, SetQueryHandler = (\<lambda>q w. (None, w)),
     UpsertSearchAttributes = (\<lambda>a st w. (None, w)),
     ExecuteActivity = (\<lambda>opts f d w. FutureGet (if w = 0 then None else Some e) (\<lambda>x. x) (w - 1)),
     Await = (\<lambda>ch w. AwaitReceived (RawMessage ''null'') w),
     AwaitWithTimeout = (\<lambda>ch t w. TimedReceived (RawMessage ''null'') w),
     decode_bool = (\<lambda>q. False), json_Marshal = (\<lambda>v. Inr v)\<rparr>"

theorem resumable_retry_budget_witness:
  "(\<exists>d' s'. runResumableActivity (flaky_sdk (External ''no account'')) demo_data ''transfer'' (Some '''')
        ((demo_state [demo_step ''transfer'' ''go'' []])\<lparr>world := 5\<rparr>) = Return (None, Some d') s' \<and>
      activities (history s') = replicate 6 ''transfer'') \<and>
   (\<exists>d' s'. runResumableActivity (flaky_sdk (External ''no account'')) demo_data ''transfer'' (Some '''')
        ((demo_state [demo_step ''transfer'' ''go'' []])\<lparr>world := 6\<rparr>) =
      Return (Some (Wrapf ''activity transfer failed after 5 correction attempts: ''
        (External ''no account'')), Some d') s' \<and>
      activities (history s') = replicate 6 ''transfer'' \<and> Status (wf s') = ''FAILED'')"
proof -
  let ?k = "flaky_sdk (External ''no account'')"
  let ?s = "\<lambda>w. (demo_state [demo_step ''transfer'' ''go'' []])\<lparr>world := w\<rparr>"
  have env: "answering ?k demo_data (\<lambda>w. w) (External ''no account'')"
    by (simp add: answering_def flaky_sdk_def usable_def encodeCorrection_def)
  have "deref (?s w) ''transfer'' = deref (demo_state [demo_step ''transfer'' ''go'' []]) ''transfer''" for w
    by (simp add: deref_def)
  then have info: "deref (?s w) ''transfer'' = registeredInfo ''transfer'' ''go'' (Some ()) None []" for w
    by (simp add: demo_deref demo_step_def info_of_registration_def)
  have opts: "MaxCorrectionAttempts (resumableOptionsOf (registeredInfo ''transfer'' ''go'' (Some ()) None [])) = 5"
    "ApprovalSignal (resumableOptionsOf (registeredInfo ''transfer'' ''go'' (Some ()) None [])) = ''''"
    "ActivityName (registeredInfo ''transfer'' ''go'' (Some ()) None []) = ''transfer''"
    by (simp_all add: resumableOptionsOf_def registeredInfo_def zeroResumableOptions_def Let_def)
  have none: "history (?s w) = []" for w by (simp add: demo_defs)
  have five: "int_text 5 = ''5''" by code_simp
  have ok: "ApprovalSignal (resumableOptionsOf (deref (?s w) ''transfer'')) = ''''" for w
    by (simp only: info opts)
  have six: "replicate 6 x = x # replicate 5 x" for x :: string by (simp add: eval_nat_numeral)
  note visit = resumable_retry_budget [OF env ok, where d = "''''", unfolded info opts none five, simplified]
  have "\<exists>d' s'. runResumableActivity ?k demo_data ''transfer'' (Some '''') (?s 5) = Return (None, Some d') s' \<and>
      activities (history s') = replicate 6 ''transfer''"
    using visit [of 5] by (auto simp: six)
  moreover have "\<exists>d' s'. runResumableActivity ?k demo_data ''transfer'' (Some '''') (?s 6) =
      Return (Some (Wrapf ''activity transfer failed after 5 correction attempts: ''
        (External ''no account'')), Some d') s' \<and>
      activities (history s') = replicate 6 ''transfer'' \<and> Status (wf s') = ''FAILED''"
    using visit [of 6] by (auto simp: six StatusFailed_def)
  ultimately show ?thesis ..
qed

text \<open>
  C6: A workflow whose activities succeed completes. On a graph without cycles, when
  every signal and approval arrives and the status calls succeed, \<open>Execute\<close> returns nil
  with status \<open>COMPLETED\<close>; the activities it ran are a path of declared edges from the
  start node on which no activity occurs twice, empty only if nothing is registered.
\<close>

theorem Execute_completes:
  assumes "cooperative k D" and "ranked rk (graph_of (wf s))" and "rk (firstActivity (wf s)) < fuel"
  shows "\<exists>d' s' cs. Execute order fuel k D (Some d) s = Return (None, Some d') s' \<and>
    Status (wf s') = StatusCompleted \<and> CompletedAt (wf s') \<noteq> None \<and>
    activities (history s') = activities (history s) @ cs \<and> edges_ok (graph_of (wf s)) None cs \<and>
    sorted_wrt (\<lambda>a b. rk b < rk a) cs \<and>
    (cs = [] \<longleftrightarrow> activity (wf s) (firstActivity (wf s)) = None)"
proof -
  from cooperative_Execute [OF assms, of order d] obtain d' s' cs where
    ex: "Execute order fuel k D (Some d) s = Return (None, Some d') s'" "CompletedAt (wf s') \<noteq> None"
      "activities (history s') = activities (history s) @ cs" "sorted_wrt (\<lambda>a b. rk b < rk a) cs"
      "case lookupActivity (wf s) (firstActivity (wf s)) of None \<Rightarrow> cs = [] | Some c \<Rightarrow> \<exists>cs'. cs = c # cs'"
    by blast
  have "ran_to s s' (Closed StatusCompleted)"
    using post_Return [OF Execute_run ex(1)] by auto
  then obtain evs where evs: "history s' = history s @ evs"
    "wf_run (graph_of (wf s)) Created evs (Closed StatusCompleted)" "Status (wf s') = StatusCompleted"
    by (auto simp: ran_to_def recorded_def)
  from evs(1) ex(3) have "activities evs = cs" by simp
  then have edges: "edges_ok (graph_of (wf s)) None cs"
    using run_edges [OF evs(2), of None] by simp
  have first: "cs = [] \<longleftrightarrow> activity (wf s) (firstActivity (wf s)) = None"
    using ex(5) by (auto simp: lookupActivity_def split: option.splits)
  show ?thesis
    by (intro exI [of _ d'] exI [of _ s'] exI [of _ cs] conjI) (fact ex(1,2,3,4) evs(3) edges first)+
qed

theorem Execute_completes_witness:
  "\<exists>d' s' cs. Execute [] 2 (demo_sdk None (Value ''true'') None) demo_data (Some ''b'')
      (demo_state [demo_step ''a'' '''' [''b''], demo_step ''b'' ''go'' []]) = Return (None, Some d') s' \<and>
    Status (wf s') = StatusCompleted \<and> cs \<noteq> [] \<and> activities (history s') = cs"
proof -
  let ?s = "demo_state [demo_step ''a'' '''' [''b''], demo_step ''b'' ''go'' []]"
  let ?rk = "\<lambda>n. if n = ''a'' then 1 else 0 :: nat"
  have env: "cooperative (demo_sdk None (Value ''true'') None) demo_data"
    by (simp add: cooperative_def answering_def demo_sdk_def usable_def encodeCorrection_def demo_data_def)
  have "ranked ?rk (graph_of (wf ?s))"
    by (auto simp: ranked_def graph_of_def graph_of_activities_def demo_state_def
        registered_workflow_def registered_info demo_step_def info_of_registration_def
        registeredInfo_def placeholderInfo_def split: if_splits)
  note completes = Execute_completes [OF env this, of 2 "[]" "''b''"]
  have "?rk (firstActivity (wf ?s)) < 2" by simp
  moreover have "history ?s = []" "activity (wf ?s) (firstActivity (wf ?s)) \<noteq> None"
    by (simp_all add: demo_defs AddTransitionActivityWithOptions_def Let_def)
  ultimately show ?thesis using completes by auto
qed

text \<open>
  C10: On a graph without cycles \<open>Execute\<close> returns (or is parked) after at most as
  many turns as the rank of the start node allows.
\<close>

theorem Execute_terminates_acyclic:
  assumes "ranked rk (graph_of (wf s))" and "rk (firstActivity (wf s)) < fuel"
  shows "post (Execute order fuel k D data s) (\<lambda>_ _. True) (\<lambda>_. True) (\<lambda>_. False)"
  by (rule Execute_ranked [OF assms])

theorem Execute_terminates_acyclic_witness:
  "post (Execute [] 2 (demo_sdk None (RawMessage ''null'') None) demo_data (Some ''b'')
      (demo_state [demo_step ''a'' '''' [''b''], demo_step ''b'' ''go'' []]))
     (\<lambda>_ _. True) (\<lambda>_. True) (\<lambda>_. False)"
proof (rule Execute_terminates_acyclic [where rk = "\<lambda>n. if n = ''a'' then 1 else 0"])
  show "ranked (\<lambda>n. if n = ''a'' then 1 else 0)
      (graph_of (wf (demo_state [demo_step ''a'' '''' [''b''], demo_step ''b'' ''go'' []])))"
    by (auto simp: ranked_def graph_of_def graph_of_activities_def demo_state_def
        registered_workflow_def registered_info demo_step_def info_of_registration_def
        registeredInfo_def placeholderInfo_def split: if_splits)
qed simp

text \<open>Once \<open>Execute\<close> has returned or is parked, more turns change nothing: the bound is no part of the result.\<close>

theorem Execute_fuel_independent:
  assumes "\<forall>t. Execute order fuel k D data s \<noteq> Running t"
  shows "Execute order (fuel + n) k D data s = Execute order fuel k D data s"
  by (rule Execute_more [OF assms])

theorem Execute_fuel_independent_witness:
  "Execute [] (2 + 5) (demo_sdk None (RawMessage ''null'') None) demo_data (Some ''b'')
      (demo_state [demo_step ''a'' '''' [''b''], demo_step ''b'' ''go'' []]) =
   Execute [] 2 (demo_sdk None (RawMessage ''null'') None) demo_data (Some ''b'')
      (demo_state [demo_step ''a'' '''' [''b''], demo_step ''b'' ''go'' []])"
proof (rule Execute_fuel_independent)
  let ?s = "demo_state [demo_step ''a'' '''' [''b''], demo_step ''b'' ''go'' []]"
  have "post (Execute [] 2 (demo_sdk None (RawMessage ''null'') None) demo_data (Some ''b'') ?s)
      (\<lambda>_ _. True) (\<lambda>_. True) (\<lambda>_. False)"
    by (rule Execute_ranked [where rk = "\<lambda>n. if n = ''a'' then 1 else 0"])
      (auto simp: ranked_def graph_of_def graph_of_activities_def demo_state_def
        registered_workflow_def registered_info demo_step_def info_of_registration_def
        registeredInfo_def placeholderInfo_def split: if_splits)
  then show "\<forall>t. Execute [] 2 (demo_sdk None (RawMessage ''null'') None) demo_data (Some ''b'') ?s
      \<noteq> Running t" by (auto dest: post_Running)
qed


text \<open>No registered activity has a search attribute.\<close>

lemma registered_no_attribute:
  fixes register :: "string \<Rightarrow> 'f option \<Rightarrow> 'c \<Rightarrow> 'c" and client :: 'c and w :: 'w
  shows "statusSearchAttribute order (activity (wf (registered_workflow register rs client w :: ('p, 'f, 'c, 'w) wstate))) = ''''"
proof -
  let ?act = "activity (wf (registered_workflow register rs client w :: ('p, 'f, 'c, 'w) wstate))"
  have "StatusSearchAttribute (resumableOptionsOf (infoAt ?act c)) = ''''" for c
    using option_free_registered [of register rs client, where 'a = 'p]
    by (simp add: registered_workflow_def option_free_def graph_of_def graph_of_activities_def fun_eq_iff)
  then have attr: "StatusSearchAttribute (resumableOptionsOf (infoAt ?act c)) = ''''" for c
    by blast
  have none: "StatusSearchAttribute r = ''''" if "?act c = Some info" and "Resumable info = Some r" for c info r
    using attr [of c] unfolding infoAt_def that(1) option.case
    by (simp add: resumableOptionsOf_def Let_def that(2) split: if_splits)
  show ?thesis by (induction order) (auto simp: none split: option.splits)
qed

text \<open>One turn of an activity that names itself: it has run once more, and is the next again.\<close>

lemma applyBranchLoop_named: "GetActivity D d = c \<Longrightarrow> c \<in> set ns \<Longrightarrow> applyBranchLoop D ns d = SetActivity D c d"
  by (induction ns) auto

lemma nextLoop_named: "c \<in> set ns \<Longrightarrow> act c \<noteq> None \<Longrightarrow> nextLoop act ns c = Some c"
  by (induction ns) auto

lemma executeLoop_self:
  assumes "activity (wf s) c = Some info" and "SignalEvent info = ''''" and "NextActivities info = Some ns"
    and "c \<in> set ns" and "c \<noteq> ''''" and "\<And>d. GetActivity D (SetActivity D c d) = c"
    and "\<And>d w. \<exists>upd w'. ExecuteActivity k (ActivityOpts info) (ActivityFn info) (Some d) w = FutureGet None upd w' \<and>
      GetActivity D (upd d) = c"
  shows "\<exists>t. executeLoop fuel k D attr (Some c) (Some d) s = Running t \<and>
    activities (history t) = activities (history s) @ replicate fuel c"
  using assms
proof (induction fuel arbitrary: d s)
  case (Suc fuel)
  obtain upd w' where call: "ExecuteActivity k (ActivityOpts info) (ActivityFn info) (Some d) (world s) =
      FutureGet None upd w'" "GetActivity D (upd d) = c"
    using Suc.prems(7) by blast
  let ?s1 = "emit (EvActivity c) (s\<lparr>world := w'\<rparr>)"
  have info: "deref s c = info" "deref ?s1 c = info" using Suc.prems(1) by (simp_all add: deref_def infoAt_def)
  have "applyBranch D info (Some (upd d)) = (None, Some (SetActivity D c (upd d)))"
    using Suc.prems(3-5) call(2) by (simp add: applyBranch_def applyBranchLoop_named)
  then have run: "runActivity k D c (Some d) s = Return (None, Some (SetActivity D c (upd d))) ?s1"
    using Suc.prems(2) call by (simp add: runActivity_def Let_def callActivity_def info)
  have "getNextActivity (activity (wf ?s1)) info c = Some c"
    using Suc.prems(1,3,4) by (simp add: getNextActivity_def nextLoop_named)
  then have "executeLoop (Suc fuel) k D attr (Some c) (Some d) s =
      executeLoop fuel k D attr (Some c) (Some (SetActivity D c (upd d))) ?s1"
    using Suc.prems(3,5,6) run by (simp add: info)
  moreover obtain t where "executeLoop fuel k D attr (Some c) (Some (SetActivity D c (upd d))) ?s1 = Running t"
    "activities (history t) = activities (history ?s1) @ replicate fuel c"
    using Suc.IH [of ?s1 "SetActivity D c (upd d)"] Suc.prems by auto
  ultimately show ?case by simp
qed simp

text \<open>
  C11: Nothing in \<open>Execute\<close> bounds the number of activities. When the start node is a plain
  activity that was declared among its own successors, and each of its runs succeeds and
  leaves data that name it, then after any number of turns \<open>Execute\<close> is still running and
  has run this activity once in each turn.
\<close>

theorem Execute_self_transition_diverges:
  fixes register :: "string \<Rightarrow> 'f option \<Rightarrow> 'c \<Rightarrow> 'c" and client :: 'c and w :: 'w
  assumes "rs = r0 # rs'" and "last_registration rs (reg_name r0) = Some r" and "reg_signal r = ''''"
    and "reg_name r \<in> set (reg_next r)" and "reg_name r \<noteq> ''''"
    and "\<And>d. GetActivity D (SetActivity D (reg_name r) d) = reg_name r"
    and "\<And>d w. \<exists>upd w'. ExecuteActivity k (reg_options r) (reg_fn r) (Some d) w = FutureGet None upd w' \<and>
      GetActivity D (upd d) = reg_name r"
    and "\<And>q w. fst (SetQueryHandler k q w) = None"
  shows "\<exists>t. Execute order fuel k D (Some d) (registered_workflow register rs client w :: ('p, 'f, 'c, 'w) wstate) =
      Running t \<and> activities (history t) = replicate fuel (reg_name r)"
proof -
  let ?s = "registered_workflow register rs client w :: ('p, 'f, 'c, 'w) wstate" and ?c = "reg_name r"
  let ?i = "info_of_registration r"
  have name: "reg_name r0 = ?c" using last_registration_Some [OF assms(2)] by simp
  have act: "activity (wf ?s) ?c = Some ?i"
    using assms(2) by (simp add: registered_workflow_def register_all_activity name)
  have first: "firstActivity (wf ?s) = ?c"
    using register_all_first [of "NewWorkflowExecution client :: ('p, 'f, 'c) WorkflowExecutionData" register rs] name
    by (simp add: registered_workflow_def assms(1))
  have attr: "statusSearchAttribute order (activity (wf ?s)) = ''''" by (rule registered_no_attribute)
  obtain w' where query: "SetQueryHandler k QueryGetStatus w = (None, w')"
    using assms(8) [of QueryGetStatus w] by (metis prod.collapse)
  have self: "\<exists>t. executeLoop fuel k D '''' (Some ?c) (Some d) u = Running t \<and>
      activities (history t) = activities (history u) @ replicate fuel ?c"
    if "activity (wf u) = activity (wf ?s)" for u :: "('p, 'f, 'c, 'w) wstate"
    by (rule executeLoop_self [where info = ?i and ns = "reg_next r"])
      (use assms(3-7) act that in \<open>auto simp: info_of_registration_def registeredInfo_def\<close>)
  let ?u = "emit (EvQuery QueryGetStatus) ((emit (EvStatus StatusPending)
    (?s\<lparr>wf := (wf ?s)\<lparr>StartedAt := Some (time_Now k w), Status := StatusPending\<rparr>\<rparr>))\<lparr>world := w'\<rparr>)"
  obtain t where t: "executeLoop fuel k D '''' (Some ?c) (Some d) ?u = Running t"
    "activities (history t) = replicate fuel ?c"
    using self [of ?u] by (auto simp: registered_workflow_def)
  have world: "world ?s = w" by (simp add: registered_workflow_def)
  show ?thesis
    using t query act
    by (simp add: Execute_def Let_def lookupActivity_def first attr setExecutionStatus_def registerStatusQuery_def world)
qed

text \<open>An activity that polls: it may go on to \<open>done\<close>, but each run names \<open>poll\<close> again.\<close>

definition poll_sdk :: "(string, unit, string, nat) sdk" where
  "poll_sdk = (demo_sdk None (Value '''') None)\<lparr>ExecuteActivity := (\<lambda>opts f d w. FutureGet None (\<lambda>_. ''poll'') (w + 1))\<rparr>"

theorem Execute_self_transition_diverges_witness:
  "\<exists>t. Execute [] 7 poll_sdk demo_data (Some '''')
      (registered_workflow (\<lambda>_ _ c. c) [demo_step ''poll'' '''' [''done'', ''poll'']] () 0 :: (unit, unit, unit, nat) wstate) =
    Running t \<and> activities (history t) = replicate 7 ''poll''"
  using Execute_self_transition_diverges [of "[demo_step ''poll'' '''' [''done'', ''poll'']]"
      "demo_step ''poll'' '''' [''done'', ''poll'']" "[]" "demo_step ''poll'' '''' [''done'', ''poll'']"
      demo_data poll_sdk "[]" 7 "''''" "\<lambda>_ _ c. c" "()" 0, where 'p = unit]
  by (simp add: demo_step_def demo_data_def poll_sdk_def demo_sdk_def)


section \<open>What \<open>Execute\<close> leaves alone\<close>

text \<open>
  \<open>Execute\<close> changes of its receiver only the status, the times and the stored
  options: identifiers, execution data, query type, client, start node and the graph
  (signals, successors, attempts, approvals) are the same wherever it stops.
\<close>

theorem Execute_frame:
  "post (Execute order fuel k D data s)
     (\<lambda>_ s'. same_frame s s' \<and> graph_of (wf s') = graph_of (wf s))
     (\<lambda>s'. same_frame s s' \<and> graph_of (wf s') = graph_of (wf s))
     (\<lambda>s'. same_frame s s' \<and> graph_of (wf s') = graph_of (wf s))"
  using post_conj [OF frame.Execute_R graph_frame.Execute_R] by (simp add: same_graph_def)

text \<open>
  A plain activity reports no status of its own: while it runs, and after it, the
  status is the one the step before it left, so a step after an approval still shows
  \<open>AWAITING_APPROVAL\<close>.
\<close>

theorem plain_activity_keeps_status:
  assumes "SignalEvent (deref s c) = ''''"
  shows "post (runActivity k D c data s)
     (\<lambda>_ s'. Status (wf s') = Status (wf s)) (\<lambda>s'. Status (wf s') = Status (wf s)) (\<lambda>_. False)"
proof -
  have "post (callActivity k opts c data s)
      (\<lambda>_ s'. Status (wf s') = Status (wf s)) (\<lambda>s'. Status (wf s') = Status (wf s)) (\<lambda>_. False)" for opts
    by (simp add: callActivity_def split: future.splits)
  then show ?thesis
    using assms by (auto simp: runActivity_def Let_def split: option.splits intro!: post_seq)
qed

theorem plain_activity_keeps_status_witness:
  "post (runActivity (demo_sdk None (RawMessage ''null'') None) demo_data ''ship'' (Some ''ship'')
      (demo_state [demo_step ''ship'' '''' []]))
     (\<lambda>_ s'. Status (wf s') = '''') (\<lambda>s'. Status (wf s') = '''') (\<lambda>_. False)"
  using plain_activity_keeps_status [of "demo_state [demo_step ''ship'' '''' []]" "''ship''"
      "demo_sdk None (RawMessage ''null'') None" demo_data "Some ''ship''"]
  by (simp add: demo_deref demo_step_def info_of_registration_def registeredInfo_def
      demo_Status)

text \<open>
  If reporting the first status fails, \<open>Execute\<close> returns that error at once: no
  activity is run, and the status stays \<open>PENDING\<close> instead of becoming \<open>FAILED\<close>.
\<close>

theorem Execute_setup_failure:
  assumes "statusSearchAttribute order (activity (wf s)) = attr" and "attr \<noteq> ''''"
    and "UpsertSearchAttributes k attr StatusPending (world s) = (Some e, w')"
  shows "\<exists>s'. Execute order fuel k D data s = Return (Some e, data) s' \<and>
     Status (wf s') = StatusPending \<and>
     history s' = history s @ [EvStatus StatusPending, EvUpsert attr StatusPending]"
  using assms by (simp add: Execute_def Let_def setExecutionStatus_def)

definition attributed :: "string \<Rightarrow> (unit, unit, unit, nat) wstate" where
  "attributed attr = setResumable ''a'' (zeroResumableOptions\<lparr>StatusSearchAttribute := attr\<rparr>)
     (demo_state [demo_step ''a'' ''go'' []])"

theorem Execute_setup_failure_witness:
  "\<exists>s'. Execute [''a''] 1 (demo_sdk None (RawMessage ''null'') (Some (External ''BadSearchAttributes'')))
      demo_data (Some '''') (attributed ''WorkflowStatus'') =
      Return (Some (External ''BadSearchAttributes''), Some '''') s' \<and>
     Status (wf s') = StatusPending \<and>
     history s' = history (attributed ''WorkflowStatus'') @
       [EvStatus StatusPending, EvUpsert ''WorkflowStatus'' StatusPending]"
  by (rule Execute_setup_failure [where w' = 0])
    (simp_all add: attributed_def setResumable_def demo_defs zeroResumableOptions_def)


section \<open>The options of a step\<close>

text \<open>
  A gated activity is called with a non-zero start-to-close timeout and with a
  retry policy: its own, or one with the step's retry attempts, which are positive.
\<close>

theorem resumable_context_bounded:
  "StartToCloseTimeout (resumableActivityContext (info\<lparr>Resumable := Some (resumableOptionsOf info)\<rparr>)) \<noteq> 0 \<and>
   (case ActivityRetryPolicy (resumableActivityContext (info\<lparr>Resumable := Some (resumableOptionsOf info)\<rparr>)) of
      None \<Rightarrow> False
    | Some p \<Rightarrow>
       (case Option.bind (ActivityOpts info) ActivityRetryPolicy of
          None \<Rightarrow> 0 < MaximumAttempts p \<and>
            MaximumAttempts p = ActivityRetryAttempts (resumableOptionsOf info)
        | Some own \<Rightarrow> p = own))"
  by (cases "ActivityOpts info")
    (auto simp: resumableActivityContext_def Let_def resumableOptionsOf_def
      defaultStartToCloseTimeout_def split: option.splits)

text \<open>The attribute the record under a key asks for.\<close>

definition requested_attr :: "(string \<rightharpoonup> 'f ActivityExecutionInfo) \<Rightarrow> string \<Rightarrow> string" where
  "requested_attr act n = (case act n of None \<Rightarrow> '''' | Some info \<Rightarrow>
     (case Resumable info of None \<Rightarrow> '''' | Some r \<Rightarrow> StatusSearchAttribute r))"

lemma statusSearchAttribute_requested:
  assumes "\<And>n. requested_attr act n \<in> {'''', a}"
  shows "statusSearchAttribute order act =
    (if \<exists>n \<in> set order. requested_attr act n \<noteq> '''' then a else '''')"
proof (induction order)
  case (Cons n order)
  then show ?case
    using assms [of n] by (auto simp: requested_attr_def split: option.splits)
qed simp

text \<open>
  The search attribute a workflow reports under is found by ranging over a map;
  it depends on the order of that range only if two activities ask for different
  attributes.
\<close>

theorem statusSearchAttribute_order:
  assumes "set order = set order'" and "\<And>n. requested_attr act n \<in> {'''', a}"
  shows "statusSearchAttribute order act = statusSearchAttribute order' act"
  using statusSearchAttribute_requested [OF assms(2)] assms(1) by simp

theorem statusSearchAttribute_order_witness:
  "statusSearchAttribute [''a'', ''b''] (activity (wf (attributed ''S''))) =
   statusSearchAttribute [''b'', ''a''] (activity (wf (attributed ''S'')))"
proof (rule statusSearchAttribute_order [where a = "''S''"])
  show "requested_attr (activity (wf (attributed ''S''))) n \<in> {'''', ''S''}" for n
    by (auto simp: requested_attr_def attributed_def setResumable_def zeroResumableOptions_def
        demo_state_def registered_workflow_def register_all_activity info_of_registration_def
        demo_step_def registeredInfo_def split: option.splits if_splits)
qed auto

end
