(* ===== verification/Go_Fmt.thy ===== *)
theory Go_Fmt
  imports Go_Prelude
begin

text \<open>
  \<open>fmt.Sprintf\<close> for the verbs \<open>%s\<close>, \<open>%d\<close> and \<open>%v\<close>, with what it prints when the
  arguments do not fit the format: an argument that is missing, of the wrong kind, or
  left over.
\<close>

datatype fmt_arg =
    FString string
  | FUint64 uint64
  | FInt int

fun fmt_value :: "fmt_arg \<Rightarrow> string" where
  "fmt_value (FString s) = s"
| "fmt_value (FUint64 w) = uint64_text w"
| "fmt_value (FInt i) = int_text i"

fun fmt_type :: "fmt_arg \<Rightarrow> string" where
  "fmt_type (FString s) = ''string''"
| "fmt_type (FUint64 w) = ''uint64''"
| "fmt_type (FInt i) = ''int''"

definition fmt_bad :: "char \<Rightarrow> fmt_arg \<Rightarrow> string" where
  "fmt_bad verb a = ''%!'' @ [verb] @ ''('' @ fmt_type a @ ''='' @ fmt_value a @ '')''"

fun fmt_verb :: "char \<Rightarrow> fmt_arg \<Rightarrow> string" where
  "fmt_verb verb (FString s) =
    (if verb \<in> {CHR ''s'', CHR ''v''} then s else fmt_bad verb (FString s))"
| "fmt_verb verb a =
    (if verb \<in> {CHR ''d'', CHR ''v''} then fmt_value a else fmt_bad verb a)"

text \<open>The arguments left over: \<open>%!(EXTRA type=value, ...)\<close>.\<close>

fun fmt_items :: "fmt_arg list \<Rightarrow> string" where
  "fmt_items [] = ''''"
| "fmt_items [a] = fmt_type a @ ''='' @ fmt_value a"
| "fmt_items (a # as) = fmt_type a @ ''='' @ fmt_value a @ '', '' @ fmt_items as"

definition fmt_extra :: "fmt_arg list \<Rightarrow> string" where
  "fmt_extra as = (if as = [] then '''' else ''%!(EXTRA '' @ fmt_items as @ '')'')"

lemma fmt_extra_Nil [simp]: "fmt_extra [] = ''''"
  by (simp add: fmt_extra_def)

fun Sprintf :: "string \<Rightarrow> fmt_arg list \<Rightarrow> string" where
  "Sprintf [] as = fmt_extra as"
| "Sprintf [c] as = (if c = CHR ''%'' then ''%!(NOVERB)'' else [c]) @ fmt_extra as"
| "Sprintf (c # d # cs) as =
    (if c \<noteq> CHR ''%'' then c # Sprintf (d # cs) as
     else if d = CHR ''%'' then CHR ''%'' # Sprintf cs as
     else (case as of
             [] \<Rightarrow> ''%!'' @ [d] @ ''(MISSING)'' @ Sprintf cs []
           | a # as' \<Rightarrow> fmt_verb d a @ Sprintf cs as'))"

lemma Sprintf_char: "c \<noteq> CHR ''%'' \<Longrightarrow> Sprintf (c # cs) as = c # Sprintf cs as"
  by (cases cs) simp_all

lemma Sprintf_plain: "CHR ''%'' \<notin> set cs \<Longrightarrow> Sprintf (cs @ rest) as = cs @ Sprintf rest as"
  by (induction cs) (auto simp: Sprintf_char)

lemma Sprintf_string: "Sprintf (CHR ''%'' # CHR ''s'' # cs) (FString s # as) = s @ Sprintf cs as"
  by simp

text \<open>\<open>"%s:%s"\<close>, the form of every network address in the code.\<close>

lemma Sprintf_address: "Sprintf ''%s:%s'' [FString host, FString port] = host @ '':'' @ port"
  by (simp add: fmt_extra_def)

end
