(* ===== verification/Temporal_Client.thy ===== *)
theory Temporal_Client
  imports Go_Fmt Temporal_Workflow
begin

text \<open>
  \<open>temporal/temporal.go\<close>: the client, the interface \<open>Temporal\<close> it implements, and the
  methods of \<open>WorkflowExecutionData\<close> (\<open>workflow.go\<close>) that only call it. The SDK's client
  and worker are the record \<open>sdk_client\<close> of functions on a world.
\<close>

section \<open>Configuration and options\<close>

record TemporalConfig =
  Host :: string
  Port :: string
  Namespace :: string
  TaskQueue :: string
  MaxConcurrentActivityExecutionSize :: int
  WorkerActivitiesPerSecond :: "64 word"
  MaxConcurrentLocalActivityExecutionSize :: int
  WorkerLocalActivitiesPerSecond :: "64 word"

record StartWorkflowOptions =
  so_WorkflowID :: string
  so_TaskQueue :: string
  so_WorkflowExecutionTimeout :: int
  so_WorkflowRunTimeout :: int
  so_WorkflowTaskTimeout :: int
  so_RetryPolicy :: "RetryPolicy option"

text \<open>The SDK's start, client, worker and update options, with the fields the code sets.\<close>

record client_StartWorkflowOptions =
  co_ID :: string
  co_TaskQueue :: string
  co_WorkflowExecutionTimeout :: int
  co_WorkflowRunTimeout :: int
  co_WorkflowTaskTimeout :: int
  co_RetryPolicy :: "RetryPolicy option"

record client_Options =
  HostPort :: string
  opt_Namespace :: string
  GetSystemInfoTimeout :: int

record worker_Options =
  wo_MaxConcurrentActivityExecutionSize :: int
  wo_WorkerActivitiesPerSecond :: "64 word"
  wo_MaxConcurrentLocalActivityExecutionSize :: int
  wo_WorkerLocalActivitiesPerSecond :: "64 word"

record 'v client_UpdateOptions =
  uo_WorkflowID :: string
  uo_RunID :: string
  uo_WaitForStage :: int
  uo_UpdateName :: string
  uo_Args :: "'v list"

text \<open>Clients and workers are handles of types \<^typ>\<open>'cl\<close> and \<^typ>\<open>'wk\<close>.\<close>

record ('fn, 'v, 'run, 'h, 'enc, 'cl, 'wk, 'w) sdk_client =
  NewClient :: "client_Options \<Rightarrow> 'w \<Rightarrow> (go_error + 'cl) \<times> 'w"
  worker_New :: "'cl \<Rightarrow> string \<Rightarrow> worker_Options \<Rightarrow> 'wk"
  cl_ExecuteWorkflow :: "'cl \<Rightarrow> client_StartWorkflowOptions \<Rightarrow> 'fn \<Rightarrow> 'v list \<Rightarrow> 'w \<Rightarrow> (go_error + 'run) \<times> 'w"
  cl_SignalWorkflow :: "'cl \<Rightarrow> string \<Rightarrow> string \<Rightarrow> string \<Rightarrow> 'v \<Rightarrow> 'w \<Rightarrow> err \<times> 'w"
  cl_QueryWorkflow :: "'cl \<Rightarrow> string \<Rightarrow> string \<Rightarrow> string \<Rightarrow> 'v list \<Rightarrow> 'w \<Rightarrow> (go_error + 'enc) \<times> 'w"
  enc_Get :: "'enc \<Rightarrow> go_error + 'v option"
  cl_CancelWorkflow :: "'cl \<Rightarrow> string \<Rightarrow> string \<Rightarrow> 'w \<Rightarrow> err \<times> 'w"
  cl_GetWorkflow :: "'cl \<Rightarrow> string \<Rightarrow> string \<Rightarrow> 'run"
  run_Get :: "'run \<Rightarrow> 'w \<Rightarrow> (go_error + 'v) \<times> 'w"
  cl_UpdateWorkflow :: "'cl \<Rightarrow> 'v client_UpdateOptions \<Rightarrow> 'w \<Rightarrow> (go_error + 'h) \<times> 'w"
  wk_RegisterWorkflow :: "'wk \<Rightarrow> 'fn \<Rightarrow> string \<Rightarrow> 'w \<Rightarrow> unit call \<times> 'w"
  wk_RegisterActivity :: "'wk \<Rightarrow> 'fn \<Rightarrow> string \<Rightarrow> 'w \<Rightarrow> unit call \<times> 'w"
  wk_Start :: "'wk \<Rightarrow> 'w \<Rightarrow> err \<times> 'w"
  wk_Stop :: "'wk \<Rightarrow> 'w \<Rightarrow> 'w"

record 'fn WorkflowDefinition =
  wd_Name :: string
  wd_Fn :: 'fn

record 'fn ActivityDefinition =
  ad_Name :: string
  ad_Fn :: 'fn

record ('cl, 'wk) temporalClient =
  tc_worker :: "'wk option"
  tc_client :: 'cl
  tc_taskQueue :: string


section \<open>The client (temporal.go)\<close>

definition NewTemporalClient ::
    "('fn, 'v, 'run, 'h, 'enc, 'cl, 'wk, 'w) sdk_client \<Rightarrow> TemporalConfig \<Rightarrow> 'w
       \<Rightarrow> (go_error + ('cl, 'wk) temporalClient) \<times> 'w" where
  "NewTemporalClient K config w =
    (let opts = \<lparr>HostPort = Sprintf ''%s:%s'' [FString (Host config), FString (Port config)],
           opt_Namespace = Namespace config, GetSystemInfoTimeout = 15 * 1000000000\<rparr>
     in (case NewClient K opts w of
           (Inl e, w') \<Rightarrow> (Inl e, w')
         | (Inr client, w') \<Rightarrow>
            (let workerOptions = \<lparr>
                   wo_MaxConcurrentActivityExecutionSize = MaxConcurrentActivityExecutionSize config,
                   wo_WorkerActivitiesPerSecond = WorkerActivitiesPerSecond config,
                   wo_MaxConcurrentLocalActivityExecutionSize = MaxConcurrentLocalActivityExecutionSize config,
                   wo_WorkerLocalActivitiesPerSecond = WorkerLocalActivitiesPerSecond config\<rparr>;
                 taskQueue = (if TaskQueue config = '''' then ''default'' else TaskQueue config)
             in (Inr \<lparr>tc_worker = Some (worker_New K client taskQueue workerOptions),
                   tc_client = client, tc_taskQueue = taskQueue\<rparr>, w'))))"

text \<open>
  The methods that use the worker panic when it is nil, \<open>Stop\<close> excepted; every client
  \<open>NewTemporalClient\<close> makes has one. The worker itself may refuse a registration with a
  panic, which passes through.
\<close>

definition RegisterWorkflow ::
    "('fn, 'v, 'run, 'h, 'enc, 'cl, 'wk, 'w) sdk_client \<Rightarrow> ('cl, 'wk) temporalClient
       \<Rightarrow> 'fn WorkflowDefinition \<Rightarrow> 'w \<Rightarrow> unit call \<times> 'w" where
  "RegisterWorkflow K t def w =
    (case tc_worker t of
       None \<Rightarrow> (Panics, w)
     | Some worker \<Rightarrow> wk_RegisterWorkflow K worker (wd_Fn def) (wd_Name def) w)"

definition RegisterActivity ::
    "('fn, 'v, 'run, 'h, 'enc, 'cl, 'wk, 'w) sdk_client \<Rightarrow> ('cl, 'wk) temporalClient
       \<Rightarrow> 'fn ActivityDefinition \<Rightarrow> 'w \<Rightarrow> unit call \<times> 'w" where
  "RegisterActivity K t def w =
    (case tc_worker t of
       None \<Rightarrow> (Panics, w)
     | Some worker \<Rightarrow> wk_RegisterActivity K worker (ad_Fn def) (ad_Name def) w)"

definition startOptions :: "string \<Rightarrow> StartWorkflowOptions \<Rightarrow> client_StartWorkflowOptions" where
  "startOptions clientQueue opts =
    (let taskQueue = (if so_TaskQueue opts \<noteq> '''' then so_TaskQueue opts else clientQueue);
         startOpts = \<lparr>co_ID = so_WorkflowID opts, co_TaskQueue = taskQueue,
           co_WorkflowExecutionTimeout = so_WorkflowExecutionTimeout opts,
           co_WorkflowRunTimeout = so_WorkflowRunTimeout opts,
           co_WorkflowTaskTimeout = so_WorkflowTaskTimeout opts, co_RetryPolicy = None\<rparr>
     in (case so_RetryPolicy opts of
           None \<Rightarrow> startOpts
         | Some rp \<Rightarrow> startOpts\<lparr>co_RetryPolicy := Some \<lparr>InitialInterval = InitialInterval rp,
             BackoffCoefficient = BackoffCoefficient rp, MaximumInterval = MaximumInterval rp,
             MaximumAttempts = MaximumAttempts rp\<rparr>\<rparr>))"

definition StartWorkflow ::
    "('fn, 'v, 'run, 'h, 'enc, 'cl, 'wk, 'w) sdk_client \<Rightarrow> ('cl, 'wk) temporalClient
       \<Rightarrow> StartWorkflowOptions \<Rightarrow> 'fn \<Rightarrow> 'v list \<Rightarrow> 'w \<Rightarrow> (go_error + 'run) \<times> 'w" where
  "StartWorkflow K t opts workflowFn args w =
    cl_ExecuteWorkflow K (tc_client t) (startOptions (tc_taskQueue t) opts) workflowFn args w"

definition SignalWorkflow ::
    "('fn, 'v, 'run, 'h, 'enc, 'cl, 'wk, 'w) sdk_client \<Rightarrow> ('cl, 'wk) temporalClient
       \<Rightarrow> string \<Rightarrow> string \<Rightarrow> string \<Rightarrow> 'v \<Rightarrow> 'w \<Rightarrow> err \<times> 'w" where
  "SignalWorkflow K t workflowID runID signalName arg w =
    cl_SignalWorkflow K (tc_client t) workflowID runID signalName arg w"

definition QueryWorkflow ::
    "('fn, 'v, 'run, 'h, 'enc, 'cl, 'wk, 'w) sdk_client \<Rightarrow> ('cl, 'wk) temporalClient
       \<Rightarrow> string \<Rightarrow> string \<Rightarrow> string \<Rightarrow> 'v list \<Rightarrow> 'w \<Rightarrow> (go_error + 'v option) \<times> 'w" where
  "QueryWorkflow K t workflowID runID queryType args w =
    (case cl_QueryWorkflow K (tc_client t) workflowID runID queryType args w of
       (Inl e, w') \<Rightarrow> (Inl e, w')
     | (Inr resp, w') \<Rightarrow> (enc_Get K resp, w'))"

definition CancelWorkflow ::
    "('fn, 'v, 'run, 'h, 'enc, 'cl, 'wk, 'w) sdk_client \<Rightarrow> ('cl, 'wk) temporalClient
       \<Rightarrow> string \<Rightarrow> 'w \<Rightarrow> err \<times> 'w" where
  "CancelWorkflow K t workflowID w = cl_CancelWorkflow K (tc_client t) workflowID '''' w"

definition GetWorkflowResult ::
    "('fn, 'v, 'run, 'h, 'enc, 'cl, 'wk, 'w) sdk_client \<Rightarrow> ('cl, 'wk) temporalClient
       \<Rightarrow> string \<Rightarrow> string \<Rightarrow> 'w \<Rightarrow> (go_error + 'v) \<times> 'w" where
  "GetWorkflowResult K t workflowID runID w = run_Get K (cl_GetWorkflow K (tc_client t) workflowID runID) w"

definition UpdateWorkflow ::
    "('fn, 'v, 'run, 'h, 'enc, 'cl, 'wk, 'w) sdk_client \<Rightarrow> ('cl, 'wk) temporalClient
       \<Rightarrow> string \<Rightarrow> string \<Rightarrow> string \<Rightarrow> int \<Rightarrow> 'v \<Rightarrow> 'w \<Rightarrow> (go_error + 'h) \<times> 'w" where
  "UpdateWorkflow K t queryName workflowID runID stage arg w =
    (case cl_UpdateWorkflow K (tc_client t) \<lparr>uo_WorkflowID = workflowID, uo_RunID = runID,
         uo_WaitForStage = stage, uo_UpdateName = queryName, uo_Args = [arg]\<rparr> w of
       (Inl e, w') \<Rightarrow> (Inl e, w')
     | (Inr handle, w') \<Rightarrow> (Inr handle, w'))"

definition Start ::
    "('fn, 'v, 'run, 'h, 'enc, 'cl, 'wk, 'w) sdk_client \<Rightarrow> ('cl, 'wk) temporalClient \<Rightarrow> 'w \<Rightarrow> err call \<times> 'w" where
  "Start K t w =
    (case tc_worker t of
       None \<Rightarrow> (Panics, w)
     | Some worker \<Rightarrow> (case wk_Start K worker w of (e, w') \<Rightarrow> (Returns e, w')))"

definition Stop ::
    "('fn, 'v, 'run, 'h, 'enc, 'cl, 'wk, 'w) sdk_client \<Rightarrow> ('cl, 'wk) temporalClient \<Rightarrow> 'w \<Rightarrow> 'w" where
  "Stop K t w = (case tc_worker t of None \<Rightarrow> w | Some worker \<Rightarrow> wk_Stop K worker w)"

text \<open>\<open>workflow_GetInfo\<close> is the SDK's \<open>workflow.GetInfo\<close> on a workflow context.\<close>

definition GetWorkflowInfo :: "('ctx \<Rightarrow> 'info) \<Rightarrow> 'ctx \<Rightarrow> 'info \<times> err" where
  "GetWorkflowInfo workflow_GetInfo workflowCtx = (let info = workflow_GetInfo workflowCtx in (info, None))"


section \<open>The interface Temporal (interface.go)\<close>

record ('fn, 'v, 'run, 'h, 'ctx, 'info, 'w) Temporal =
  m_RegisterWorkflow :: "'fn WorkflowDefinition \<Rightarrow> 'w \<Rightarrow> unit call \<times> 'w"
  m_RegisterActivity :: "'fn ActivityDefinition \<Rightarrow> 'w \<Rightarrow> unit call \<times> 'w"
  m_GetWorkflowInfo :: "'ctx \<Rightarrow> 'info \<times> err"
  m_StartWorkflow :: "StartWorkflowOptions \<Rightarrow> 'fn \<Rightarrow> 'v list \<Rightarrow> 'w \<Rightarrow> (go_error + 'run) \<times> 'w"
  m_SignalWorkflow :: "string \<Rightarrow> string \<Rightarrow> string \<Rightarrow> 'v \<Rightarrow> 'w \<Rightarrow> err \<times> 'w"
  m_QueryWorkflow :: "string \<Rightarrow> string \<Rightarrow> string \<Rightarrow> 'v list \<Rightarrow> 'w \<Rightarrow> (go_error + 'v option) \<times> 'w"
  m_CancelWorkflow :: "string \<Rightarrow> 'w \<Rightarrow> err \<times> 'w"
  m_GetWorkflowResult :: "string \<Rightarrow> string \<Rightarrow> 'w \<Rightarrow> (go_error + 'v) \<times> 'w"
  m_UpdateWorkflow :: "string \<Rightarrow> string \<Rightarrow> string \<Rightarrow> int \<Rightarrow> 'v \<Rightarrow> 'w \<Rightarrow> (go_error + 'h) \<times> 'w"
  m_Start :: "'w \<Rightarrow> err call \<times> 'w"
  m_Stop :: "'w \<Rightarrow> 'w"

text \<open>A \<open>*temporalClient\<close> as a value of the interface, as \<open>NewTemporalClient\<close> returns it.\<close>

definition temporalClient_Temporal ::
    "('fn, 'v, 'run, 'h, 'enc, 'cl, 'wk, 'w) sdk_client \<Rightarrow> ('ctx \<Rightarrow> 'info) \<Rightarrow> ('cl, 'wk) temporalClient
       \<Rightarrow> ('fn, 'v, 'run, 'h, 'ctx, 'info, 'w) Temporal" where
  "temporalClient_Temporal K workflow_GetInfo t = \<lparr>
     m_RegisterWorkflow = RegisterWorkflow K t, m_RegisterActivity = RegisterActivity K t,
     m_GetWorkflowInfo = GetWorkflowInfo workflow_GetInfo, m_StartWorkflow = StartWorkflow K t,
     m_SignalWorkflow = SignalWorkflow K t, m_QueryWorkflow = QueryWorkflow K t,
     m_CancelWorkflow = CancelWorkflow K t, m_GetWorkflowResult = GetWorkflowResult K t,
     m_UpdateWorkflow = UpdateWorkflow K t, m_Start = Start K t, m_Stop = Stop K t\<rparr>"


section \<open>The methods of the workflow that call the client (workflow.go)\<close>

text \<open>The field \<open>temporalClient\<close> is a value of the interface, not nil.\<close>

type_synonym ('p, 'f, 'fn, 'v, 'run, 'h, 'ctx, 'info, 'w) workflow_execution =
  "('p, 'f, ('fn, 'v, 'run, 'h, 'ctx, 'info, 'w) Temporal) WorkflowExecutionData"

definition wf_RegisterWorkflow ::
    "('p, 'f, 'fn, 'v, 'run, 'h, 'ctx, 'info, 'w) workflow_execution \<Rightarrow> string \<Rightarrow> 'fn \<Rightarrow> 'w \<Rightarrow> unit call \<times> 'w" where
  "wf_RegisterWorkflow wfd name fn w =
    m_RegisterWorkflow (WorkflowExecutionData.temporalClient wfd) \<lparr>wd_Name = name, wd_Fn = fn\<rparr> w"

definition wf_StartWorkflow ::
    "('p, 'f, 'fn, 'v, 'run, 'h, 'ctx, 'info, 'w) workflow_execution \<Rightarrow> StartWorkflowOptions \<Rightarrow> 'fn
       \<Rightarrow> 'v list \<Rightarrow> 'w \<Rightarrow> (go_error + 'run) \<times> 'w" where
  "wf_StartWorkflow wfd opts workflowFn args w =
    m_StartWorkflow (WorkflowExecutionData.temporalClient wfd) opts workflowFn args w"

definition wf_SignalWorkflow ::
    "('p, 'f, 'fn, 'v, 'run, 'h, 'ctx, 'info, 'w) workflow_execution \<Rightarrow> string \<Rightarrow> string \<Rightarrow> string
       \<Rightarrow> 'v \<Rightarrow> 'w \<Rightarrow> err \<times> 'w" where
  "wf_SignalWorkflow wfd workflowID runID signalName arg w =
    m_SignalWorkflow (WorkflowExecutionData.temporalClient wfd) workflowID runID signalName arg w"

definition wf_GetWorkflowResult ::
    "('p, 'f, 'fn, 'v, 'run, 'h, 'ctx, 'info, 'w) workflow_execution \<Rightarrow> string \<Rightarrow> string \<Rightarrow> 'w
       \<Rightarrow> (go_error + 'v) \<times> 'w" where
  "wf_GetWorkflowResult wfd workflowID runID w =
    m_GetWorkflowResult (WorkflowExecutionData.temporalClient wfd) workflowID runID w"

definition wf_UpdateWorkflow ::
    "('p, 'f, 'fn, 'v, 'run, 'h, 'ctx, 'info, 'w) workflow_execution \<Rightarrow> string \<Rightarrow> string \<Rightarrow> string
       \<Rightarrow> int \<Rightarrow> 'v \<Rightarrow> 'w \<Rightarrow> (go_error + 'h) \<times> 'w" where
  "wf_UpdateWorkflow wfd queryName workflowID runID stage args w =
    (case m_UpdateWorkflow (WorkflowExecutionData.temporalClient wfd) queryName workflowID runID stage args w of
       (Inl e, w') \<Rightarrow> (Inl e, w')
     | (Inr handle, w') \<Rightarrow> (Inr handle, w'))"

definition GetWorkflowExecutionData ::
    "('p, 'f, 'fn, 'v, 'run, 'h, 'ctx, 'info, 'w) workflow_execution \<Rightarrow> string \<Rightarrow> 'w
       \<Rightarrow> (go_error + 'v) \<times> 'w" where
  "GetWorkflowExecutionData wfd runID w =
    (case m_GetWorkflowResult (WorkflowExecutionData.temporalClient wfd) (WorkflowID wfd) runID w of
       (Inl e, w') \<Rightarrow> (Inl (Wrapf ''failed to get workflow execution data: '' e), w')
     | (Inr v, w') \<Rightarrow> (Inr v, w'))"

text \<open>
  \<open>GetWorkflowStatus\<close>: \<open>as_string\<close> is the type assertion to \<open>string\<close>, \<open>type_name\<close> the
  text of \<open>%T\<close>.
\<close>

definition GetWorkflowStatus ::
    "('v \<Rightarrow> string option) \<Rightarrow> ('v option \<Rightarrow> string)
       \<Rightarrow> ('p, 'f, 'fn, 'v, 'run, 'h, 'ctx, 'info, 'w) workflow_execution \<Rightarrow> string \<Rightarrow> string \<Rightarrow> 'w
       \<Rightarrow> (go_error + string) \<times> 'w" where
  "GetWorkflowStatus as_string type_name wfd workflowID runID w =
    (case m_QueryWorkflow (WorkflowExecutionData.temporalClient wfd) workflowID runID QueryGetStatus [] w of
       (Inl e, w') \<Rightarrow> (Inl e, w')
     | (Inr raw, w') \<Rightarrow>
        (case Option.bind raw as_string of
           None \<Rightarrow> (Inl (Errorf (''unexpected status query type '' @ type_name raw)), w')
         | Some status \<Rightarrow> (Inr status, w')))"

text \<open>
  The two methods that only call the SDK on the workflow context: \<open>set_query\<close> and
  \<open>set_update\<close> are \<open>workflow.SetQueryHandler\<close> and \<open>workflow.SetUpdateHandlerWithOptions\<close>.
\<close>

definition wf_SetQueryHandler ::
    "(string \<Rightarrow> 'fn \<Rightarrow> 'w \<Rightarrow> err \<times> 'w) \<Rightarrow> string \<Rightarrow> 'fn \<Rightarrow> 'w \<Rightarrow> err \<times> 'w" where
  "wf_SetQueryHandler set_query queryName fn w = set_query queryName fn w"

definition wf_SetUpdateHandlerWithOptions ::
    "(string \<Rightarrow> 'fn \<Rightarrow> 'o \<Rightarrow> 'w \<Rightarrow> err \<times> 'w) \<Rightarrow> string \<Rightarrow> 'fn \<Rightarrow> 'o \<Rightarrow> 'w \<Rightarrow> err \<times> 'w" where
  "wf_SetUpdateHandlerWithOptions set_update queryName fn opt w =
    (case set_update queryName fn opt w of (Some e, w') \<Rightarrow> (Some e, w') | (None, w') \<Rightarrow> (None, w'))"

text \<open>\<open>Goroutine\<close>: \<open>go\<close> is \<open>workflow.Go\<close>, which starts a coroutine.\<close>

definition Goroutine :: "('fn \<Rightarrow> 'w \<Rightarrow> 'w) \<Rightarrow> 'fn \<Rightarrow> 'w \<Rightarrow> 'w" where
  "Goroutine go goroutineFn w = go goroutineFn w"

end
