(* ===== verification/Temporal_Registration.thy ===== *)
theory Temporal_Registration
  imports Temporal_Properties Temporal_Client
begin

text \<open>
  Registration and execution together: on a workflow whose declared successors are all
  registered, \<open>Execute\<close> never calls an activity that has no function, and what it calls
  is what the client's worker has under that name.
\<close>

section \<open>The functions of the records never change\<close>

definition same_functions :: "('p, 'f, 'c, 'w) wstate \<Rightarrow> ('p, 'f, 'c, 'w) wstate \<Rightarrow> bool" where
  "same_functions s s' \<longleftrightarrow> (\<forall>c. ActivityFn (deref s' c) = ActivityFn (deref s c))"

lemma same_functions_setResumable: "same_functions s (setResumable c opts s)"
  by (simp add: same_functions_def setResumable_def deref_def infoAt_def)

interpretation fns: stable same_functions
  by unfold_locales (simp_all add: same_functions_setResumable, simp_all add: same_functions_def deref_def)


section \<open>Paths stay among the registered names\<close>

text \<open>Every declared successor is registered, and every registration has a function.\<close>

definition complete :: "'f registration list \<Rightarrow> bool" where
  "complete rs \<longleftrightarrow> rs \<noteq> [] \<and>
     (\<forall>r\<in>set rs. reg_fn r \<noteq> None \<and> set (reg_next r) \<subseteq> reg_name ` set rs)"

lemma edges_ok_within:
  assumes "edges_ok G prev cs" and "g_first G \<in> N" and "\<And>c. c \<in> N \<Longrightarrow> set (g_next G c) \<subseteq> N"
    and "\<forall>c. prev = Some c \<longrightarrow> c \<in> N"
  shows "set cs \<subseteq> N"
  using assms
proof (induction G prev cs rule: edges_ok.induct)
  case (2 G prev c cs)
  then have "c \<in> N" by (auto simp: follows_def split: option.splits)
  with 2 show ?case by auto
qed simp

lemma registered_names:
  fixes client :: 'c
  assumes "complete rs"
    and G_def: "G = graph_of (register_all register rs (NewWorkflowExecution client :: ('p, 'f, 'c) WorkflowExecutionData))"
  shows "g_first G \<in> reg_name ` set rs" and "c \<in> reg_name ` set rs \<Longrightarrow> set (g_next G c) \<subseteq> reg_name ` set rs"
proof -
  show "g_first G \<in> reg_name ` set rs"
    using assms(1) register_all_first [of "NewWorkflowExecution client :: ('p, 'f, 'c) WorkflowExecutionData" register rs]
    by (cases rs) (simp_all add: G_def graph_of_def graph_of_activities_def complete_def)
  assume "c \<in> reg_name ` set rs"
  then obtain r where r: "last_registration rs c = Some r"
    using last_registration_None [of rs c] by auto
  with last_registration_Some [OF r] assms(1) show "set (g_next G c) \<subseteq> reg_name ` set rs"
    by (auto simp: G_def graph_of_def graph_of_activities_def registered_info info_of_registration_def
        registeredInfo_def complete_def)
qed

lemma Execute_within:
  assumes "complete rs"
  shows "post (Execute order fuel k D data (registered_workflow register rs client w))
     (\<lambda>_ s'. set (activities (history s')) \<subseteq> reg_name ` set rs)
     (\<lambda>s'. set (activities (history s')) \<subseteq> reg_name ` set rs)
     (\<lambda>s'. set (activities (history s')) \<subseteq> reg_name ` set rs)"
proof (rule post_mono [OF Execute_recorded [where P = "\<lambda>evs. set (activities evs) \<subseteq> reg_name ` set rs"]])
  fix evs p
  assume run: "wf_run (graph_of (wf (registered_workflow register rs client w))) Created evs p"
  note edges = conjunct1 [OF run_edges [OF run, of None, simplified]]
  show "set (activities evs) \<subseteq> reg_name ` set rs"
    by (rule edges_ok_within [OF edges])
      (use registered_names [OF assms refl, where register = register and client = client] in \<open>auto simp: registered_workflow_def\<close>)
qed (auto simp: recorded_def registered_workflow_def)

lemma Execute_runs_last:
  fixes rs :: "'f registration list" and client :: 'c and w :: 'w
  assumes "complete rs"
  shows "post (Execute order fuel k D data (registered_workflow register rs client w :: ('p, 'f, 'c, 'w) wstate))
     (\<lambda>_ s'. \<forall>c\<in>set (activities (history s')).
        \<exists>r. last_registration rs c = Some r \<and> reg_fn r \<noteq> None \<and> ActivityFn (deref s' c) = reg_fn r)
     (\<lambda>s'. \<forall>c\<in>set (activities (history s')).
        \<exists>r. last_registration rs c = Some r \<and> reg_fn r \<noteq> None \<and> ActivityFn (deref s' c) = reg_fn r)
     (\<lambda>s'. \<forall>c\<in>set (activities (history s')).
        \<exists>r. last_registration rs c = Some r \<and> reg_fn r \<noteq> None \<and> ActivityFn (deref s' c) = reg_fn r)"
proof -
  let ?s = "registered_workflow register rs client w :: ('p, 'f, 'c, 'w) wstate"
  have fn: "\<exists>r. last_registration rs c = Some r \<and> reg_fn r \<noteq> None \<and> ActivityFn (deref s' c) = reg_fn r"
    if same: "same_functions ?s s'" and c: "c \<in> reg_name ` set rs" for s' c
  proof -
    obtain r where r: "last_registration rs c = Some r"
      using last_registration_None [of rs c] c by auto
    then have "deref ?s c = info_of_registration r"
      by (simp add: registered_workflow_def deref_def registered_info)
    with same have "ActivityFn (deref s' c) = reg_fn r"
      by (simp add: same_functions_def info_of_registration_def registeredInfo_def)
    then show ?thesis using r last_registration_Some [OF r] assms by (auto simp: complete_def)
  qed
  have same: "post (Execute order fuel k D data ?s) (\<lambda>_. same_functions ?s) (same_functions ?s) (same_functions ?s)"
    by (rule fns.Execute_R)
  have within: "post (Execute order fuel k D data ?s)
      (\<lambda>_ s'. set (activities (history s')) \<subseteq> reg_name ` set rs)
      (\<lambda>s'. set (activities (history s')) \<subseteq> reg_name ` set rs)
      (\<lambda>s'. set (activities (history s')) \<subseteq> reg_name ` set rs)"
    by (rule Execute_within [OF assms])
  have "post (Execute order fuel k D data ?s)
      (\<lambda>_ s'. same_functions ?s s' \<and> set (activities (history s')) \<subseteq> reg_name ` set rs)
      (\<lambda>s'. same_functions ?s s' \<and> set (activities (history s')) \<subseteq> reg_name ` set rs)
      (\<lambda>s'. same_functions ?s s' \<and> set (activities (history s')) \<subseteq> reg_name ` set rs)"
    using same within by (cases "Execute order fuel k D data ?s") simp_all
  then show ?thesis by (rule post_mono) (use fn in blast)+
qed


section \<open>The registry behind the client\<close>

text \<open>
  What the workflow relies on: under the laws of its provider \<^typ>\<open>'k\<close>, registering an
  acceptable activity under a name that is not taken makes its function the one found
  under that name and changes no other. Other registrations the provider may refuse with a
  panic. \<open>view\<close> is the provider's table of functions.
\<close>

definition register_acceptable ::
    "(string \<Rightarrow> 'f option \<Rightarrow> bool) \<Rightarrow> (string \<Rightarrow> 'f option) \<Rightarrow> 'f registration list \<Rightarrow> bool" where
  "register_acceptable accepts table rs \<longleftrightarrow> distinct (map reg_name rs) \<and>
     (\<forall>r\<in>set rs. table (reg_name r) = None \<and> accepts (reg_name r) (reg_fn r))"

locale activity_registry =
  fixes reg :: "'k \<Rightarrow> string \<Rightarrow> 'f option \<Rightarrow> 'c \<Rightarrow> unit call \<times> 'c"
    and laws :: "'k \<Rightarrow> (string \<Rightarrow> 'f option \<Rightarrow> bool) \<Rightarrow> ('c \<Rightarrow> string \<Rightarrow> 'f option) \<Rightarrow> bool"
  assumes reg_view: "laws K accepts view \<Longrightarrow> view c n = None \<Longrightarrow> accepts n f \<Longrightarrow>
      \<exists>c'. reg K n f c = (Returns (), c') \<and> view c' = (view c)(n := f)"
begin

definition reg_effect :: "'k \<Rightarrow> string \<Rightarrow> 'f option \<Rightarrow> 'c \<Rightarrow> 'c" where
  "reg_effect K n f c = snd (reg K n f c)"

text \<open>Acceptable registrations, one after the other: none panics, and each function is found under its name.\<close>

lemma reg_all_view:
  assumes "laws K accepts view" and "register_acceptable accepts (view c) rs"
  shows "view (fold (\<lambda>r. reg_effect K (reg_name r) (reg_fn r)) rs c) n =
      (case last_registration rs n of Some r \<Rightarrow> reg_fn r | None \<Rightarrow> view c n) \<and>
    (rs = xs @ r # ys \<longrightarrow>
      fst (reg K (reg_name r) (reg_fn r) (fold (\<lambda>r. reg_effect K (reg_name r) (reg_fn r)) xs c)) = Returns ())"
  using assms(2)
proof (induction rs arbitrary: c xs)
  case (Cons q qs)
  have "view c (reg_name q) = None" and "accepts (reg_name q) (reg_fn q)"
    using Cons.prems by (simp_all add: register_acceptable_def)
  then obtain c' where c': "reg K (reg_name q) (reg_fn q) c = (Returns (), c')" "view c' = (view c)(reg_name q := reg_fn q)"
    using reg_view [OF assms(1)] by blast
  have eff: "reg_effect K (reg_name q) (reg_fn q) c = c'" by (simp add: reg_effect_def c'(1))
  have acc: "register_acceptable accepts (view c') qs"
    using Cons.prems by (auto simp: register_acceptable_def c'(2) dest: rev_image_eqI [OF _ sym])
  have first: "last_registration qs (reg_name q) = None"
    using Cons.prems by (simp add: register_acceptable_def last_registration_None)
  show ?case
  proof (intro conjI impI)
    show "view (fold (\<lambda>r. reg_effect K (reg_name r) (reg_fn r)) (q # qs) c) n =
        (case last_registration (q # qs) n of Some r \<Rightarrow> reg_fn r | None \<Rightarrow> view c n)"
      using conjunct1 [OF Cons.IH [OF acc]] first by (auto simp: eff c'(2) split: option.splits)
    assume qs: "q # qs = xs @ r # ys"
    show "fst (reg K (reg_name r) (reg_fn r) (fold (\<lambda>r. reg_effect K (reg_name r) (reg_fn r)) xs c)) = Returns ()"
    proof (cases xs)
      case Nil
      with qs have "r = q" by simp
      with Nil show ?thesis by (simp add: c'(1))
    next
      case (Cons x zs)
      with qs conjunct2 [OF Cons.IH [OF acc, of zs]] eff show ?thesis by auto
    qed
  qed
qed simp

text \<open>Every function \<open>Execute\<close> calls is the one the provider has.\<close>

lemma served:
  assumes "complete rs" and "laws K accepts view" and "register_acceptable accepts (view client) rs"
  shows "post (Execute order fuel k D data (registered_workflow (reg_effect K) rs client w :: ('p, 'f, 'c, 'w) wstate))
     (\<lambda>_ s'. \<forall>c\<in>set (activities (history s')). ActivityFn (deref s' c) \<noteq> None \<and>
        view (temporalClient (wf s')) c = ActivityFn (deref s' c))
     (\<lambda>s'. \<forall>c\<in>set (activities (history s')). ActivityFn (deref s' c) \<noteq> None \<and>
        view (temporalClient (wf s')) c = ActivityFn (deref s' c))
     (\<lambda>s'. \<forall>c\<in>set (activities (history s')). ActivityFn (deref s' c) \<noteq> None \<and>
        view (temporalClient (wf s')) c = ActivityFn (deref s' c))"
proof -
  let ?s = "registered_workflow (reg_effect K) rs client w :: ('p, 'f, 'c, 'w) wstate"
  have client: "temporalClient (wf ?s) = fold (\<lambda>r. reg_effect K (reg_name r) (reg_fn r)) rs client"
    by (simp add: registered_workflow_def register_all_client)
  have view: "view (temporalClient (wf ?s)) n = (case last_registration rs n of Some r \<Rightarrow> reg_fn r | None \<Rightarrow> view client n)" for n
    unfolding client using reg_all_view [OF assms(2,3)] by blast
  have "post (Execute order fuel k D data ?s) (\<lambda>_. same_frame ?s) (same_frame ?s) (same_frame ?s)"
    by (rule frame.Execute_R)
  moreover note Execute_runs_last [OF assms(1), of order fuel k D data "reg_effect K" client w, where 'p = 'p]
  ultimately show ?thesis
    by (cases "Execute order fuel k D data ?s")
      (fastforce simp: same_frame_def view)+
qed

end

text \<open>
  Documented behaviour of the SDK's worker: \<open>RegisterActivityWithOptions\<close> binds the
  function to the name given in its options. It panics when the name is taken, and when
  name or function is not one it accepts; of these calls nothing is assumed.
\<close>

definition worker_keeps ::
    "('f option, 'v, 'run, 'h, 'enc, 'cl, 'wk, 'w) sdk_client \<Rightarrow> (string \<Rightarrow> 'f option \<Rightarrow> bool)
       \<Rightarrow> ('w \<Rightarrow> string \<Rightarrow> 'f option) \<Rightarrow> bool" where
  "worker_keeps K accepts view \<longleftrightarrow>
     (\<forall>worker fn name w. view w name = None \<and> accepts name fn \<longrightarrow>
        (\<exists>w'. wk_RegisterActivity K worker fn name w = (Returns (), w') \<and> view w' = (view w)(name := fn)))"

text \<open>Registration through the client, on the world its worker keeps its table in.\<close>

definition registerCall ::
    "('f option, 'v, 'run, 'h, 'enc, 'cl, 'wk, 'w) sdk_client \<times> ('cl, 'wk) temporalClient
       \<Rightarrow> string \<Rightarrow> 'f option \<Rightarrow> 'w \<Rightarrow> unit call \<times> 'w" where
  "registerCall Kt n f w = RegisterActivity (fst Kt) (snd Kt) \<lparr>ad_Name = n, ad_Fn = f\<rparr> w"

definition registerWith ::
    "('f option, 'v, 'run, 'h, 'enc, 'cl, 'wk, 'w) sdk_client \<times> ('cl, 'wk) temporalClient
       \<Rightarrow> string \<Rightarrow> 'f option \<Rightarrow> 'w \<Rightarrow> 'w" where
  "registerWith Kt n f w = snd (registerCall Kt n f w)"

interpretation client_registry: activity_registry registerCall
    "\<lambda>Kt accepts view. worker_keeps (fst Kt) accepts view \<and> tc_worker (snd Kt) \<noteq> None"
  by unfold_locales (auto simp: registerCall_def RegisterActivity_def worker_keeps_def)

lemma registerWith_effect: "client_registry.reg_effect = registerWith"
  by (simp add: fun_eq_iff client_registry.reg_effect_def registerWith_def)

text \<open>
  C15: On a workflow whose activities have distinct names, free in the client's worker, and
  functions the worker accepts, and whose declared successors are all registered through
  the client: no registration panics; and wherever \<open>Execute\<close> then stops, each activity it has
  run has a function, never nil, and the client's worker has exactly that function under
  the activity's name.
\<close>

theorem Execute_served_by_worker:
  assumes "complete rs" and "worker_keeps K accepts view" and "register_acceptable accepts (view w1) rs"
    and "NewTemporalClient K config w0 = (Inr t, w1)"
  shows "(\<forall>xs r ys. rs = xs @ r # ys \<longrightarrow>
       fst (RegisterActivity K t \<lparr>ad_Name = reg_name r, ad_Fn = reg_fn r\<rparr>
         (fold (\<lambda>r. registerWith (K, t) (reg_name r) (reg_fn r)) xs w1)) = Returns ()) \<and>
    post (Execute order fuel k D data (registered_workflow (registerWith (K, t)) rs w1 w))
     (\<lambda>_ s'. \<forall>c\<in>set (activities (history s')). ActivityFn (deref s' c) \<noteq> None \<and>
        view (temporalClient (wf s')) c = ActivityFn (deref s' c))
     (\<lambda>s'. \<forall>c\<in>set (activities (history s')). ActivityFn (deref s' c) \<noteq> None \<and>
        view (temporalClient (wf s')) c = ActivityFn (deref s' c))
     (\<lambda>s'. \<forall>c\<in>set (activities (history s')). ActivityFn (deref s' c) \<noteq> None \<and>
        view (temporalClient (wf s')) c = ActivityFn (deref s' c))"
proof -
  have "tc_worker t \<noteq> None"
    using assms(4) by (auto simp: NewTemporalClient_def Let_def split: prod.splits sum.splits)
  then have laws: "worker_keeps (fst (K, t)) accepts view \<and> tc_worker (snd (K, t)) \<noteq> None"
    using assms(2) by simp
  have "fst (registerCall (K, t) (reg_name r) (reg_fn r) (fold (\<lambda>r. registerWith (K, t) (reg_name r) (reg_fn r)) xs w1)) = Returns ()"
    if "rs = xs @ r # ys" for xs r ys
    using client_registry.reg_all_view [OF laws assms(3)] that unfolding registerWith_effect by blast
  with client_registry.served [OF assms(1) laws assms(3), unfolded registerWith_effect] show ?thesis
    by (simp add: registerCall_def)
qed

text \<open>A worker that is its table, and panics when a name is taken or there is no function.\<close>

definition table_sdk :: "(unit option, unit, unit, unit, unit, unit, unit, string \<Rightarrow> unit option) sdk_client" where
  "table_sdk = \<lparr>NewClient = (\<lambda>opts w. (Inr (), w)), worker_New = (\<lambda>c q wo. ()),
     cl_ExecuteWorkflow = (\<lambda>c opts f vs w. (Inr (), w)), cl_SignalWorkflow = (\<lambda>c wid rid n v w. (None, w)),
     cl_QueryWorkflow = (\<lambda>c wid rid q vs w. (Inr (), w)), enc_Get = (\<lambda>x. Inr None),
     cl_CancelWorkflow = (\<lambda>c wid rid w. (None, w)), cl_GetWorkflow = (\<lambda>c wid rid. ()),
     run_Get = (\<lambda>r w. (Inr (), w)), cl_UpdateWorkflow = (\<lambda>c opts w. (Inr (), w)),
     wk_RegisterWorkflow = (\<lambda>k f n w. (Returns (), w)),
     wk_RegisterActivity = (\<lambda>k f n w. if w n = None \<and> f \<noteq> None then (Returns (), w(n := f)) else (Panics, w)),
     wk_Start = (\<lambda>k w. (None, w)), wk_Stop = (\<lambda>k w. w)\<rparr>"

definition table_config :: TemporalConfig where
  "table_config = \<lparr>Host = ''localhost'', Port = ''7233'', Namespace = ''default'', TaskQueue = '''',
     MaxConcurrentActivityExecutionSize = 10, WorkerActivitiesPerSecond = 0,
     MaxConcurrentLocalActivityExecutionSize = 0, WorkerLocalActivitiesPerSecond = 0\<rparr>"

definition table_client :: "(unit, unit) temporalClient" where
  "table_client = \<lparr>tc_worker = Some (), tc_client = (), tc_taskQueue = ''default''\<rparr>"

definition table_state :: "(unit, unit, string \<Rightarrow> unit option, nat) wstate" where
  "table_state = registered_workflow (registerWith (table_sdk, table_client))
     [demo_step ''a'' '''' [''b''], demo_step ''b'' '''' []] (\<lambda>_. None) 0"

theorem Execute_served_by_worker_witness:
  "fst (RegisterActivity table_sdk table_client \<lparr>ad_Name = ''b'', ad_Fn = Some ()\<rparr>
       (registerWith (table_sdk, table_client) ''a'' (Some ()) (\<lambda>_. None))) = Returns () \<and>
   post (Execute [''a''] 5 (demo_sdk None (RawMessage ''null'') None) demo_data (Some ''b'') table_state)
     (\<lambda>_ s'. \<forall>c\<in>set (activities (history s')). ActivityFn (deref s' c) \<noteq> None \<and>
        temporalClient (wf s') c = ActivityFn (deref s' c))
     (\<lambda>s'. \<forall>c\<in>set (activities (history s')). ActivityFn (deref s' c) \<noteq> None \<and>
        temporalClient (wf s') c = ActivityFn (deref s' c))
     (\<lambda>s'. \<forall>c\<in>set (activities (history s')). ActivityFn (deref s' c) \<noteq> None \<and>
        temporalClient (wf s') c = ActivityFn (deref s' c))"
proof -
  let ?rs = "[demo_step ''a'' '''' [''b''], demo_step ''b'' '''' []]"
  have complete: "complete ?rs" by (simp add: complete_def demo_step_def)
  have keeps: "worker_keeps table_sdk (\<lambda>n f. f \<noteq> None) (\<lambda>w. w)" by (simp add: worker_keeps_def table_sdk_def)
  have accept: "register_acceptable (\<lambda>n f. f \<noteq> None) (\<lambda>_. None) ?rs" by (simp add: register_acceptable_def demo_step_def)
  have new: "NewTemporalClient table_sdk table_config (\<lambda>_. None) = (Inr table_client, \<lambda>_. None)"
    by (simp add: NewTemporalClient_def table_sdk_def table_config_def table_client_def Let_def)
  note served = Execute_served_by_worker [where view = "\<lambda>w. w", OF complete keeps accept new]
  have "?rs = [demo_step ''a'' '''' [''b'']] @ demo_step ''b'' '''' [] # []" by simp
  from conjunct1 [OF served, rule_format, OF this]
  have "fst (RegisterActivity table_sdk table_client \<lparr>ad_Name = ''b'', ad_Fn = Some ()\<rparr>
       (registerWith (table_sdk, table_client) ''a'' (Some ()) (\<lambda>_. None))) = Returns ()"
    by (simp add: demo_step_def)
  then show ?thesis unfolding table_state_def by (rule conjI [OF _ conjunct2 [OF served]])
qed

text \<open>
  Without that, the placeholder of a successor that was only declared is run when the
  data name it: \<open>Execute\<close> hands the SDK an activity with no function.
\<close>

theorem placeholder_runs:
  "\<exists>d s'. Execute [''a''] 5 (demo_sdk None (RawMessage ''null'') None) demo_data (Some ''b'')
      (demo_state [demo_step ''a'' '''' [''b'']]) = Return (None, Some d) s' \<and>
    activities (history s') = [''a'', ''b''] \<and> ActivityFn (deref s' ''b'') = None"
  by (simp add: demo_defs Execute_def NewWorkflowExecution_def AddTransitionActivityWithOptions_def
      eval_nat_numeral placeholderInfo_def deref_def infoAt_def runActivity_def callActivity_def applyBranch_def
      getNextActivity_def setExecutionStatus_def registerStatusQuery_def lookupActivity_def finalStatus_def Let_def emit_def)

end
