(* ===== verification/Temporal_Signals.thy ===== *)
theory Temporal_Signals
  imports Temporal_Workflow
begin

text \<open>
  Signals outside the pipeline: the typed consumers of \<open>temporal/signals.go\<close>, and the
  methods of \<open>workflow.go\<close> that wait for signals, listen to them, or signal other
  workflows. A signal channel is its name; what arrives on it is decided by the SDK,
  here the record \<open>signal_sdk\<close>.
\<close>

section \<open>The SDK\<close>

text \<open>
  \<open>Receive\<close> blocks until a message arrives, perhaps for ever; \<open>Select\<close> takes the first
  message on any of the given channels, and does not return when there is none.
\<close>

record ('v, 'w) signal_sdk =
  Receive :: "string \<Rightarrow> 'w \<Rightarrow> ('v \<times> 'w) option"
  Select :: "string list \<Rightarrow> 'w \<Rightarrow> (string \<times> 'v \<times> 'w) option"
  AwaitSignal :: "string \<Rightarrow> int \<Rightarrow> 'w \<Rightarrow> (go_error + 'v option) \<times> 'w"
  SignalExternal :: "string \<Rightarrow> string \<Rightarrow> string \<Rightarrow> 'v \<Rightarrow> 'w \<Rightarrow> err \<times> 'w"
  ExecuteChild :: "string \<Rightarrow> string \<Rightarrow> 'w \<Rightarrow> (go_error + string \<times> string) \<times> 'w"
  ChildResult :: "string \<Rightarrow> string \<Rightarrow> 'w \<Rightarrow> (go_error + 'v) \<times> 'w"


section \<open>Consumers (signals.go)\<close>

text \<open>
  A message handler is a step on the world that may fail; \<open>runAsync\<close> is the goroutine
  that takes message after message: here the messages that arrive, in order. An error
  of the handler is logged, and the loop goes on.
\<close>

type_synonym ('v, 'w) signal_handler = "'v \<Rightarrow> 'w \<Rightarrow> err \<times> 'w"

fun runAsync :: "('v, 'w) signal_handler \<Rightarrow> 'v list \<Rightarrow> 'w \<Rightarrow> 'w \<times> go_error list" where
  "runAsync handler [] w = (w, [])"
| "runAsync handler (result # rest) w =
    (let (e, w1) = handler result w; (w2, logged) = runAsync handler rest w1
     in (w2, (case e of None \<Rightarrow> logged | Some err \<Rightarrow> err # logged)))"

record ('v, 'w) SignalConsumer =
  handlers :: "string \<rightharpoonup> ('v, 'w) signal_handler"

text \<open>\<open>SignalHandler\<close>, a declaration nothing in the package uses.\<close>

record ('v, 'w) SignalHandler =
  sh_signalName :: string
  sh_handler :: "('v, 'w) signal_handler"

definition NewSignalConsumer :: "('v, 'w) SignalConsumer" where
  "NewSignalConsumer = \<lparr>handlers = Map.empty\<rparr>"

text \<open>What \<open>On\<close> stores starts \<open>runAsync\<close> on the channel of the same name.\<close>

definition On ::
    "string \<Rightarrow> ('v, 'w) signal_handler \<Rightarrow> ('v, 'w) SignalConsumer \<Rightarrow> ('v, 'w) SignalConsumer" where
  "On signalName handler sc = sc\<lparr>handlers := (handlers sc)(signalName \<mapsto> handler)\<rparr>"

text \<open>Starting the stored consumer of a channel on the messages that arrive there.\<close>

definition consume ::
    "('v, 'w) SignalConsumer \<Rightarrow> string \<Rightarrow> 'v list \<Rightarrow> 'w \<Rightarrow> ('w \<times> go_error list) option" where
  "consume sc signalName messages w =
    (case handlers sc signalName of None \<Rightarrow> None | Some h \<Rightarrow> Some (runAsync h messages w))"


section \<open>Waiting for signals (workflow.go)\<close>

text \<open>
  The result is the error and what was written to \<open>result\<close>; \<^term>\<open>None\<close> as a whole
  is a call that never returns.
\<close>

definition GetSignalResult ::
    "('v, 'w) signal_sdk \<Rightarrow> string \<Rightarrow> 'w \<Rightarrow> ((err \<times> 'v) \<times> 'w) option" where
  "GetSignalResult S signalName w =
    (case Select S [signalName] w of None \<Rightarrow> None | Some (_, v, w') \<Rightarrow> Some ((None, v), w'))"

definition WaitForSignal ::
    "('v, 'w) signal_sdk \<Rightarrow> string \<Rightarrow> 'v \<Rightarrow> int \<Rightarrow> 'w \<Rightarrow> (err \<times> 'v) \<times> 'w" where
  "WaitForSignal S signalName result timeout w =
    (case AwaitSignal S signalName timeout w of
       (Inl e, w') \<Rightarrow> ((Some e, result), w')
     | (Inr None, w') \<Rightarrow> ((Some (Errorf (''signal '' @ signalName @ '' timed out'')), result), w')
     | (Inr (Some v), w') \<Rightarrow> ((None, v), w'))"

text \<open>The map of results by signal name, ranged over in the order \<open>order\<close>.\<close>

definition WaitForAnySignal ::
    "string list \<Rightarrow> ('v, 'w) signal_sdk \<Rightarrow> (string \<rightharpoonup> 'v) \<Rightarrow> 'w
       \<Rightarrow> ((string \<times> err) \<times> (string \<rightharpoonup> 'v) \<times> 'w) option" where
  "WaitForAnySignal order S signals w =
    (case Select S order w of
       None \<Rightarrow> None
     | Some (signalName, v, w') \<Rightarrow> Some ((signalName, None), signals(signalName \<mapsto> v), w'))"

text \<open>
  \<open>ListenSignal\<close>: each message is written to the one variable \<open>result\<close> and the handler
  is called; the messages that arrive are given.
\<close>

fun listenLoop :: "('v \<Rightarrow> 'w \<Rightarrow> 'w) \<Rightarrow> 'v list \<Rightarrow> 'v \<Rightarrow> 'w \<Rightarrow> 'v \<times> 'w" where
  "listenLoop handler [] result w = (result, w)"
| "listenLoop handler (v # rest) result w = listenLoop handler rest v (handler v w)"

definition ListenSignal ::
    "('v \<Rightarrow> 'w \<Rightarrow> 'w) \<Rightarrow> 'v list \<Rightarrow> 'v \<Rightarrow> 'w \<Rightarrow> err \<times> 'v \<times> 'w" where
  "ListenSignal handler messages result w = (None, listenLoop handler messages result w)"


section \<open>Signalling other workflows (workflow.go)\<close>

definition SignalExternalWorkflow ::
    "('v, 'w) signal_sdk \<Rightarrow> string \<Rightarrow> string \<Rightarrow> string \<Rightarrow> 'v \<Rightarrow> 'w \<Rightarrow> err \<times> 'w" where
  "SignalExternalWorkflow S workflowID runID signalName arg w =
    (case SignalExternal S workflowID runID signalName arg w of
       (Some e, w') \<Rightarrow> (Some (Wrapf ''failed to signal external workflow: '' e), w')
     | (None, w') \<Rightarrow> (None, w'))"

definition GetExternalWorkflowResult :: "string \<Rightarrow> string \<Rightarrow> 'v \<Rightarrow> 'w \<Rightarrow> (err \<times> 'v) \<times> 'w" where
  "GetExternalWorkflowResult workflowID runID result w = ((None, result), w)"

definition StartChildWorkflow ::
    "('v, 'w) signal_sdk \<Rightarrow> string \<Rightarrow> string \<Rightarrow> 'v \<Rightarrow> 'v \<Rightarrow> 'w \<Rightarrow> (err \<times> 'v) \<times> 'w" where
  "StartChildWorkflow S workflowID signalName request result w =
    (case ExecuteChild S workflowID signalName w of
       (Inl e, w1) \<Rightarrow> ((Some (Wrapf ''failed to get child workflow execution: '' e), result), w1)
     | (Inr (cid, crun), w1) \<Rightarrow>
        (case SignalExternal S cid crun signalName request w1 of
           (Some e, w2) \<Rightarrow> ((Some (Wrapf ''failed to signal child workflow: '' e), result), w2)
         | (None, w2) \<Rightarrow>
            (case ChildResult S cid crun w2 of
               (Inl e, w3) \<Rightarrow> ((Some (Wrapf ''failed to get child workflow result: '' e), result), w3)
             | (Inr v, w3) \<Rightarrow> ((None, v), w3))))"


section \<open>Lemmas on consumers\<close>

lemma runAsync_append:
  "runAsync h (xs @ ys) w =
    (let (w1, l1) = runAsync h xs w; (w2, l2) = runAsync h ys w1 in (w2, l1 @ l2))"
  by (induction xs arbitrary: w) (auto simp: Let_def split: prod.splits option.splits)

lemma runAsync_fold: "fst (runAsync h ms w) = fold (\<lambda>m v. snd (h m v)) ms w"
  by (induction ms arbitrary: w) (simp_all add: case_prod_beta Let_def)

lemma runAsync_logged: "length (snd (runAsync h ms w)) \<le> length ms"
  by (induction ms arbitrary: w) (auto simp: case_prod_beta Let_def le_SucI split: option.splits)

lemma handlers_On: "handlers (On n h sc) = (handlers sc)(n \<mapsto> h)"
  by (simp add: On_def)

end
