(* ===== verification/Temporal_Interface.thy ===== *)
theory Temporal_Interface
  imports Temporal_Client Temporal_Signals
begin

text \<open>
  The interface \<open>WorkflowExecution\<close> (\<open>interface.go\<close>), through which the public helpers reach
  a workflow: a record of its methods on a state \<^typ>\<open>'s\<close>, and \<open>*WorkflowExecutionData\<close> as
  a value of it. A locale says what the helpers rely on.
\<close>

section \<open>The interface\<close>

text \<open>
  Activity and workflow functions are of type \<^typ>\<open>'fn\<close>, arguments and results of type
  \<^typ>\<open>'v\<close>. \<^term>\<open>None\<close> as the result of a wait is a call that never returns.
\<close>

record ('s, 'w, 'd, 'p, 'fn, 'v, 'run, 'h, 'o) WorkflowExecution =
  we_Execute :: "'d option \<Rightarrow> 's \<Rightarrow> (err \<times> 'd option, 's) outcome"
  we_AddTransitionActivityWithOptions ::
    "string \<Rightarrow> string \<Rightarrow> 'fn option \<Rightarrow> ActivityOptions option \<Rightarrow> string list \<Rightarrow> 's \<Rightarrow> unit call \<times> 's"
  we_RegisterWorkflow :: "string \<Rightarrow> 'fn option \<Rightarrow> 's \<Rightarrow> unit call \<times> 's"
  we_GetWorkflowExecutionData :: "string \<Rightarrow> 's \<Rightarrow> (go_error + 'v) \<times> 's"
  we_StartWorkflow :: "StartWorkflowOptions \<Rightarrow> 'fn option \<Rightarrow> 'v list \<Rightarrow> 's \<Rightarrow> (go_error + 'run) \<times> 's"
  we_GetWorkflowResult :: "string \<Rightarrow> string \<Rightarrow> 's \<Rightarrow> (go_error + 'v) \<times> 's"
  we_StartChildWorkflow :: "string \<Rightarrow> string \<Rightarrow> 'v \<Rightarrow> 'v \<Rightarrow> 's \<Rightarrow> (err \<times> 'v) \<times> 's"
  we_SignalWorkflow :: "string \<Rightarrow> string \<Rightarrow> string \<Rightarrow> 'v \<Rightarrow> 's \<Rightarrow> err \<times> 's"
  we_Goroutine :: "'fn option \<Rightarrow> 's \<Rightarrow> 's"
  we_GetSignalResult :: "string \<Rightarrow> 's \<Rightarrow> ((err \<times> 'v) \<times> 's) option"
  we_SignalExternalWorkflow :: "string \<Rightarrow> string \<Rightarrow> string \<Rightarrow> 'v \<Rightarrow> 's \<Rightarrow> err \<times> 's"
  we_GetExternalWorkflowResult :: "string \<Rightarrow> string \<Rightarrow> 'v \<Rightarrow> 's \<Rightarrow> (err \<times> 'v) \<times> 's"
  we_WaitForSignal :: "string \<Rightarrow> 'v \<Rightarrow> int \<Rightarrow> 's \<Rightarrow> (err \<times> 'v) \<times> 's"
  we_ListenSignal :: "('v \<Rightarrow> 'w \<Rightarrow> 'w) \<Rightarrow> 'v list \<Rightarrow> 'v \<Rightarrow> 's \<Rightarrow> (err \<times> 'v) \<times> 's"
  we_WaitForAnySignal :: "(string \<rightharpoonup> 'v) \<Rightarrow> 's \<Rightarrow> (((string \<times> err) \<times> (string \<rightharpoonup> 'v)) \<times> 's) option"
  we_SetQueryHandler :: "string \<Rightarrow> 'fn option \<Rightarrow> 's \<Rightarrow> err \<times> 's"
  we_SetUpdateHandlerWithOptions :: "string \<Rightarrow> 'fn option \<Rightarrow> 'o \<Rightarrow> 's \<Rightarrow> err \<times> 's"
  we_UpdateWorkflow :: "string \<Rightarrow> string \<Rightarrow> string \<Rightarrow> int \<Rightarrow> 'v \<Rightarrow> 's \<Rightarrow> (go_error + 'h) \<times> 's"
  we_GetWorkflowStatus :: "string \<Rightarrow> string \<Rightarrow> 's \<Rightarrow> (go_error + string) \<times> 's"
  we_GetWorkflowID :: "'s \<Rightarrow> string"
  we_SetWorkflowID :: "string \<Rightarrow> 's \<Rightarrow> 's"
  we_SetExecutionData :: "'p option \<Rightarrow> 's \<Rightarrow> 's"
  we_GetExecutionData :: "'s \<Rightarrow> 'p option"


section \<open>The SDK of a workflow\<close>

text \<open>
  The SDK functions the methods call, beside those of the client: the pipeline's, the
  signals', and the registration of handlers; \<open>map_order\<close> and \<open>turns\<close> are the order of a
  map range and the bound on the loop of \<open>Execute\<close>.
\<close>

record ('d, 'fn, 'v, 'o, 'w) workflow_sdk =
  pipeline :: "('d, 'fn, 'v, 'w) sdk"
  signal_ops :: "('v, 'w) signal_sdk"
  workflow_SetQueryHandler :: "string \<Rightarrow> 'fn option \<Rightarrow> 'w \<Rightarrow> err \<times> 'w"
  workflow_SetUpdateHandler :: "string \<Rightarrow> 'fn option \<Rightarrow> 'o \<Rightarrow> 'w \<Rightarrow> err \<times> 'w"
  workflow_Go :: "'fn option \<Rightarrow> 'w \<Rightarrow> 'w"
  map_order :: "string list"
  turns :: nat
  string_of_value :: "'v \<Rightarrow> string option"
  type_text :: "'v option \<Rightarrow> string"

text \<open>A call that works on the world only, and one that may never return.\<close>

definition in_world :: "('w \<Rightarrow> 'a \<times> 'w) \<Rightarrow> ('p, 'f, 'c, 'w) wstate \<Rightarrow> 'a \<times> ('p, 'f, 'c, 'w) wstate" where
  "in_world f s = (let (a, w') = f (world s) in (a, s\<lparr>world := w'\<rparr>))"

definition may_wait :: "('w \<Rightarrow> ('a \<times> 'w) option) \<Rightarrow> ('p, 'f, 'c, 'w) wstate \<Rightarrow> ('a \<times> ('p, 'f, 'c, 'w) wstate) option" where
  "may_wait f s = map_option (\<lambda>(a, w'). (a, s\<lparr>world := w'\<rparr>)) (f (world s))"

text \<open>
  \<open>AddTransitionActivityWithOptions\<close> on a receiver whose client is a value of the interface
  \<open>Temporal\<close>: the registration's effect is on the world, and a client without a worker
  panics before anything is stored.
\<close>

definition wf_AddTransition ::
    "string \<Rightarrow> string \<Rightarrow> 'fn option \<Rightarrow> ActivityOptions option \<Rightarrow> string list
       \<Rightarrow> ('p, 'fn, ('fn option, 'v, 'run, 'h, 'ctx, 'info, 'w) Temporal, 'w) wstate
       \<Rightarrow> unit call \<times> ('p, 'fn, ('fn option, 'v, 'run, 'h, 'ctx, 'info, 'w) Temporal, 'w) wstate" where
  "wf_AddTransition activityName signalEvent activityFn options nextActivities s =
    (case in_world (m_RegisterActivity (temporalClient (wf s)) \<lparr>ad_Name = activityName, ad_Fn = activityFn\<rparr>) s of
       (Panics, s1) \<Rightarrow> (Panics, s1)
     | (Returns u, s1) \<Rightarrow>
        (Returns (), s1\<lparr>wf := AddTransitionActivityWithOptions (\<lambda>_ _ c. c) activityName signalEvent activityFn
           options nextActivities (wf s1)\<rparr>))"

definition workflowExecutionData_WorkflowExecution ::
    "('d, 'fn, 'v, 'o, 'w) workflow_sdk \<Rightarrow> 'd ExecutionDataOps
       \<Rightarrow> (('p, 'fn, ('fn option, 'v, 'run, 'h, 'ctx, 'info, 'w) Temporal, 'w) wstate,
            'w, 'd, 'p, 'fn, 'v, 'run, 'h, 'o) WorkflowExecution" where
  "workflowExecutionData_WorkflowExecution W D = \<lparr>
     we_Execute = Execute (map_order W) (turns W) (pipeline W) D,
     we_AddTransitionActivityWithOptions = wf_AddTransition,
     we_RegisterWorkflow = (\<lambda>name fn s. in_world (wf_RegisterWorkflow (wf s) name fn) s),
     we_GetWorkflowExecutionData = (\<lambda>runID s. in_world (GetWorkflowExecutionData (wf s) runID) s),
     we_StartWorkflow = (\<lambda>opts fn args s. in_world (wf_StartWorkflow (wf s) opts fn args) s),
     we_GetWorkflowResult = (\<lambda>wid rid s. in_world (wf_GetWorkflowResult (wf s) wid rid) s),
     we_StartChildWorkflow = (\<lambda>wid n req res. in_world (StartChildWorkflow (signal_ops W) wid n req res)),
     we_SignalWorkflow = (\<lambda>wid rid n v s. in_world (wf_SignalWorkflow (wf s) wid rid n v) s),
     we_Goroutine = (\<lambda>fn s. s\<lparr>world := Goroutine (workflow_Go W) fn (world s)\<rparr>),
     we_GetSignalResult = (\<lambda>n. may_wait (GetSignalResult (signal_ops W) n)),
     we_SignalExternalWorkflow = (\<lambda>wid rid n v. in_world (SignalExternalWorkflow (signal_ops W) wid rid n v)),
     we_GetExternalWorkflowResult = (\<lambda>wid rid res. in_world (GetExternalWorkflowResult wid rid res)),
     we_WaitForSignal = (\<lambda>n res t. in_world (WaitForSignal (signal_ops W) n res t)),
     we_ListenSignal = (\<lambda>h ms res. in_world (\<lambda>w. case ListenSignal h ms res w of (e, r, w') \<Rightarrow> ((e, r), w'))),
     we_WaitForAnySignal = (\<lambda>sigs. may_wait (\<lambda>w. map_option (\<lambda>(r, m, w'). ((r, m), w'))
        (WaitForAnySignal (map_order W) (signal_ops W) sigs w))),
     we_SetQueryHandler = (\<lambda>n fn. in_world (wf_SetQueryHandler (workflow_SetQueryHandler W) n fn)),
     we_SetUpdateHandlerWithOptions =
       (\<lambda>n fn opt. in_world (wf_SetUpdateHandlerWithOptions (workflow_SetUpdateHandler W) n fn opt)),
     we_UpdateWorkflow = (\<lambda>n wid rid stage v s. in_world (wf_UpdateWorkflow (wf s) n wid rid stage v) s),
     we_GetWorkflowStatus = (\<lambda>wid rid s. in_world
        (GetWorkflowStatus (string_of_value W) (type_text W) (wf s) wid rid) s),
     we_GetWorkflowID = (\<lambda>s. GetWorkflowID (wf s)),
     we_SetWorkflowID = (\<lambda>workflowID s. s\<lparr>wf := SetWorkflowID workflowID (wf s)\<rparr>),
     we_SetExecutionData = (\<lambda>executionData s. s\<lparr>wf := SetExecutionData executionData (wf s)\<rparr>),
     we_GetExecutionData = (\<lambda>s. GetExecutionData (wf s))\<rparr>"

end
