(* ===== verification/Temporal_Public.thy ===== *)
theory Temporal_Public
  imports Temporal_Interface
begin

text \<open>
  \<open>temporal/public.go\<close>: running the pipeline on behalf of a workflow function,
  registering and answering the state query, and reading the state from outside with
  retries. A workflow is a value of the interface \<open>WorkflowExecution\<close>. A pointer to
  execution data is an address in a store, and a nil interface value is \<^term>\<open>None\<close>.
\<close>

section \<open>ExecuteWorkflow\<close>

text \<open>
  The result is what the caller gets (the data or an error) beside what the pointer
  it passed refers to afterwards.
\<close>

definition ExecuteWorkflow ::
    "('s, 'w, 'd, 'p, 'fn, 'v, 'run, 'h, 'o) WorkflowExecution option \<Rightarrow> 'd option \<Rightarrow> 's
       \<Rightarrow> ((go_error + 'd option) \<times> 'd option, 's) outcome" where
  "ExecuteWorkflow we executionData s =
    (case we of
       None \<Rightarrow> Return (Inl (Errorf ''workflow execution is nil''), executionData) s
     | Some W \<Rightarrow>
        (if executionData = None then Return (Inl (Errorf ''execution data is nil''), executionData) s
         else and_then (we_Execute W executionData s) (\<lambda>(e, data1) s1.
           (case e of
              Some err \<Rightarrow> Return (Inl err, data1) s1
            | None \<Rightarrow> Return (Inr data1, data1) s1))))"


section \<open>WorkflowInit and its query handler\<close>

text \<open>
  What the handler \<open>WorkflowInit\<close> registers answers in a state, with \<open>ready\<close> as it
  answers at that moment: \<open>ready\<close> may refuse the data.
\<close>

definition queryHandler ::
    "('p option \<Rightarrow> err) option \<Rightarrow> ('s, 'w, 'd, 'p, 'fn, 'v, 'run, 'h, 'o) WorkflowExecution \<Rightarrow> 's
       \<Rightarrow> go_error + 'p option" where
  "queryHandler ready W s =
    (let data = we_GetExecutionData W s
     in (case ready of
           None \<Rightarrow> Inr data
         | Some check \<Rightarrow> (case check data of Some e \<Rightarrow> Inl e | None \<Rightarrow> Inr data)))"

text \<open>
  \<open>info_ID\<close> is \<open>workflow.GetInfo(ctx).WorkflowExecution.ID\<close> and \<open>set_query\<close> is
  \<open>workflow.SetQueryHandler\<close>, both on the workflow's context. The handler is a closure over
  the receiver and \<open>ready\<close>, and so a function of the state of the time of the query; \<open>ready\<close>
  reads the data behind its pointer in that state.
\<close>

definition WorkflowInit ::
    "(string \<Rightarrow> ('s \<Rightarrow> go_error + 'p option) \<Rightarrow> 's \<Rightarrow> err \<times> 's) \<Rightarrow> ('s \<Rightarrow> string)
       \<Rightarrow> ('s, 'w, 'd, 'p, 'fn, 'v, 'run, 'h, 'o) WorkflowExecution option \<Rightarrow> string \<Rightarrow> 'p option
       \<Rightarrow> ('s \<Rightarrow> 'p option \<Rightarrow> err) option \<Rightarrow> 's \<Rightarrow> (go_error + 'p option) \<times> 's" where
  "WorkflowInit set_query info_ID we queryType executionData ready s =
    (case we of
       None \<Rightarrow> (Inl (Errorf ''workflow execution is nil''), s)
     | Some W \<Rightarrow>
        (if queryType = '''' then (Inl (Errorf ''query type is empty''), s)
         else if executionData = None then (Inl (Errorf ''execution data is nil''), s)
         else
           (let s1 = we_SetExecutionData W executionData s;
                s2 = (if we_GetWorkflowID W s1 = '''' then we_SetWorkflowID W (info_ID s1) s1 else s1);
                (e, s3) = set_query queryType (\<lambda>t. queryHandler (map_option (\<lambda>f. f t) ready) W t) s2
            in (case e of
                  Some err \<Rightarrow> (Inl err, s3)
                | None \<Rightarrow> (Inr (we_GetExecutionData W s3), s3)))))"

text \<open>\<open>available\<close>: the interface value is a non-nil \<open>*WorkflowExecutionData\<close>.\<close>

definition GetWorkflowData ::
    "('w \<Rightarrow> string) \<Rightarrow> bool \<Rightarrow> bool \<Rightarrow> ('p, 'f, 'c, 'w) wstate
       \<Rightarrow> (go_error + ('p, 'f, 'c) WorkflowExecutionData) \<times> ('p, 'f, 'c, 'w) wstate" where
  "GetWorkflowData info_ID ctxNil available s =
    (if \<not> available then (Inl (Errorf ''workflow execution is not available''), s)
     else if GetWorkflowID (wf s) = '''' then
       (if ctxNil then (Inl (Errorf ''workflow context is nil''), s)
        else (let s1 = s\<lparr>wf := SetWorkflowID (info_ID (world s)) (wf s)\<rparr> in (Inr (wf s1), s1)))
     else (Inr (wf s), s))"


section \<open>decodeExecutionData\<close>

text \<open>A non-nil query result: a pointer to execution data, or some other Go value.\<close>

datatype 'v raw = RawData nat | RawValue 'v

definition unmarshalInto ::
    "'d ExecutionDataOps \<Rightarrow> string \<Rightarrow> nat \<Rightarrow> (nat \<Rightarrow> 'd) \<Rightarrow> (nat option \<times> err) \<times> (nat \<Rightarrow> 'd)" where
  "unmarshalInto D encoded dest st =
    (case Unmarshal D encoded (st dest) of
       (Some e, d') \<Rightarrow> ((None, Some e), st(dest := d'))
     | (None, d') \<Rightarrow> ((Some dest, None), st(dest := d')))"

definition decodeExecutionData ::
    "'d ExecutionDataOps \<Rightarrow> ('v \<Rightarrow> go_error + string) \<Rightarrow> ('v \<Rightarrow> string) \<Rightarrow> 'v raw \<Rightarrow> nat option
       \<Rightarrow> (nat \<Rightarrow> 'd) \<Rightarrow> (nat option \<times> err) \<times> (nat \<Rightarrow> 'd)" where
  "decodeExecutionData D marshal type_name raw dest st =
    (case raw of
       RawData data \<Rightarrow>
        (case dest of
           None \<Rightarrow> ((Some data, None), st)
         | Some a \<Rightarrow>
            (if a = data then ((Some data, None), st)
             else (case Marshal D (st data) of
                     Inl e \<Rightarrow> ((None, Some e), st)
                   | Inr encoded \<Rightarrow> unmarshalInto D encoded a st)))
     | RawValue v \<Rightarrow>
        (case dest of
           None \<Rightarrow> ((None, Some (Errorf (''execution data is '' @ type_name v @ '', not ExecutionData''))), st)
         | Some a \<Rightarrow>
            (case marshal v of
               Inl e \<Rightarrow> ((None, Some e), st)
             | Inr encoded \<Rightarrow> unmarshalInto D encoded a st)))"


section \<open>QueryWorkflowData\<close>

text \<open>
  The caller's context as functions on a world: \<open>tick\<close> is the \<open>select\<close> of the loop, true
  when the timer fired, false when the context was done. The client is a value of the
  interface \<open>Temporal\<close>.
\<close>

record 'w query_ctx =
  ctx_Deadline :: bool
  ctx_Err :: "'w \<Rightarrow> err"
  tick :: "'w \<Rightarrow> bool \<times> 'w"

text \<open>One turn per second; \<^term>\<open>None\<close> when the turns are used up.\<close>

fun queryLoop ::
    "nat \<Rightarrow> 'w query_ctx \<Rightarrow> ('fn, 'v raw, 'run, 'h, 'ctx, 'info, 'w) Temporal \<Rightarrow> 'd ExecutionDataOps
       \<Rightarrow> ('v \<Rightarrow> go_error + string) \<Rightarrow> ('v \<Rightarrow> string) \<Rightarrow> string \<Rightarrow> string \<Rightarrow> string \<Rightarrow> nat option \<Rightarrow> (nat \<Rightarrow> 'd) \<Rightarrow> 'w
       \<Rightarrow> ((nat option \<times> err) \<times> (nat \<Rightarrow> 'd) \<times> 'w) option" where
  "queryLoop 0 ctx client D marshal type_name queryType workflowID runID dest st w = None"
| "queryLoop (Suc n) ctx client D marshal type_name queryType workflowID runID dest st w =
    (case ctx_Err ctx w of
       Some e \<Rightarrow> Some ((None, Some e), st, w)
     | None \<Rightarrow>
        (case m_QueryWorkflow client workflowID runID queryType [] w of
           (Inr (Some raw), w1) \<Rightarrow>
             (let (r, st') = decodeExecutionData D marshal type_name raw dest st in Some (r, st', w1))
         | (r, w1) \<Rightarrow>
             (let e = (case r of Inl e \<Rightarrow> e | Inr _ \<Rightarrow> Errorf ''execution data is nil'')
              in if \<not> ctx_Deadline ctx then Some ((None, Some e), st, w1)
                 else (case tick ctx w1 of
                         (False, w2) \<Rightarrow> Some ((None, ctx_Err ctx w2), st, w2)
                       | (True, w2) \<Rightarrow>
                           queryLoop n ctx client D marshal type_name queryType workflowID runID dest st w2))))"

definition QueryWorkflowData ::
    "nat \<Rightarrow> 'w query_ctx option \<Rightarrow> ('fn, 'v raw, 'run, 'h, 'ctx, 'info, 'w) Temporal option \<Rightarrow> 'd ExecutionDataOps
       \<Rightarrow> ('v \<Rightarrow> go_error + string) \<Rightarrow> ('v \<Rightarrow> string) \<Rightarrow> string \<Rightarrow> string \<Rightarrow> string \<Rightarrow> nat option \<Rightarrow> (nat \<Rightarrow> 'd) \<Rightarrow> 'w
       \<Rightarrow> ((nat option \<times> err) \<times> (nat \<Rightarrow> 'd) \<times> 'w) option" where
  "QueryWorkflowData fuel ctx client D marshal type_name queryType workflowID runID dest st w =
    (case ctx of
       None \<Rightarrow> Some ((None, Some (Errorf ''context is nil'')), st, w)
     | Some c \<Rightarrow>
        (case client of
           None \<Rightarrow> Some ((None, Some (Errorf ''temporal client is nil'')), st, w)
         | Some t \<Rightarrow>
            (if queryType = '''' then Some ((None, Some (Errorf ''query type is empty'')), st, w)
             else if workflowID = '''' then Some ((None, Some (Errorf ''workflow id is empty'')), st, w)
             else queryLoop fuel c t D marshal type_name queryType workflowID runID dest st w)))"


section \<open>How long a query loop runs\<close>

text \<open>
  \<open>remaining\<close> measures what is left of the context's time: every second that passes
  uses some of it, unless the context is done by then.
\<close>

definition deadline_measure :: "'w query_ctx \<Rightarrow> ('fn, 'v, 'run, 'h, 'ctx, 'info, 'w) Temporal \<Rightarrow> ('w \<Rightarrow> nat) \<Rightarrow> bool" where
  "deadline_measure E T remaining \<longleftrightarrow>
     (\<forall>wid rid qt w r w1 w2. m_QueryWorkflow T wid rid qt [] w = (r, w1) \<longrightarrow> tick E w1 = (True, w2) \<longrightarrow>
        ctx_Err E w2 \<noteq> None \<or> remaining w2 < remaining w)"

lemma queryLoop_ends:
  assumes "deadline_measure E T remaining"
  shows "remaining w < n \<or> (0 < n \<and> ctx_Err E w \<noteq> None) \<Longrightarrow>
    queryLoop (Suc n) E T D marshal type_name qt wid rid dest st w \<noteq> None"
proof (induction n arbitrary: w)
  case (Suc n)
  show ?case
  proof (cases "ctx_Err E w")
    case None
    obtain r w1 where q: "m_QueryWorkflow T wid rid qt [] w = (r, w1)" by fastforce
    obtain fired w2 where t: "tick E w1 = (fired, w2)" by fastforce
    have "queryLoop (Suc n) E T D marshal type_name qt wid rid dest st w2 \<noteq> None" if fired
    proof (cases n)
      case 0
      with Suc.prems None have "remaining w = 0" by auto
      with assms q t that have "ctx_Err E w2 \<noteq> None" unfolding deadline_measure_def by fastforce
      with 0 show ?thesis by auto
    next
      case (Suc m)
      have "remaining w2 < n \<or> ctx_Err E w2 \<noteq> None"
        using assms q t that Suc.prems None unfolding deadline_measure_def by fastforce
      with Suc show ?thesis using Suc.IH by auto
    qed
    then show ?thesis
      using None q t
      by (cases fired) (auto split: sum.splits option.splits prod.splits simp: Let_def)
  qed auto
qed auto

end
