(* ===== verification/Temporal_Public_Properties.thy ===== *)
theory Temporal_Public_Properties
  imports Temporal_Public Temporal_Stable Temporal_Properties
begin

text \<open>
  Properties of the public helpers: the state query, the bounded and the unbounded
  query loop, and what decoding may write.
\<close>

section \<open>The state query\<close>

text \<open>
  What the helpers rely on: the accessors of the interface read what was set, and \<open>Execute\<close>
  touches neither the execution data's pointer nor the id.
\<close>

definition same_access ::
    "('s, 'w, 'd, 'p, 'fn, 'v, 'run, 'h, 'o) WorkflowExecution \<Rightarrow> 's \<Rightarrow> 's \<Rightarrow> bool" where
  "same_access I s s' \<longleftrightarrow> we_GetExecutionData I s' = we_GetExecutionData I s \<and>
     we_GetWorkflowID I s' = we_GetWorkflowID I s"

locale workflow_execution =
  fixes impl :: "'k \<Rightarrow> ('s, 'w, 'd, 'p, 'fn, 'v, 'run, 'h, 'o) WorkflowExecution"
  assumes data_set: "we_GetExecutionData (impl K) (we_SetExecutionData (impl K) p s) = p"
    and id_data_set: "we_GetWorkflowID (impl K) (we_SetExecutionData (impl K) p s) = we_GetWorkflowID (impl K) s"
    and id_set: "we_GetWorkflowID (impl K) (we_SetWorkflowID (impl K) i s) = i"
    and data_id_set: "we_GetExecutionData (impl K) (we_SetWorkflowID (impl K) i s) = we_GetExecutionData (impl K) s"
    and execute_keeps: "post (we_Execute (impl K) d s) (\<lambda>_. same_access (impl K) s) (same_access (impl K) s)
      (same_access (impl K) s)"
begin

lemma init_sets:
  assumes "\<And>q h s. same_access (impl K) s (snd (set_query q h s))"
    and "WorkflowInit set_query info_ID (Some (impl K)) qt (Some p) ready s = (Inr q, s1)"
  shows "(\<exists>s2. set_query qt (\<lambda>t. queryHandler (map_option (\<lambda>f. f t) ready) (impl K) t) s2 = (None, s1)) \<and>
    q = Some p \<and> we_GetExecutionData (impl K) s1 = Some p \<and>
    we_GetWorkflowID (impl K) s1 = (if we_GetWorkflowID (impl K) s = ''''
      then info_ID (we_SetExecutionData (impl K) (Some p) s) else we_GetWorkflowID (impl K) s)"
proof -
  let ?s1 = "we_SetExecutionData (impl K) (Some p) s"
  let ?s2 = "if we_GetWorkflowID (impl K) ?s1 = '''' then we_SetWorkflowID (impl K) (info_ID ?s1) ?s1 else ?s1"
  let ?h = "\<lambda>t. queryHandler (map_option (\<lambda>f. f t) ready) (impl K) t"
  from assms(2) have s1: "set_query qt ?h ?s2 = (None, s1)" and q: "q = we_GetExecutionData (impl K) s1"
    by (auto simp: WorkflowInit_def Let_def split: prod.splits option.splits if_splits)
  have "same_access (impl K) ?s2 s1" using assms(1) [of ?s2 qt ?h] by (simp only: s1 snd_conv)
  with q exI [of "\<lambda>u. set_query qt ?h u = (None, s1)", OF s1] show ?thesis by (auto simp: same_access_def data_set id_data_set id_set data_id_set)
qed

text \<open>\<open>ExecuteWorkflow\<close> touches neither.\<close>

lemma execute_workflow:
  "post (ExecuteWorkflow (Some (impl K)) d s)
    (\<lambda>_. same_access (impl K) s)
    (same_access (impl K) s) (same_access (impl K) s)"
  using execute_keeps [of K d s]
  by (cases "we_Execute (impl K) d s")
    (auto simp: ExecuteWorkflow_def same_access_def split: option.splits)

end

interpretation workflow_data: workflow_execution "\<lambda>(W, D). workflowExecutionData_WorkflowExecution W D"
proof (unfold_locales, goal_cases)
  case (5 K d s)
  obtain W D where K: "K = (W, D)" by (cases K)
  have "post (Execute (map_order W) (turns W) (pipeline W) D d s) (\<lambda>_. same_frame s) (same_frame s) (same_frame s)"
    by (rule frame.Execute_R)
  then show ?case
    unfolding K workflowExecutionData_WorkflowExecution_def prod.case WorkflowExecution.simps
    by (rule post_mono) (auto simp: same_access_def same_frame_def op_defs)
qed (auto simp: workflowExecutionData_WorkflowExecution_def op_defs)

text \<open>
  \<open>workflow.SetQueryHandler\<close> on a workflow's state. The handler is kept by the SDK, which
  runs it when a query arrives.
\<close>

definition set_query_handler ::
    "('d, 'fn, 'v, 'o, 'w) workflow_sdk \<Rightarrow> string \<Rightarrow> (('p, 'f, 'c, 'w) wstate \<Rightarrow> go_error + 'p option)
       \<Rightarrow> ('p, 'f, 'c, 'w) wstate \<Rightarrow> err \<times> ('p, 'f, 'c, 'w) wstate" where
  "set_query_handler W q handler s =
    (let (e, s1) = in_world (SetQueryHandler (pipeline W) q) s in (e, emit (EvQuery q) s1))"

lemma set_query_handler_access:
  "same_access (workflowExecutionData_WorkflowExecution W D) s (snd (set_query_handler W' q h s))"
  by (auto simp: same_access_def workflowExecutionData_WorkflowExecution_def set_query_handler_def in_world_def
      Let_def op_defs split: prod.splits)

text \<open>What \<open>ready\<close> lets a query of the pointer \<open>p\<close> see in a state.\<close>

definition ready_answer :: "('s \<Rightarrow> 'p option \<Rightarrow> err) option \<Rightarrow> 'p \<Rightarrow> 's \<Rightarrow> go_error + 'p option" where
  "ready_answer ready p s =
    (case ready of None \<Rightarrow> Inr (Some p)
     | Some f \<Rightarrow> (case f s (Some p) of Some e \<Rightarrow> Inl e | None \<Rightarrow> Inr (Some p)))"

text \<open>
  C17: A successful \<open>WorkflowInit\<close> has registered, under the given query type, a handler that
  from then on answers with the very pointer that was passed, or, when a \<open>ready\<close> was given
  and refuses the data, with its error: in the state \<open>WorkflowInit\<close> leaves, and wherever a
  later \<open>ExecuteWorkflow\<close> stops, parked or not. A workflow id that was set before is kept, an
  empty one is taken from the context, and \<open>ExecuteWorkflow\<close> leaves it.
\<close>

theorem WorkflowInit_query_stable:
  fixes set_query :: "string \<Rightarrow> (('p, 'fn, ('fn option, 'v, 'run, 'h, 'ctx, 'info, 'w) Temporal, 'w) wstate \<Rightarrow> go_error + 'p option)
      \<Rightarrow> ('p, 'fn, ('fn option, 'v, 'run, 'h, 'ctx, 'info, 'w) Temporal, 'w) wstate
      \<Rightarrow> err \<times> ('p, 'fn, ('fn option, 'v, 'run, 'h, 'ctx, 'info, 'w) Temporal, 'w) wstate"
    and W :: "('d, 'fn, 'v, 'o, 'w) workflow_sdk" and D :: "'d ExecutionDataOps"
  defines "I \<equiv> workflowExecutionData_WorkflowExecution W D"
  assumes "\<And>q h s. same_access I s (snd (set_query q h s))"
    and "WorkflowInit set_query info_ID (Some I) qt (Some p) ready s = (Inr q, s1)"
  shows "q = Some p \<and>
    (\<exists>handler s2. set_query qt handler s2 = (None, s1) \<and> handler s1 = ready_answer ready p s1 \<and>
       post (ExecuteWorkflow (Some I) data s1)
         (\<lambda>_ s'. handler s' = ready_answer ready p s' \<and> we_GetWorkflowID I s' = we_GetWorkflowID I s1)
         (\<lambda>s'. handler s' = ready_answer ready p s' \<and> we_GetWorkflowID I s' = we_GetWorkflowID I s1)
         (\<lambda>s'. handler s' = ready_answer ready p s' \<and> we_GetWorkflowID I s' = we_GetWorkflowID I s1)) \<and>
    we_GetWorkflowID I s1 = (if we_GetWorkflowID I s = '''' then info_ID (we_SetExecutionData I (Some p) s)
      else we_GetWorkflowID I s)"
proof -
  let ?h = "\<lambda>t. queryHandler (map_option (\<lambda>f. f t) ready) I t"
  have init: "(\<exists>s2. set_query qt ?h s2 = (None, s1)) \<and> q = Some p \<and> we_GetExecutionData I s1 = Some p \<and>
    we_GetWorkflowID I s1 = (if we_GetWorkflowID I s = '''' then info_ID (we_SetExecutionData I (Some p) s)
      else we_GetWorkflowID I s)"
    unfolding I_def
    by (rule workflow_data.init_sets [where K = "(W, D)", unfolded prod.case, OF assms(2,3) [unfolded I_def]])
  have answers: "?h t = ready_answer ready p t" if "we_GetExecutionData I t = Some p" for t
    using that by (cases ready) (simp_all add: queryHandler_def ready_answer_def Let_def)
  have "post (ExecuteWorkflow (Some I) data s1) (\<lambda>_. same_access I s1) (same_access I s1) (same_access I s1)"
    unfolding I_def by (rule workflow_data.execute_workflow [where K = "(W, D)", unfolded prod.case])
  then have "post (ExecuteWorkflow (Some I) data s1)
      (\<lambda>_ s'. ?h s' = ready_answer ready p s' \<and> we_GetWorkflowID I s' = we_GetWorkflowID I s1)
      (\<lambda>s'. ?h s' = ready_answer ready p s' \<and> we_GetWorkflowID I s' = we_GetWorkflowID I s1)
      (\<lambda>s'. ?h s' = ready_answer ready p s' \<and> we_GetWorkflowID I s' = we_GetWorkflowID I s1)"
    by (rule post_mono) (use init answers in \<open>simp_all add: same_access_def\<close>)
  with init answers [of s1] show ?thesis by blast
qed

definition demo_workflow_sdk :: "(string, unit, string, unit, nat) workflow_sdk" where
  "demo_workflow_sdk = \<lparr>pipeline = demo_sdk None (RawMessage ''null'') None,
     signal_ops = \<lparr>Receive = (\<lambda>n w. None), Select = (\<lambda>ns w. None), AwaitSignal = (\<lambda>n t w. (Inr None, w)),
       SignalExternal = (\<lambda>wid rid n v w. (None, w)), ExecuteChild = (\<lambda>wid n w. (Inr (wid, ''''), w)),
       ChildResult = (\<lambda>wid rid w. (Inr '''', w))\<rparr>,
     workflow_SetQueryHandler = (\<lambda>n fn w. (None, w)), workflow_SetUpdateHandler = (\<lambda>n fn opt w. (None, w)),
     workflow_Go = (\<lambda>fn w. w), map_order = [], turns = 5, string_of_value = Some, type_text = (\<lambda>_. ''string'')\<rparr>"

definition demo_iface :: "((nat, unit, (unit option, string, unit, unit, unit, unit, nat) Temporal, nat) wstate,
    nat, string, nat, unit, string, unit, unit, unit) WorkflowExecution" where
  "demo_iface = workflowExecutionData_WorkflowExecution demo_workflow_sdk demo_data"

text \<open>A workflow whose data are not ready before its world has moved on.\<close>

definition demo_ready :: "((nat, unit, (unit option, string, unit, unit, unit, unit, nat) Temporal, nat) wstate
    \<Rightarrow> nat option \<Rightarrow> err) option" where
  "demo_ready = Some (\<lambda>s p. if world s = 0 then Some (External ''not ready'') else None)"

definition demo_init :: "(unit option, string, unit, unit, unit, unit, nat) Temporal \<Rightarrow> nat
    \<Rightarrow> (nat, unit, (unit option, string, unit, unit, unit, unit, nat) Temporal, nat) wstate" where
  "demo_init t w = snd (WorkflowInit (set_query_handler demo_workflow_sdk) (\<lambda>s. ''run-1'') (Some demo_iface) ''state''
     (Some 3) demo_ready \<lparr>wf = NewWorkflowExecution t, world = w, history = []\<rparr>)"

theorem WorkflowInit_query_stable_witness:
  "\<forall>t. (\<exists>handler s2. set_query_handler demo_workflow_sdk ''state'' handler s2 = (None, demo_init t 0) \<and>
       handler (demo_init t 0) = Inl (External ''not ready'')) \<and>
     (\<exists>handler s2. set_query_handler demo_workflow_sdk ''state'' handler s2 = (None, demo_init t 1) \<and>
       handler (demo_init t 1) = Inr (Some 3)) \<and>
     we_GetWorkflowID demo_iface (demo_init t 0) = ''run-1''"
proof
  fix t
  let ?s = "\<lambda>w. \<lparr>wf = NewWorkflowExecution t, world = w, history = []\<rparr>
    :: (nat, unit, (unit option, string, unit, unit, unit, unit, nat) Temporal, nat) wstate"
  have init: "WorkflowInit (set_query_handler demo_workflow_sdk) (\<lambda>s. ''run-1'')
      (Some (workflowExecutionData_WorkflowExecution demo_workflow_sdk demo_data)) ''state'' (Some 3) demo_ready (?s w) =
      (Inr (Some 3), demo_init t w)" for w
    by (simp add: demo_init_def demo_iface_def WorkflowInit_def Let_def op_defs workflowExecutionData_WorkflowExecution_def
        set_query_handler_def in_world_def demo_workflow_sdk_def demo_sdk_def)
  have world: "world (demo_init t w) = w" for w
    by (simp add: demo_init_def demo_iface_def WorkflowInit_def Let_def op_defs workflowExecutionData_WorkflowExecution_def
        set_query_handler_def in_world_def demo_workflow_sdk_def demo_sdk_def)
  note stable = WorkflowInit_query_stable [OF set_query_handler_access init, of _ None, folded demo_iface_def]
  have answer: "ready_answer demo_ready 3 (demo_init t w) = (if w = 0 then Inl (External ''not ready'') else Inr (Some 3))" for w
    by (simp add: ready_answer_def demo_ready_def world)
  have id: "we_GetWorkflowID demo_iface (?s 0) = ''''"
    by (simp add: demo_iface_def workflowExecutionData_WorkflowExecution_def NewWorkflowExecution_def op_defs)
  show "(\<exists>handler s2. set_query_handler demo_workflow_sdk ''state'' handler s2 = (None, demo_init t 0) \<and>
       handler (demo_init t 0) = Inl (External ''not ready'')) \<and>
     (\<exists>handler s2. set_query_handler demo_workflow_sdk ''state'' handler s2 = (None, demo_init t 1) \<and>
       handler (demo_init t 1) = Inr (Some 3)) \<and>
     we_GetWorkflowID demo_iface (demo_init t 0) = ''run-1''"
    using stable [of 0] stable [of 1] id answer [of 0] answer [of 1] by fastforce
qed


section \<open>Querying from outside\<close>

text \<open>
  C19: With a deadline the query loop ends: when the context's remaining time is
  measured by \<open>remaining\<close>, two more turns than that are enough.
\<close>

theorem QueryWorkflowData_terminates:
  assumes "deadline_measure E T remaining"
  shows "QueryWorkflowData (remaining w + 2) (Some E) (Some T) D marshal type_name qt wid rid dest st w \<noteq> None"
proof -
  have "queryLoop (Suc (remaining w + 1)) E T D marshal type_name qt wid rid dest st w \<noteq> None"
    by (rule queryLoop_ends [OF assms]) simp
  then show ?thesis by (simp add: QueryWorkflowData_def del: queryLoop.simps)
qed

text \<open>A context with five seconds left, and a client that never has the data.\<close>

definition demo_ctx :: "bool \<Rightarrow> nat query_ctx" where
  "demo_ctx bounded = \<lparr>ctx_Deadline = bounded,
     ctx_Err = (\<lambda>w. if 5 \<le> w then Some (External ''context deadline exceeded'') else None),
     tick = (\<lambda>w. (True, w + 1))\<rparr>"

definition no_data_client :: "(unit, string raw, unit, unit, unit, unit, 'w) Temporal" where
  "no_data_client = \<lparr>m_RegisterWorkflow = (\<lambda>d w. (Returns (), w)), m_RegisterActivity = (\<lambda>d w. (Returns (), w)),
     m_GetWorkflowInfo = (\<lambda>c. ((), None)), m_StartWorkflow = (\<lambda>so f args w. (Inr (), w)),
     m_SignalWorkflow = (\<lambda>wid rid n v w. (None, w)), m_QueryWorkflow = (\<lambda>wid rid qt args w. (Inr None, w)),
     m_CancelWorkflow = (\<lambda>wid w. (None, w)), m_GetWorkflowResult = (\<lambda>wid rid w. (Inr (RawValue ''''), w)),
     m_UpdateWorkflow = (\<lambda>q wid rid stage v w. (Inr (), w)), m_Start = (\<lambda>w. (Returns None, w)), m_Stop = (\<lambda>w. w)\<rparr>"

theorem QueryWorkflowData_terminates_witness:
  "QueryWorkflowData (5 + 2) (Some (demo_ctx True)) (Some no_data_client) demo_data (\<lambda>v. Inr v) (\<lambda>v. ''string'')
     ''state'' ''w'' '''' None (\<lambda>a. '''') 0 \<noteq> None"
proof -
  have "deadline_measure (demo_ctx True) no_data_client (\<lambda>w. 5 - w)"
    by (auto simp: deadline_measure_def demo_ctx_def no_data_client_def)
  from QueryWorkflowData_terminates [OF this, of 0] show ?thesis by simp
qed

text \<open>
  Without a deadline there is exactly one attempt: one turn decides, further turns
  would change nothing, and no second passes.
\<close>

theorem QueryWorkflowData_single_attempt:
  assumes "\<not> ctx_Deadline E"
  shows "QueryWorkflowData (Suc n) (Some (E\<lparr>tick := t\<rparr>)) T D marshal type_name qt wid rid dest st w =
    QueryWorkflowData 1 (Some E) T D marshal type_name qt wid rid dest st w \<and>
    QueryWorkflowData 1 (Some E) T D marshal type_name qt wid rid dest st w \<noteq> None"
  using assms
  by (auto simp: QueryWorkflowData_def Let_def split: option.splits prod.splits sum.splits)

text \<open>
  Decoding a query result writes at most through \<open>dest\<close>: no other data changes,
  and the pointer returned is \<open>dest\<close> or, untouched, the one that was received.
\<close>

theorem decodeExecutionData_frame:
  "case decodeExecutionData D marshal type_name raw dest st of
     ((res, e), st') \<Rightarrow>
       (st' = st \<or> (\<exists>a d. dest = Some a \<and> st' = st(a := d))) \<and>
       ((res = None) = (e \<noteq> None)) \<and>
       (res = None \<or> res = dest \<or> (\<exists>a. raw = RawData a \<and> res = Some a \<and> dest = None \<and> st' = st))"
  by (auto simp: decodeExecutionData_def unmarshalInto_def split: raw.splits option.splits sum.splits
      prod.splits)

end
