(* ===== verification/Go_Json.thy ===== *)
theory Go_Json
  imports Go_Prelude
begin

text \<open>
  What the code uses of package \<open>encoding/json\<close>, on parsed documents: how a struct
  is written as an object and how an object is read into a struct (exact key first,
  then any case; \<open>null\<close> leaves a scalar alone; a value of the wrong type is skipped
  and the first such error returned at the end). Documents are values of the
  datatype \<open>json\<close>; all numbers the code writes are integers, and the literal of any
  other number (\<open>1.5\<close>, \<open>1e3\<close>, \<open>-0\<close>) is kept as it is, to be refused by an integer field.
\<close>

section \<open>Documents\<close>

datatype json =
    JNull
  | JBool bool
  | JNum int
  | JDec string
  | JStr string
  | JArr "json list"
  | JObj "(string \<times> json) list"

definition lower_char :: "char \<Rightarrow> char" where
  "lower_char c = (let n = of_char c :: nat in if 65 \<le> n \<and> n \<le> 90 then char_of (n + 32) else c)"

definition fold_name :: "string \<Rightarrow> string" where
  "fold_name s = map lower_char s"

definition type_error :: go_error where
  "type_error = External ''json: cannot unmarshal value into Go value''"


section \<open>Reading scalars\<close>

type_synonym 'a reader = "json \<Rightarrow> 'a \<Rightarrow> err \<times> 'a"

fun read_uint64 :: "uint64 reader" where
  "read_uint64 JNull old = (None, old)"
| "read_uint64 (JNum n) old =
    (if 0 \<le> n \<and> n < 2 ^ 64 then (None, word_of_int n) else (Some type_error, old))"
| "read_uint64 _ old = (Some type_error, old)"

fun read_string :: "string reader" where
  "read_string JNull old = (None, old)"
| "read_string (JStr s) old = (None, s)"
| "read_string _ old = (Some type_error, old)"

fun read_bool :: "bool reader" where
  "read_bool JNull old = (None, old)"
| "read_bool (JBool b) old = (None, b)"
| "read_bool _ old = (Some type_error, old)"

fun read_elements :: "json list \<Rightarrow> err \<times> uint64 list" where
  "read_elements [] = (None, [])"
| "read_elements (j # js) =
    (let (e, w) = read_uint64 j 0; (e', ws) = read_elements js
     in (case e of None \<Rightarrow> e' | Some _ \<Rightarrow> e, w # ws))"

text \<open>A slice: \<open>null\<close> makes it nil, an array replaces it.\<close>

fun read_uint64s :: "uint64 list option reader" where
  "read_uint64s JNull old = (None, None)"
| "read_uint64s (JArr js) old = (let (e, ws) = read_elements js in (e, Some ws))"
| "read_uint64s _ old = (Some type_error, old)"

lemma read_elements_map: "read_elements (map (\<lambda>w. JNum (uint w)) ws) = (None, ws)"
  by (induction ws) (auto simp: uint_lt2p [where 'a = 64, simplified])


section \<open>Reading structs\<close>

text \<open>A struct is read field by field; a field has a name and a way to store a value.\<close>

type_synonym 'a fields = "(string \<times> 'a reader) list"

definition find_field :: "'a fields \<Rightarrow> string \<Rightarrow> 'a reader option" where
  "find_field fs key = (case map_of fs key of Some r \<Rightarrow> Some r
     | None \<Rightarrow> map_of (map (\<lambda>(n, r). (fold_name n, r)) fs) (fold_name key))"

fun read_members :: "'a fields \<Rightarrow> (string \<times> json) list \<Rightarrow> 'a \<Rightarrow> err \<times> 'a" where
  "read_members fs [] a = (None, a)"
| "read_members fs ((key, j) # kvs) a =
    (let (e, a1) = (case find_field fs key of None \<Rightarrow> (None, a) | Some r \<Rightarrow> r j a);
         (e', a2) = read_members fs kvs a1
     in (case e of None \<Rightarrow> e' | Some _ \<Rightarrow> e, a2))"

fun read_struct :: "'a fields \<Rightarrow> 'a reader" where
  "read_struct fs JNull a = (None, a)"
| "read_struct fs (JObj kvs) a = read_members fs kvs a"
| "read_struct fs _ a = (Some type_error, a)"

lemma read_members_append:
  "read_members fs (xs @ ys) a =
    (let (e, a1) = read_members fs xs a; (e', a2) = read_members fs ys a1
     in (case e of None \<Rightarrow> e' | Some _ \<Rightarrow> e, a2))"
  by (induction xs arbitrary: a) (auto simp: Let_def split: prod.splits option.splits)

text \<open>Store into one field with a getter-free setter.\<close>

definition into :: "'b reader \<Rightarrow> ('a \<Rightarrow> 'b) \<Rightarrow> ('b \<Rightarrow> 'a \<Rightarrow> 'a) \<Rightarrow> 'a reader" where
  "into r getf setf j a = (let (e, b) = r j (getf a) in (e, setf b a))"

lemma uint64_range [simp]: "0 \<le> uint (w :: uint64)" "uint (w :: uint64) < 18446744073709551616"
  using uint_lt2p [of w] by simp_all

lemma read_uint64_num [simp]: "read_uint64 (JNum (uint w)) old = (None, w)"
  by simp

end
