(* ===== verification/Go_Strconv.thy ===== *)
theory Go_Strconv
  imports Go_Prelude
begin

text \<open>
  Decimal text: \<open>strconv.Atoi\<close>, with the value it returns beside its error, and the
  lemmas by which printed numbers are read back.
\<close>

section \<open>strconv.Atoi\<close>

datatype parse_error = SyntaxErr | RangeErr

definition is_digit :: "char \<Rightarrow> bool" where
  "is_digit c \<longleftrightarrow> 48 \<le> (of_char c :: nat) \<and> (of_char c :: nat) \<le> 57"

definition digit :: "char \<Rightarrow> nat" where
  "digit c = of_char c - 48"

text \<open>The loop of \<open>ParseUint\<close>, base 10, 64 bits: a range error ends it at once.\<close>

fun parseUint :: "string \<Rightarrow> nat \<Rightarrow> parse_error + nat" where
  "parseUint [] n = Inr n"
| "parseUint (c # cs) n =
    (if \<not> is_digit c then Inl SyntaxErr
     else if n \<ge> 1844674407370955162 then Inl RangeErr
     else if n * 10 + digit c > 18446744073709551615 then Inl RangeErr
     else parseUint cs (n * 10 + digit c))"

definition maxInt :: int where "maxInt = 9223372036854775807"

text \<open>The value \<open>Atoi\<close> returns beside its error: 0 on bad syntax, clamped when out of range.\<close>

definition Atoi :: "string \<Rightarrow> int \<times> parse_error option" where
  "Atoi s =
    (let neg = (case s of c # _ \<Rightarrow> c = CHR ''-'' | [] \<Rightarrow> False);
         ds = (case s of c # r \<Rightarrow> if c = CHR ''-'' \<or> c = CHR ''+'' then r else s | [] \<Rightarrow> [])
     in if ds = [] then (0, Some SyntaxErr)
        else (case parseUint ds 0 of
                Inl SyntaxErr \<Rightarrow> (0, Some SyntaxErr)
              | Inl RangeErr \<Rightarrow> (if neg then - maxInt - 1 else maxInt, Some RangeErr)
              | Inr n \<Rightarrow>
                  if \<not> neg \<and> int n > maxInt then (maxInt, Some RangeErr)
                  else if neg \<and> int n > maxInt + 1 then (- maxInt - 1, Some RangeErr)
                  else (if neg then - int n else int n, None)))"


section \<open>Decimal text is read back\<close>

lemma parseUint_append:
  "parseUint (xs @ ys) n = (case parseUint xs n of Inl e \<Rightarrow> Inl e | Inr m \<Rightarrow> parseUint ys m)"
  by (induction xs arbitrary: n) auto

lemma digit_char:
  "d < 10 \<Longrightarrow> is_digit (char_of (48 + d)) \<and> digit (char_of (48 + d)) = d"
  by (simp add: is_digit_def digit_def)

lemma parseUint_digit:
  "d < 10 \<Longrightarrow> n * 10 + d < 2 ^ 64 \<Longrightarrow> parseUint [char_of (48 + d)] n = Inr (n * 10 + d)"
  using digit_char [of d] by auto

lemma parseUint_text: "n < 2 ^ 64 \<Longrightarrow> parseUint (nat_text n) 0 = Inr n"
proof (induction n rule: nat_text.induct)
  case (1 n)
  show ?case
  proof (cases "n < 10")
    case True
    then show ?thesis using parseUint_digit [of n 0] by (simp add: nat_text.simps [of n])
  next
    case False
    have "parseUint (nat_text (n div 10)) 0 = Inr (n div 10)"
      using 1 False by simp
    moreover have "n div 10 * 10 + n mod 10 = n" by simp
    ultimately show ?thesis using False parseUint_digit [of "n mod 10" "n div 10"] "1.prems"
      by (simp add: nat_text.simps [of n] parseUint_append del: parseUint.simps)
  qed
qed

lemma parseUint_large: "2 ^ 64 \<le> n \<Longrightarrow> parseUint (nat_text n) 0 = Inl RangeErr"
proof (induction n rule: nat_text.induct)
  case (1 n)
  then have big: "\<not> n < 10" by simp
  let ?c = "char_of (48 + n mod 10)"
  have d: "is_digit ?c" "digit ?c = n mod 10" using digit_char [of "n mod 10"] by auto
  show ?case
  proof (cases "2 ^ 64 \<le> n div 10")
    case True
    with 1 big show ?thesis by (simp add: nat_text.simps [of n] parseUint_append)
  next
    case False
    then have "parseUint (nat_text (n div 10)) 0 = Inr (n div 10)" by (intro parseUint_text) simp
    moreover have "n div 10 * 10 + n mod 10 = n" by simp
    ultimately show ?thesis using d "1.prems" big
      by (simp add: nat_text.simps [of n] parseUint_append)
  qed
qed

lemma nat_text_digits: "c \<in> set (nat_text n) \<Longrightarrow> is_digit c"
proof (induction n rule: nat_text.induct)
  case (1 n)
  then show ?case using digit_char [of n] digit_char [of "n mod 10"]
    by (auto simp: nat_text.simps [of n] split: if_splits)
qed

lemma nat_text_nonempty: "nat_text n \<noteq> []"
  by (simp add: nat_text.simps [of n])

lemma Atoi_text:
  "fst (Atoi (nat_text n)) = (if int n \<le> maxInt then int n else maxInt)"
proof -
  obtain c cs where t: "nat_text n = c # cs" using nat_text_nonempty by (meson neq_Nil_conv)
  have "is_digit c" using nat_text_digits [of c n] t by simp
  then have "c \<noteq> CHR ''-''" "c \<noteq> CHR ''+''" by (auto simp: is_digit_def)
  then have "Atoi (nat_text n) = (case parseUint (nat_text n) 0 of
      Inl SyntaxErr \<Rightarrow> (0, Some SyntaxErr) | Inl RangeErr \<Rightarrow> (maxInt, Some RangeErr)
    | Inr n \<Rightarrow> if int n > maxInt then (maxInt, Some RangeErr) else (int n, None))"
    unfolding t by (simp add: Atoi_def Let_def split: sum.splits parse_error.splits)
  then show ?thesis
    by (cases "n < 2 ^ 64") (auto simp: parseUint_text parseUint_large maxInt_def)
qed

end
