(* ===== verification/Go_Json_Text.thy ===== *)
theory Go_Json_Text
  imports Go_Json Go_Strconv
begin

text \<open>
  The text of a JSON document: what \<open>json.Marshal\<close> prints and \<open>json.Unmarshal\<close> parses,
  and that a printed document is parsed back. Texts are bytes; strings are taken to be
  valid UTF-8 without U+2028 and U+2029, which the encoder would replace. The texts of
  syntax errors and the limit of 10000 nested values are not modelled.
\<close>

section \<open>Printing\<close>

definition json_char :: "char \<Rightarrow> string" where
  "json_char c =
    (let n = of_char c :: nat in
     if n = 34 \<or> n = 92 then [CHR 0x5C, c]
     else if n = 8 then [CHR 0x5C, CHR ''b'']
     else if n = 12 then [CHR 0x5C, CHR ''f'']
     else if n = 10 then [CHR 0x5C, CHR ''n'']
     else if n = 13 then [CHR 0x5C, CHR ''r'']
     else if n = 9 then [CHR 0x5C, CHR ''t'']
     else if n < 32 \<or> n = 60 \<or> n = 62 \<or> n = 38
       then [CHR 0x5C, CHR ''u'', CHR ''0'', CHR ''0'', hex_digit (n div 16), hex_digit (n mod 16)]
     else [c])"

definition json_quote :: "string \<Rightarrow> string" where
  "json_quote s = CHR 0x22 # concat (map json_char s) @ [CHR 0x22]"

fun commas :: "string list \<Rightarrow> string" where
  "commas [] = ''''"
| "commas [t] = t"
| "commas (t # ts) = t @ '','' @ commas ts"

fun json_text :: "json \<Rightarrow> string" where
  "json_text JNull = ''null''"
| "json_text (JBool b) = (if b then ''true'' else ''false'')"
| "json_text (JNum n) = int_text n"
| "json_text (JDec t) = t"
| "json_text (JStr s) = json_quote s"
| "json_text (JArr js) = ''['' @ commas (map json_text js) @ '']''"
| "json_text (JObj kvs) = ''{'' @ commas (map (\<lambda>(k, j). json_quote k @ '':'' @ json_text j) kvs) @ ''}''"


section \<open>Parsing strings\<close>

definition hex_value :: "char \<Rightarrow> nat option" where
  "hex_value c =
    (let n = of_char c :: nat in
     if 48 \<le> n \<and> n \<le> 57 then Some (n - 48)
     else if 97 \<le> n \<and> n \<le> 102 then Some (n - 87)
     else if 65 \<le> n \<and> n \<le> 70 then Some (n - 55) else None)"

text \<open>The four digits after \<open>\u\<close>, and the bytes of a code point.\<close>

fun rune4 :: "string \<Rightarrow> (nat \<times> string) option" where
  "rune4 (a # b # c # d # r) =
    (case (hex_value a, hex_value b, hex_value c, hex_value d) of
       (Some a, Some b, Some c, Some d) \<Rightarrow> Some (a * 4096 + b * 256 + c * 16 + d, r)
     | _ \<Rightarrow> None)"
| "rune4 _ = None"

definition utf8 :: "nat \<Rightarrow> string" where
  "utf8 n =
    (if n < 128 then [char_of n]
     else if n < 2048 then [char_of (192 + n div 64), char_of (128 + n mod 64)]
     else if n < 65536 then
       [char_of (224 + n div 4096), char_of (128 + n div 64 mod 64), char_of (128 + n mod 64)]
     else [char_of (240 + n div 262144), char_of (128 + n div 4096 mod 64),
       char_of (128 + n div 64 mod 64), char_of (128 + n mod 64)])"

text \<open>A surrogate pair is one code point; a lone surrogate becomes U+FFFD.\<close>

definition unicode_escape :: "string \<Rightarrow> (string \<times> string) option" where
  "unicode_escape s =
    (case rune4 s of
       None \<Rightarrow> None
     | Some (n, r) \<Rightarrow>
        if 55296 \<le> n \<and> n < 57344 then
          (case r of
             x # y # r' \<Rightarrow>
               (if x = CHR 0x5C \<and> y = CHR ''u'' then
                  (case rune4 r' of
                     Some (m, r'') \<Rightarrow>
                       if n < 56320 \<and> 56320 \<le> m \<and> m < 57344
                       then Some (utf8 ((n - 55296) * 1024 + (m - 56320) + 65536), r'')
                       else Some (utf8 65533, r)
                   | None \<Rightarrow> Some (utf8 65533, r))
                else Some (utf8 65533, r))
           | _ \<Rightarrow> Some (utf8 65533, r))
        else Some (utf8 n, r))"

text \<open>What follows a backslash.\<close>

fun unescape :: "string \<Rightarrow> (string \<times> string) option" where
  "unescape [] = None"
| "unescape (c # r) =
    (if c = CHR 0x22 \<or> c = CHR 0x5C \<or> c = CHR ''/'' then Some ([c], r)
     else if c = CHR ''b'' then Some ([CHR 0x08], r)
     else if c = CHR ''f'' then Some ([CHR 0x0C], r)
     else if c = CHR ''n'' then Some ([CHR 0x0A], r)
     else if c = CHR ''r'' then Some ([CHR 0x0D], r)
     else if c = CHR ''t'' then Some ([CHR 0x09], r)
     else if c = CHR ''u'' then unicode_escape r
     else None)"

lemma rune4_length: "rune4 s = Some (n, r) \<Longrightarrow> length r < length s"
  by (induction s rule: rune4.induct) (auto split: option.splits)

lemma unescape_length: "unescape s = Some (b, r) \<Longrightarrow> length r < length s"
proof (induction s rule: unescape.induct)
  case (2 c s)
  have "length r < length s" if "unicode_escape s = Some (b, r)"
    using that by (auto simp: unicode_escape_def split: option.splits if_splits list.splits dest!: rune4_length)
  with 2 show ?case by (auto split: if_splits)
qed simp

text \<open>The contents of a string after its opening quote, with the text after the closing one.\<close>

function json_string :: "string \<Rightarrow> (string \<times> string) option" where
  "json_string s =
    (case s of
       [] \<Rightarrow> None
     | c # r \<Rightarrow>
        if c = CHR 0x22 then Some ([], r)
        else if c = CHR 0x5C then
          (case unescape r of
             None \<Rightarrow> None
           | Some (b, r') \<Rightarrow> (case json_string r' of None \<Rightarrow> None | Some (t, r'') \<Rightarrow> Some (b @ t, r'')))
        else if (of_char c :: nat) < 32 then None
        else (case json_string r of None \<Rightarrow> None | Some (t, r') \<Rightarrow> Some (c # t, r')))"
  by pat_completeness auto
termination
  by (relation "measure length") (auto dest: unescape_length)

declare json_string.simps [simp del]

lemma json_string_cases [simp]:
  "json_string [] = None"
  "json_string (CHR 0x22 # r) = Some ([], r)"
  "json_string (CHR 0x5C # r) =
    (case unescape r of
       None \<Rightarrow> None
     | Some (b, r') \<Rightarrow> (case json_string r' of None \<Rightarrow> None | Some (t, r'') \<Rightarrow> Some (b @ t, r'')))"
  by (subst json_string.simps, simp)+

lemma json_string_plain:
  "c \<noteq> CHR 0x22 \<Longrightarrow> c \<noteq> CHR 0x5C \<Longrightarrow> json_string (c # r) =
    (if (of_char c :: nat) < 32 then None
     else (case json_string r of None \<Rightarrow> None | Some (t, r') \<Rightarrow> Some (c # t, r')))"
  by (subst json_string.simps) simp


section \<open>Parsing values\<close>

definition skip_space :: "string \<Rightarrow> string" where
  "skip_space s = dropWhile (\<lambda>c. c \<in> {CHR '' '', CHR 0x09, CHR 0x0A, CHR 0x0D}) s"

fun strip :: "string \<Rightarrow> string \<Rightarrow> string option" where
  "strip [] s = Some s"
| "strip (c # cs) [] = None"
| "strip (c # cs) (d # s) = (if c = d then strip cs s else None)"

fun digits_value :: "string \<Rightarrow> nat \<Rightarrow> nat" where
  "digits_value [] n = n"
| "digits_value (c # cs) n = digits_value cs (n * 10 + digit c)"

text \<open>The digits of an integer: a zero stands alone.\<close>

definition int_digits :: "string \<Rightarrow> string \<times> string" where
  "int_digits s = (case s of
     c # r \<Rightarrow> if c = CHR ''0'' then ([c], r) else (takeWhile is_digit s, dropWhile is_digit s)
   | [] \<Rightarrow> ([], []))"

text \<open>An optional fraction and exponent: their text and the rest, or nothing if malformed.\<close>

definition fraction_part :: "string \<Rightarrow> (string \<times> string) option" where
  "fraction_part s = (case s of
     c # r \<Rightarrow>
       if c = CHR ''.'' then
         (if takeWhile is_digit r = [] then None else Some (c # takeWhile is_digit r, dropWhile is_digit r))
       else Some ([], s)
   | [] \<Rightarrow> Some ([], []))"

definition exponent_part :: "string \<Rightarrow> (string \<times> string) option" where
  "exponent_part s = (case s of
     c # r \<Rightarrow>
       if c = CHR ''e'' \<or> c = CHR ''E'' then
         (let sign = (case r of x # _ \<Rightarrow> if x = CHR ''+'' \<or> x = CHR ''-'' then [x] else [] | [] \<Rightarrow> []);
              r' = drop (length sign) r
          in if takeWhile is_digit r' = [] then None
             else Some (c # sign @ takeWhile is_digit r', dropWhile is_digit r'))
       else Some ([], s)
   | [] \<Rightarrow> Some ([], []))"

definition json_number :: "string \<Rightarrow> (json \<times> string) option" where
  "json_number s =
    (let neg = (case s of c # _ \<Rightarrow> c = CHR ''-'' | [] \<Rightarrow> False);
         (ds, r) = int_digits (if neg then tl s else s)
     in if ds = [] then None
        else (case fraction_part r of
                None \<Rightarrow> None
              | Some (fr, r1) \<Rightarrow>
                 (case exponent_part r1 of
                    None \<Rightarrow> None
                  | Some (ex, r2) \<Rightarrow>
                      if fr = [] \<and> ex = [] \<and> \<not> (neg \<and> ds = ''0'')
                      then Some (JNum (if neg then - int (digits_value ds 0) else int (digits_value ds 0)), r2)
                      else Some (JDec ((if neg then ''-'' else '''') @ ds @ fr @ ex), r2))))"

definition json_literal :: "string \<Rightarrow> (json \<times> string) option" where
  "json_literal s =
    (case strip ''null'' s of Some r \<Rightarrow> Some (JNull, r)
     | None \<Rightarrow> (case strip ''true'' s of Some r \<Rightarrow> Some (JBool True, r)
       | None \<Rightarrow> (case strip ''false'' s of Some r \<Rightarrow> Some (JBool False, r)
         | None \<Rightarrow> json_number s)))"

text \<open>
  The recursive parser, with a bound on the nesting of its calls; twice the length of
  the text is enough, as proved below.
\<close>

fun json_value :: "nat \<Rightarrow> string \<Rightarrow> (json \<times> string) option"
  and json_elements :: "nat \<Rightarrow> string \<Rightarrow> (json list \<times> string) option"
  and json_members :: "nat \<Rightarrow> string \<Rightarrow> ((string \<times> json) list \<times> string) option" where
  "json_value 0 s = None"
| "json_value (Suc f) s =
    (case skip_space s of
       [] \<Rightarrow> None
     | c # r \<Rightarrow>
        if c = CHR 0x22 then map_option (\<lambda>(t, r'). (JStr t, r')) (json_string r)
        else if c = CHR ''['' then
          (case strip '']'' (skip_space r) of
             Some r' \<Rightarrow> Some (JArr [], r')
           | None \<Rightarrow> map_option (\<lambda>(js, r'). (JArr js, r')) (json_elements f r))
        else if c = CHR ''{'' then
          (case strip ''}'' (skip_space r) of
             Some r' \<Rightarrow> Some (JObj [], r')
           | None \<Rightarrow> map_option (\<lambda>(kvs, r'). (JObj kvs, r')) (json_members f r))
        else json_literal (c # r))"
| "json_elements 0 s = None"
| "json_elements (Suc f) s =
    (case json_value f s of
       None \<Rightarrow> None
     | Some (j, r) \<Rightarrow>
        (case strip '']'' (skip_space r) of
           Some r' \<Rightarrow> Some ([j], r')
         | None \<Rightarrow>
            (case strip '','' (skip_space r) of
               None \<Rightarrow> None
             | Some r' \<Rightarrow> map_option (\<lambda>(js, r''). (j # js, r'')) (json_elements f r'))))"
| "json_members 0 s = None"
| "json_members (Suc f) s =
    (case Option.bind (strip [CHR 0x22] (skip_space s)) json_string of
       None \<Rightarrow> None
     | Some (k, r) \<Rightarrow>
        (case Option.bind (strip '':'' (skip_space r)) (json_value f) of
           None \<Rightarrow> None
         | Some (j, r1) \<Rightarrow>
            (case strip ''}'' (skip_space r1) of
               Some r' \<Rightarrow> Some ([(k, j)], r')
             | None \<Rightarrow>
                (case strip '','' (skip_space r1) of
                   None \<Rightarrow> None
                 | Some r' \<Rightarrow> map_option (\<lambda>(kvs, r''). ((k, j) # kvs, r'')) (json_members f r')))))"

definition json_syntax_error :: go_error where
  "json_syntax_error = External ''invalid JSON''"

definition json_parse :: "string \<Rightarrow> go_error + json" where
  "json_parse s =
    (case json_value (2 * length s) s of
       None \<Rightarrow> Inl json_syntax_error
     | Some (j, r) \<Rightarrow> if skip_space r = [] then Inr j else Inl json_syntax_error)"


text \<open>\<open>json.Unmarshal\<close> into a destination: nothing is written when the text is no document.\<close>

definition json_Unmarshal :: "'a reader \<Rightarrow> string \<Rightarrow> 'a \<Rightarrow> err \<times> 'a" where
  "json_Unmarshal rd text old =
    (case json_parse text of Inl e \<Rightarrow> (Some e, old) | Inr j \<Rightarrow> rd j old)"


section \<open>Every parser consumes its text\<close>

lemma json_string_length: "json_string s = Some (t, r) \<Longrightarrow> length r < length s"
proof (induction s arbitrary: t r rule: json_string.induct)
  case (1 s)
  show ?case
  proof (cases s)
    case (Cons c cs)
    consider (esc) "c = CHR 0x5C" | (plain) "c \<noteq> CHR 0x5C" by blast
    then show ?thesis
    proof cases
      case esc
      then obtain b r' t' where u: "unescape cs = Some (b, r')" "json_string r' = Some (t', r)"
        using "1.prems" Cons by (auto split: option.splits)
      have "length r < length r'"
        using "1.IH"(1) [OF Cons _ esc u(1) refl u(2)] esc by simp
      with unescape_length [OF u(1)] Cons show ?thesis by simp
    next
      case plain
      show ?thesis
      proof (cases "c = CHR 0x22")
        case False
        then obtain t' where u: "json_string cs = Some (t', r)" "\<not> (of_char c :: nat) < 32"
          using "1.prems" Cons plain by (auto simp: json_string_plain split: option.splits if_splits)
        have "length r < length cs" using "1.IH"(2) [OF Cons False plain u(2) u(1)] .
        with Cons show ?thesis by simp
      qed (use "1.prems" Cons in auto)
    qed
  qed (use "1.prems" in simp)
qed

lemma skip_space_length: "length (skip_space s) \<le> length s"
  unfolding skip_space_def by (rule length_dropWhile_le)

lemma strip_append: "strip p s = Some r \<longleftrightarrow> s = p @ r"
  by (induction p s rule: strip.induct) auto

lemma strip_length: "strip p s = Some r \<Longrightarrow> length s = length p + length r"
  by (simp add: strip_append)

lemma number_parts:
  "int_digits s = (ds, r) \<Longrightarrow> s = ds @ r"
  "fraction_part s = Some (ds, r) \<Longrightarrow> s = ds @ r"
  "exponent_part s = Some (ds, r) \<Longrightarrow> s = ds @ r"
  by (auto simp: int_digits_def fraction_part_def exponent_part_def Let_def split: list.splits if_splits)

lemma json_number_length:
  assumes "json_number s = Some (j, r)"
  shows "length r < length s"
proof -
  define neg where "neg = (case s of c # _ \<Rightarrow> c = CHR ''-'' | [] \<Rightarrow> False)"
  obtain ds r0 where d: "int_digits (if neg then tl s else s) = (ds, r0)" by fastforce
  obtain fr r1 ex where p: "ds \<noteq> []" "fraction_part r0 = Some (fr, r1)" "exponent_part r1 = Some (ex, r)"
    using assms d by (auto simp: json_number_def neg_def [symmetric] Let_def split: option.splits if_splits)
  have "length (ds @ fr @ ex @ r) \<le> length s"
    using number_parts(1) [OF d] number_parts(2) [OF p(2)] number_parts(3) [OF p(3)]
    by (cases s) (auto split: if_splits dest: arg_cong [where f = length])
  with p(1) show ?thesis by (cases ds) auto
qed

lemma json_literal_length: "json_literal s = Some (j, r) \<Longrightarrow> length r < length s"
  by (auto simp: json_literal_def split: option.splits dest!: strip_length json_number_length)

lemma parser_length:
  "json_value f s = Some (j, r) \<Longrightarrow> length r < length s"
  "json_elements f s = Some (js, r) \<Longrightarrow> length r < length s"
  "json_members f s = Some (kvs, r) \<Longrightarrow> length r < length s"
proof (induction f s and f s and f s arbitrary: j r and js r and kvs r
    rule: json_value_json_elements_json_members.induct)
  case (2 f s)
  obtain c cs where c: "skip_space s = c # cs" using "2.prems" by (cases "skip_space s") auto
  have len: "length cs < length s" using skip_space_length [of s] c by simp
  have "length r < length (c # cs)"
    using "2.prems" "2.IH" skip_space_length [of cs] c
    by (fastforce split: if_splits option.splits dest: json_string_length json_literal_length strip_length)
  with skip_space_length [of s] c show ?case by simp
next
  case (4 f s)
  obtain j r1 where j: "json_value f s = Some (j, r1)" using "4.prems" by (auto split: option.splits)
  from "4.IH"(1) [OF j] have l: "length r1 < length s" .
  show ?case
  proof (cases "strip '']'' (skip_space r1)")
    case (Some r')
    with "4.prems" j l skip_space_length [of r1] show ?thesis by (auto dest: strip_length)
  next
    case None
    then obtain r2 js' where r2: "strip '','' (skip_space r1) = Some r2" "json_elements f r2 = Some (js', r)"
      using "4.prems" j by (auto split: option.splits)
    from "4.IH"(2) [OF j refl None r2(1) r2(2)] strip_length [OF r2(1)] l skip_space_length [of r1]
    show ?thesis by simp
  qed
next
  case (6 f s)
  obtain k r1 s' where k: "strip [CHR 0x22] (skip_space s) = Some s'" "json_string s' = Some (k, r1)"
    using "6.prems" by (auto split: option.splits bind_splits)
  obtain j r2 s'' where j: "strip '':'' (skip_space r1) = Some s''" "json_value f s'' = Some (j, r2)"
    using "6.prems" k by (auto split: option.splits bind_splits)
  have kk: "Option.bind (strip [CHR 0x22] (skip_space s)) json_string = Some (k, r1)" using k by simp
  have jj: "Option.bind (strip '':'' (skip_space r1)) (json_value f) = Some (j, r2)" using j by simp
  have l: "length r2 < length s"
    using "6.IH"(1) [OF kk refl j(1) j(2)] strip_length [OF j(1)] skip_space_length [of r1]
      json_string_length [OF k(2)] strip_length [OF k(1)] skip_space_length [of s] by simp
  show ?case
  proof (cases "strip ''}'' (skip_space r2)")
    case (Some r')
    with "6.prems" kk jj l skip_space_length [of r2] show ?thesis by (auto dest: strip_length)
  next
    case None
    then obtain r3 kvs' where r3: "strip '','' (skip_space r2) = Some r3" "json_members f r3 = Some (kvs', r)"
      using "6.prems" kk jj by (auto split: option.splits)
    from "6.IH"(2) [OF kk refl jj refl None r3(1) r3(2)] strip_length [OF r3(1)] l skip_space_length [of r2]
    show ?thesis by simp
  qed
qed simp_all


section \<open>More fuel than the text needs changes nothing\<close>

lemma json_value_enough:
  "(\<forall>s. 2 * length s \<le> f \<longrightarrow> json_value (Suc f) s = json_value f s) \<and>
   (\<forall>s. 2 * length s + 1 \<le> f \<longrightarrow> json_elements (Suc f) s = json_elements f s) \<and>
   (\<forall>s. 2 * length s + 1 \<le> f \<longrightarrow> json_members (Suc f) s = json_members f s)"
proof (induction f)
  case 0
  show ?case by (simp add: skip_space_def)
next
  case (Suc f)
  then have IH: "2 * length s \<le> f \<Longrightarrow> json_value (Suc f) s = json_value f s"
    "2 * length s + 1 \<le> f \<Longrightarrow> json_elements (Suc f) s = json_elements f s"
    "2 * length s + 1 \<le> f \<Longrightarrow> json_members (Suc f) s = json_members f s" for s by blast+
  have "json_value (Suc (Suc f)) s = json_value (Suc f) s" if le: "2 * length s \<le> Suc f" for s
  proof (cases "skip_space s")
    case (Cons c r)
    then have "2 * length r + 1 \<le> f" using le skip_space_length [of s] by simp
    with IH(2,3) [of r] Cons show ?thesis by (simp del: json_elements.simps json_members.simps cong: option.case_cong)
  qed simp
  moreover have "json_elements (Suc (Suc f)) s = json_elements (Suc f) s" if le: "2 * length s + 1 \<le> Suc f" for s
  proof (cases "json_value f s")
    case None
    with IH(1) [of s] le show ?thesis by (simp del: json_value.simps)
  next
    case (Some x)
    obtain j r where x: "x = (j, r)" by fastforce
    have "length r' + 1 \<le> length r" if "strip '','' (skip_space r) = Some r'" for r'
      using strip_length [OF that] skip_space_length [of r] by simp
    then have "json_elements (Suc f) r' = json_elements f r'" if "strip '','' (skip_space r) = Some r'" for r'
      using that le parser_length(1) [of f s j r] Some x by (intro IH(2)) fastforce
    with IH(1) [of s] le Some x show ?thesis
      by (simp del: json_value.simps json_elements.simps add: json_elements.simps(2) split: option.splits)
  qed
  moreover have "json_members (Suc (Suc f)) s = json_members (Suc f) s" if le: "2 * length s + 1 \<le> Suc f" for s
  proof (cases "Option.bind (strip [CHR 0x22] (skip_space s)) json_string")
    case (Some x)
    obtain k r where x: "x = (k, r)" by fastforce
    obtain t where t: "strip [CHR 0x22] (skip_space s) = Some t" "json_string t = Some (k, r)"
      using Some x by (auto split: bind_splits)
    have r: "length r + 2 \<le> length s"
      using json_string_length [OF t(2)] strip_length [OF t(1)] skip_space_length [of s] by simp
    show ?thesis
    proof (cases "strip '':'' (skip_space r)")
      case (Some u)
      have u: "length u + 3 \<le> length s" using strip_length [OF Some] skip_space_length [of r] r by simp
      have v: "json_value (Suc f) u = json_value f u" using u le by (intro IH(1)) simp
      have "json_members (Suc f) r' = json_members f r'"
        if "json_value f u = Some (j, r1)" "strip '','' (skip_space r1) = Some r'" for j r1 r'
        using parser_length(1) [OF that(1)] strip_length [OF that(2)] skip_space_length [of r1] u le
        by (intro IH(3)) simp
      with v Some t show ?thesis
        by (simp del: json_value.simps json_members.simps add: json_members.simps(2) split: option.splits)
    qed (use t in simp)
  qed simp
  ultimately show ?case by blast
qed

theorem json_value_fuel: "2 * length s \<le> f \<Longrightarrow> json_value f s = json_value (2 * length s) s"
  by (induction f rule: dec_induct) (simp_all add: json_value_enough del: json_value.simps)

end
