(* ===== verification/Go_Json_Roundtrip.thy ===== *)
theory Go_Json_Roundtrip
  imports Go_Json_Text
begin

text \<open>
  A printed document is parsed back: strings character by character, integers by
  their digits, and whole documents by induction on the document, with more fuel than
  the parser needs. \<open>json_parse_text\<close> is the fact the components use.
\<close>

section \<open>Strings\<close>

lemma hex_value_digit: "d < 16 \<Longrightarrow> hex_value (hex_digit d) = Some d"
  by (auto simp: hex_value_def hex_digit_def Let_def)

lemma unescape_hex:
  assumes "(of_char c :: nat) < 128"
  shows "unescape (CHR ''u'' # CHR ''0'' # CHR ''0'' # hex_digit (of_char c div 16) # hex_digit (of_char c mod 16) # r)
    = Some ([c], r)"
proof -
  have "hex_value (CHR ''0'') = Some 0" by (simp add: hex_value_def)
  moreover have "(of_char c :: nat) div 16 < 16" using assms by simp
  moreover have "(of_char c :: nat) div 16 * 16 + of_char c mod 16 = of_char c" by simp
  ultimately have "rune4 (CHR ''0'' # CHR ''0'' # hex_digit (of_char c div 16) # hex_digit (of_char c mod 16) # r)
    = Some (of_char c, r)"
    by (simp add: hex_value_digit)
  with assms show ?thesis by (simp add: unicode_escape_def utf8_def)
qed

lemma char_code: "(of_char c :: nat) = n \<Longrightarrow> c = char_of n"
  by auto

lemma json_char_cases:
  obtains (quoted) "c \<in> {CHR 0x22, CHR 0x5C, CHR 0x08, CHR 0x0C, CHR 0x0A, CHR 0x0D, CHR 0x09}"
  | (hex) "(of_char c :: nat) < 128" "json_char c =
      [CHR 0x5C, CHR ''u'', CHR ''0'', CHR ''0'', hex_digit (of_char c div 16), hex_digit (of_char c mod 16)]"
  | (plain) "json_char c = [c]" "c \<noteq> CHR 0x22" "c \<noteq> CHR 0x5C" "\<not> (of_char c :: nat) < 32"
proof -
  let ?n = "of_char c :: nat"
  consider "?n \<in> {34, 92, 8, 12, 10, 13, 9}"
    | "?n \<notin> {34, 92, 8, 12, 10, 13, 9}" "?n < 32 \<or> ?n = 60 \<or> ?n = 62 \<or> ?n = 38"
    | "?n \<notin> {34, 92, 8, 12, 10, 13, 9}" "\<not> (?n < 32 \<or> ?n = 60 \<or> ?n = 62 \<or> ?n = 38)" by blast
  then show thesis
  proof cases
    case 1
    then have "c \<in> {char_of (34 :: nat), char_of (92 :: nat), char_of (8 :: nat), char_of (12 :: nat),
        char_of (10 :: nat), char_of (13 :: nat), char_of (9 :: nat)}"
      by (auto dest: char_code)
    then show ?thesis by (intro quoted) (simp add: char_of_def bit_Suc_0_iff)
  next
    case 2
    then show ?thesis by (intro hex) (auto simp: json_char_def Let_def)
  next
    case 3
    then show ?thesis by (intro plain) (auto simp: json_char_def Let_def)
  qed
qed

lemma json_char_read:
  "json_string (json_char c @ r) = map_option (\<lambda>(t, r'). (c # t, r')) (json_string r)"
proof (cases c rule: json_char_cases)
  case quoted
  then show ?thesis by (auto simp: json_char_def split: option.splits)
next
  case hex
  with unescape_hex [OF hex(1), of r] show ?thesis by (auto split: option.splits)
next
  case plain
  then show ?thesis by (auto simp: json_string_plain split: option.splits)
qed

lemma json_string_quote: "json_string (concat (map json_char s) @ CHR 0x22 # r) = Some (s, r)"
  by (induction s) (simp_all add: json_char_read)


section \<open>Numbers\<close>

text \<open>What may follow an element: a separator or a closing bracket, or nothing.\<close>

definition delimited :: "string \<Rightarrow> bool" where
  "delimited r = (case r of [] \<Rightarrow> True | c # _ \<Rightarrow> c \<in> set '',]}'')"

lemma digits_value_append: "digits_value (xs @ ys) n = digits_value ys (digits_value xs n)"
  by (induction xs arbitrary: n) auto

lemma digits_value_text: "digits_value (nat_text n) 0 = n"
proof (induction n rule: nat_text.induct)
  case (1 n)
  then show ?case using digit_char [of n] digit_char [of "n mod 10"]
    by (simp add: nat_text.simps [of n] digits_value_append)
qed

lemma nat_text_zero: "0 < n \<Longrightarrow> hd (nat_text n) \<noteq> CHR ''0''"
proof (induction n rule: nat_text.induct)
  case (1 n)
  show ?case
  proof (cases "n < 10")
    case True
    have "digit (CHR ''0'') = 0" by (simp add: digit_def)
    with True digit_char [of n] "1.prems" have "char_of (48 + n) \<noteq> CHR ''0''" by auto
    with True show ?thesis by (simp add: nat_text.simps [of n])
  next
    case False
    with 1 have "hd (nat_text (n div 10)) \<noteq> CHR ''0''" by simp
    with False show ?thesis using nat_text_nonempty [of "n div 10"] by (simp add: nat_text.simps [of n])
  qed
qed

lemma not_digit [simp]: "\<not> is_digit (CHR '','')" "\<not> is_digit (CHR '']'')" "\<not> is_digit (CHR ''}'')" "\<not> is_digit (CHR ''-'')"
  by (simp_all add: is_digit_def)

lemma digits_delimited:
  assumes "delimited r"
  shows "takeWhile is_digit (nat_text n @ r) = nat_text n" "dropWhile is_digit (nat_text n @ r) = r"
proof -
  have r: "takeWhile is_digit r = []" "dropWhile is_digit r = r"
    using assms by (cases r; auto simp: delimited_def)+
  have d: "\<And>c. c \<in> set (nat_text n) \<Longrightarrow> is_digit c" by (rule nat_text_digits)
  show "takeWhile is_digit (nat_text n @ r) = nat_text n" using d r by (simp add: takeWhile_append2)
  show "dropWhile is_digit (nat_text n @ r) = r" using d r by (simp add: dropWhile_append2)
qed

lemma int_digits_text:
  assumes "delimited r" shows "int_digits (nat_text n @ r) = (nat_text n, r)"
proof (cases "n = 0")
  case True
  then show ?thesis by (simp add: int_digits_def nat_text.simps [of 0] char_of_def bit_Suc_0_iff)
next
  case False
  then obtain c cs where t: "nat_text n = c # cs" "c \<noteq> CHR ''0''"
    using nat_text_zero [of n] nat_text_nonempty [of n] by (cases "nat_text n") auto
  with digits_delimited [OF assms, of n] show ?thesis by (simp add: int_digits_def)
qed

lemma no_fraction: "delimited r \<Longrightarrow> fraction_part r = Some ([], r) \<and> exponent_part r = Some ([], r)"
  by (cases r) (auto simp: delimited_def fraction_part_def exponent_part_def)

lemma json_number_text:
  assumes "delimited r" shows "json_number (int_text i @ r) = Some (JNum i, r)"
proof (cases "i < 0")
  case True
  then have "nat_text (nat (- i)) \<noteq> ''0''"
    using nat_text_zero [of "nat (- i)"] by auto
  with True show ?thesis
    by (simp add: int_text_def json_number_def int_digits_text [OF assms] no_fraction [OF assms]
        nat_text_nonempty digits_value_text)
next
  case False
  obtain c cs where t: "nat_text (nat i) = c # cs" using nat_text_nonempty by (meson neq_Nil_conv)
  then have "c \<noteq> CHR ''-''" using nat_text_digits [of c "nat i"] by auto
  with False t show ?thesis
    using int_digits_text [OF assms, of "nat i"] digits_value_text [of "nat i"]
    by (simp add: int_text_def json_number_def no_fraction [OF assms])
qed


text \<open>Any other literal, such as a float's, is read as it is: with a fraction, an exponent, or both.\<close>

lemma digits_before_delimiter:
  assumes "delimited r"
  shows "takeWhile is_digit (s @ r) = takeWhile is_digit s" "dropWhile is_digit (s @ r) = dropWhile is_digit s @ r"
proof -
  have "takeWhile is_digit r = []" "dropWhile is_digit r = r"
    using assms by (cases r; auto simp: delimited_def)+
  then show "takeWhile is_digit (s @ r) = takeWhile is_digit s" "dropWhile is_digit (s @ r) = dropWhile is_digit s @ r"
    by (induction s) auto
qed

lemma int_digits_delimited:
  assumes "delimited r" and "int_digits s = (ds, t)"
  shows "int_digits (s @ r) = (ds, t @ r)"
proof (cases s)
  case Nil
  with assms show ?thesis using digits_before_delimiter [OF assms(1), of "[]"]
    by (cases r) (auto simp: int_digits_def delimited_def)
next
  case (Cons c cs)
  with assms(2) digits_before_delimiter [OF assms(1), of s] show ?thesis
    by (auto simp: int_digits_def split: if_splits)
qed

lemma fraction_delimited:
  assumes "delimited r" and "fraction_part s = Some (fr, t)"
  shows "fraction_part (s @ r) = Some (fr, t @ r)"
proof (cases s)
  case Nil
  with assms show ?thesis using no_fraction [OF assms(1)] by (simp add: fraction_part_def)
next
  case (Cons c cs)
  with assms(2) digits_before_delimiter [OF assms(1), of cs] show ?thesis
    by (auto simp: fraction_part_def split: if_splits)
qed

lemma exponent_delimited:
  assumes "delimited r" and "exponent_part s = Some (ex, t)"
  shows "exponent_part (s @ r) = Some (ex, t @ r)"
proof (cases s)
  case Nil
  with assms show ?thesis using no_fraction [OF assms(1)] by (simp add: exponent_part_def)
next
  case (Cons c cs)
  show ?thesis
  proof (cases cs)
    case Nil
    with Cons assms show ?thesis
      using digits_before_delimiter [OF assms(1), of "[]"]
      by (auto simp: exponent_part_def Let_def split: if_splits list.splits)
  next
    case (Cons x xs)
    with \<open>s = c # cs\<close> assms(2) digits_before_delimiter [OF assms(1), of cs]
      digits_before_delimiter [OF assms(1), of xs] show ?thesis
      by (auto simp: exponent_part_def Let_def split: if_splits)
  qed
qed

lemma json_number_literal:
  assumes "json_number t = Some (JDec t, [])" and "delimited r"
  shows "json_number (t @ r) = Some (JDec t, r)"
proof -
  let ?neg = "case t of c # _ \<Rightarrow> c = CHR ''-'' | [] \<Rightarrow> False"
  have t: "t \<noteq> []" using assms(1) by (auto simp: json_number_def int_digits_def)
  then have neg: "(case t @ r of c # _ \<Rightarrow> c = CHR ''-'' | [] \<Rightarrow> False) = ?neg"
    and tl: "(if ?neg then tl (t @ r) else t @ r) = (if ?neg then tl t else t) @ r" by (auto split: list.splits)
  obtain ds r0 where ds: "int_digits (if ?neg then tl t else t) = (ds, r0)" by fastforce
  from assms(1) ds obtain fr r1 ex where fr: "fraction_part r0 = Some (fr, r1)" "exponent_part r1 = Some (ex, [])"
    and "ds \<noteq> []" "JDec t = JDec ((if ?neg then ''-'' else '''') @ ds @ fr @ ex)"
    "\<not> (fr = [] \<and> ex = [] \<and> \<not> (?neg \<and> ds = ''0''))"
    by (auto simp: json_number_def Let_def split: option.splits prod.splits if_splits)
  with int_digits_delimited [OF assms(2) ds] fraction_delimited [OF assms(2) fr(1)] exponent_delimited [OF assms(2) fr(2)]
  show ?thesis unfolding json_number_def Let_def neg tl by (simp del: json.inject)
qed


section \<open>Documents\<close>

text \<open>
  The documents the encoder writes: a number that is not an integer is some literal of
  the JSON grammar, whatever digits and exponent the encoder has chosen for it.
\<close>

fun printable :: "json \<Rightarrow> bool" where
  "printable (JDec t) \<longleftrightarrow> json_number t = Some (JDec t, [])"
| "printable (JArr js) = (\<forall>j\<in>set js. printable j)"
| "printable (JObj kvs) = (\<forall>p\<in>set kvs. printable (snd p))"
| "printable _ = True"

lemma strip_self [simp]: "strip p (p @ r) = Some r"
  by (simp add: strip_append)

lemma skip_space_cons [simp]:
  "c \<notin> {CHR '' '', CHR 0x09, CHR 0x0A, CHR 0x0D} \<Longrightarrow> skip_space (c # r) = c # r"
  by (simp add: skip_space_def)

lemma int_text_head:
  obtains c cs where "int_text i = c # cs" "is_digit c \<or> c = CHR ''-''"
proof (cases "i < 0")
  case False
  obtain c cs where t: "nat_text (nat i) = c # cs" using nat_text_nonempty by (meson neq_Nil_conv)
  with nat_text_digits [of c "nat i"] False that show ?thesis by (auto simp: int_text_def)
qed (auto simp: int_text_def intro: that)

text \<open>No document starts like another kind of value, with a space, or with a closing bracket.\<close>

lemma number_head:
  assumes "is_digit c \<or> c = CHR ''-''"
  shows "c \<notin> set '' \"[]{},:ntf'' \<union> {CHR 0x09, CHR 0x0A, CHR 0x0D}"
  using assms by (auto simp: is_digit_def)

lemma json_number_head:
  assumes "json_number t = Some (JDec t, [])"
  obtains c cs where "t = c # cs" "is_digit c \<or> c = CHR ''-''"
proof (cases t)
  case Nil
  with assms show ?thesis by (simp add: json_number_def int_digits_def)
next
  case (Cons c cs)
  have "is_digit c" if "c \<noteq> CHR ''-''"
    using assms Cons that by (auto simp: json_number_def int_digits_def is_digit_def Let_def split: if_splits)
  with Cons that show ?thesis by blast
qed

lemma text_head:
  assumes "printable j"
  obtains c cs where "json_text j = c # cs" "c \<notin> set '' ]},:'' \<union> {CHR 0x09, CHR 0x0A, CHR 0x0D}"
proof (cases j)
  case (JNum i)
  obtain c cs where "int_text i = c # cs" "is_digit c \<or> c = CHR ''-''" by (rule int_text_head)
  with JNum number_head [of c] that show ?thesis by auto
next
  case (JDec t)
  then obtain c cs where "t = c # cs" "is_digit c \<or> c = CHR ''-''"
    using assms by (auto elim: json_number_head)
  with JDec number_head [of c] that show ?thesis by auto
next
  case (JBool b)
  then show ?thesis by (cases b) (use that in auto)
qed (use that assms in \<open>auto simp: json_quote_def\<close>)

lemma skip_text [simp]: "printable j \<Longrightarrow> skip_space (json_text j @ r) = json_text j @ r"
  by (rule text_head) auto

lemma strip_text [simp]:
  "printable j \<Longrightarrow> strip '']'' (json_text j @ r) = None"
  by (rule text_head) auto

text \<open>A text that starts like a number is parsed as one.\<close>

lemma json_value_digits:
  assumes "json_number t = Some p" and "t = c # cs" and "is_digit c \<or> c = CHR ''-''"
  shows "json_value (Suc f) t = Some p"
proof -
  have "strip ''null'' t = None" "strip ''true'' t = None" "strip ''false'' t = None"
    using assms(2) number_head [OF assms(3)] by auto
  with assms number_head [OF assms(3)] show ?thesis by (auto simp: json_literal_def)
qed

lemma json_value_number:
  assumes "delimited r"
  shows "json_value (Suc f) (int_text i @ r) = Some (JNum i, r)"
proof -
  obtain c cs where c: "int_text i = c # cs" "is_digit c \<or> c = CHR ''-''" by (rule int_text_head)
  show ?thesis by (rule json_value_digits [OF json_number_text [OF assms] _ c(2)]) (simp add: c(1))
qed

lemma json_value_literal:
  assumes "json_number t = Some (JDec t, [])" and "delimited r"
  shows "json_value (Suc f) (t @ r) = Some (JDec t, r)"
proof -
  obtain c cs where c: "t = c # cs" "is_digit c \<or> c = CHR ''-''" by (rule json_number_head [OF assms(1)])
  show ?thesis by (rule json_value_digits [OF json_number_literal [OF assms] _ c(2)]) (simp add: c(1))
qed

lemma commas_Cons: "ts \<noteq> [] \<Longrightarrow> commas (t # ts) = t @ '','' @ commas ts"
  by (cases ts) auto

lemma delimited_simps [simp]: "delimited []" "delimited (CHR '','' # r)" "delimited (CHR '']'' # r)" "delimited (CHR ''}'' # r)"
  by (simp_all add: delimited_def)

lemma elements_text:
  assumes "\<And>j f r. j \<in> set js \<Longrightarrow> 2 * length (json_text j) \<le> f \<Longrightarrow> delimited r \<Longrightarrow>
      json_value f (json_text j @ r) = Some (j, r)"
    and "js \<noteq> []" and "2 * length (commas (map json_text js)) + 1 \<le> f"
  shows "json_elements f (commas (map json_text js) @ CHR '']'' # r) = Some (js, r)"
  using assms
proof (induction js arbitrary: f)
  case (Cons j js)
  obtain g where f: "f = Suc g" using Cons.prems(3) by (cases f) auto
  show ?case
  proof (cases "js = []")
    case True
    with f Cons.prems(1) [of j g "CHR '']'' # r"] Cons.prems(3) show ?thesis by simp
  next
    case False
    then have len: "2 * length (json_text j) \<le> g" "2 * length (commas (map json_text js)) + 1 \<le> g"
      using Cons.prems(3) f by (simp_all add: commas_Cons)
    from Cons.IH [OF _ False len(2)] Cons.prems(1)
    have "json_elements g (commas (map json_text js) @ CHR '']'' # r) = Some (js, r)" by simp
    with f False Cons.prems(1) [of j g] len(1) show ?thesis by (simp add: commas_Cons)
  qed
qed simp

abbreviation member_text :: "string \<times> json \<Rightarrow> string" where
  "member_text p \<equiv> json_quote (fst p) @ '':'' @ json_text (snd p)"

lemma members_text:
  assumes "\<And>p f r. p \<in> set ps \<Longrightarrow> 2 * length (json_text (snd p)) \<le> f \<Longrightarrow> delimited r \<Longrightarrow>
      json_value f (json_text (snd p) @ r) = Some (snd p, r)"
    and "ps \<noteq> []" and "2 * length (commas (map member_text ps)) + 1 \<le> f"
  shows "json_members f (commas (map member_text ps) @ CHR ''}'' # r) = Some (ps, r)"
  using assms
proof (induction ps arbitrary: f)
  case (Cons p ps)
  obtain g where f: "f = Suc g" using Cons.prems(3) by (cases f) auto
  obtain k j where p: "p = (k, j)" by fastforce
  have quote: "json_string (concat (map json_char k) @ CHR 0x22 # x) = Some (k, x)" for x
    by (rule json_string_quote)
  show ?case
  proof (cases "ps = []")
    case True
    with f p Cons.prems(1) [of p g "CHR ''}'' # r"] Cons.prems(3) show ?thesis
      by (simp add: json_quote_def quote)
  next
    case False
    then have len: "2 * length (json_text j) \<le> g" "2 * length (commas (map member_text ps)) + 1 \<le> g"
      using Cons.prems(3) f p by (simp_all add: commas_Cons)
    from Cons.IH [OF _ False len(2)] Cons.prems(1)
    have "json_members g (commas (map member_text ps) @ CHR ''}'' # r) = Some (ps, r)" by simp
    with f p False Cons.prems(1) [of p g] len(1) show ?thesis
      by (simp add: commas_Cons json_quote_def quote)
  qed
qed simp

lemma commas_head: "\<exists>u. commas (t # ts) = t @ u"
  by (cases ts) auto

lemma json_value_text:
  "printable j \<Longrightarrow> 2 * length (json_text j) \<le> f \<Longrightarrow> delimited r \<Longrightarrow> json_value f (json_text j @ r) = Some (j, r)"
proof (induction j arbitrary: f r)
  case (JArr js)
  obtain g where f: "f = Suc g" using JArr.prems(2) by (cases f) auto
  show ?case
  proof (cases "js = []")
    case False
    then obtain j js' where js: "js = j # js'" by (cases js) auto
    obtain u where "commas (map json_text js) = json_text j @ u"
      using commas_head [of "json_text j" "map json_text js'"] js by auto
    with JArr.prems(1) js have "strip '']'' (skip_space (commas (map json_text js) @ CHR '']'' # r)) = None" by simp
    with JArr f False show ?thesis by (simp add: elements_text)
  qed (simp add: f)
next
  case (JObj ps)
  obtain g where f: "f = Suc g" using JObj.prems(2) by (cases f) auto
  show ?case
  proof (cases "ps = []")
    case False
    then obtain p ps' where ps: "ps = p # ps'" by (cases ps) auto
    obtain u where "commas (map member_text ps) = member_text p @ u"
      using commas_head [of "member_text p" "map member_text ps'"] ps by auto
    then have "strip ''}'' (skip_space (commas (map member_text ps) @ CHR ''}'' # r)) = None"
      by (simp add: json_quote_def)
    moreover have "json_members g (commas (map member_text ps) @ CHR ''}'' # r) = Some (ps, r)"
    proof (rule members_text [OF _ False])
      show "2 * length (commas (map member_text ps)) + 1 \<le> g" using JObj.prems(2) f by (simp add: case_prod_unfold)
      show "json_value f (json_text (snd p) @ r) = Some (snd p, r)"
        if "p \<in> set ps" "2 * length (json_text (snd p)) \<le> f" "delimited r" for p f r
        using that JObj.IH [of p "snd p"] JObj.prems(1) by (cases p) (auto simp: snds.intros)
    qed
    ultimately show ?thesis using f by (simp add: case_prod_unfold)
  qed (simp add: f)
next
  case (JNum i)
  then show ?case using json_value_number by (cases f) (auto simp: nat_text_nonempty int_text_def split: if_splits)
next
  case (JDec t)
  then have "json_number t = Some (JDec t, [])" by simp
  moreover have "t \<noteq> []" using calculation by (auto elim: json_number_head)
  ultimately show ?case using JDec.prems json_value_literal by (cases f) auto
next
  case (JStr s)
  then show ?case by (cases f) (auto simp: json_quote_def json_string_quote)
next
  case JNull
  then show ?case by (cases f) (auto simp: json_literal_def)
next
  case (JBool b)
  then show ?case by (cases f) (auto simp: json_literal_def split: if_splits)
qed

theorem json_parse_text: "printable j \<Longrightarrow> json_parse (json_text j) = Inr j"
  using json_value_text [of j "2 * length (json_text j)" "[]"] by (simp add: json_parse_def skip_space_def)

lemma json_Unmarshal_text [simp]: "printable j \<Longrightarrow> json_Unmarshal rd (json_text j) old = rd j old"
  by (simp add: json_Unmarshal_def json_parse_text)

end
