(* ===== verification/Temporal_Data.thy ===== *)
theory Temporal_Data
  imports Temporal_Workflow Go_Json_Roundtrip
begin

text \<open>
  The contract of the interface \<open>ExecutionData\<close> (\<open>interface.go\<close>) the pipeline relies on
  for branching, what follows from it for \<open>applyBranch\<close> and one turn of \<open>Execute\<close>, and
  the two implementations in the repository (\<open>workflow_test.go\<close>, \<open>resumable_test.go\<close>).
\<close>

section \<open>The contract\<close>

text \<open>
  \<open>GetActivity\<close> returns the name \<open>SetActivity\<close> stored, storing the current name again
  changes nothing, and a clone is equal to its original.
\<close>

locale execution_data =
  fixes D :: "'d ExecutionDataOps"
  assumes get_set: "GetActivity D (SetActivity D n d) = n"
    and set_get: "SetActivity D (GetActivity D d) d = d"
    and clone: "Clone D d = d"
begin

lemma set_current: "GetActivity D d = n \<Longrightarrow> SetActivity D n d = d"
  using set_get by metis

lemma applyBranchLoop_same: "applyBranchLoop D ns d = d"
  by (induction ns) (simp_all add: set_current)

lemma applyBranch_same: "applyBranch D info d = (None, d)"
  by (simp add: applyBranch_def applyBranchLoop_same split: option.splits)

text \<open>A plain activity leaves the data exactly as the SDK wrote it.\<close>

lemma plain_activity_data:
  assumes "SignalEvent (deref s c) = ''''"
    and "callActivity k (ActivityOpts (deref s c)) c data s = Return (None, data1) s1"
  shows "runActivity k D c data s = Return (None, data1) s1"
  using assms by (simp add: runActivity_def Let_def applyBranch_same)

text \<open>The next turn of \<open>Execute\<close> runs the activity that the data names, if it is declared.\<close>

lemma next_turn:
  assumes "SignalEvent (deref s c) = ''''"
    and "callActivity k (ActivityOpts (deref s c)) c (Some d) s = Return (None, Some d1) s1"
    and "NextActivities (deref s1 c) = Some ns" and "GetActivity D d1 = n" and "n \<noteq> ''''"
  shows "executeLoop (Suc fuel) k D attr (Some c) (Some d) s =
    (if n \<in> set ns \<and> activity (wf s1) n \<noteq> None then executeLoop fuel k D attr (Some n) (Some d1) s1
     else Return (None, Some d1) s1)"
proof -
  let ?act = "activity (wf s1)"
  have "nextLoop ?act ms n = (if n \<in> set ms \<and> ?act n \<noteq> None then Some n else None)" for ms
    by (induction ms) (auto split: option.splits)
  then show ?thesis
    using assms plain_activity_data [OF assms(1,2)] by (auto simp: getNextActivity_def)
qed

end


text \<open>
  Data that survive the trip through their own bytes: what is marshalled is restored by
  \<open>Unmarshal\<close> into any other value, as Temporal needs and as \<open>decodeExecutionData\<close> uses it.
\<close>

locale serializable_data = execution_data +
  assumes unmarshal_marshal: "Marshal D d = Inr bytes \<Longrightarrow> Unmarshal D bytes d' = (None, d)"
    and marshal_total: "\<exists>bytes. Marshal D d = Inr bytes"
begin

lemma marshal_inj: "Marshal D d = Marshal D d' \<Longrightarrow> d = d'"
  using unmarshal_marshal marshal_total by (metis prod.inject)

text \<open>A correction that is a whole state replaces the state.\<close>

lemma applyCorrection_replaces:
  "Marshal D d = Inr bytes \<Longrightarrow> applyCorrection D (Some d0) bytes = (None, Some d)"
  by (simp add: applyCorrection_def unmarshal_marshal)

end


section \<open>The implementations of the repository\<close>

text \<open>\<open>executionWorkflow\<close>: the name only.\<close>

record executionWorkflow =
  Activity :: string

definition executionFields :: "executionWorkflow fields" where
  "executionFields = [(''activity'', into read_string Activity (\<lambda>b n. n\<lparr>Activity := b\<rparr>))]"

definition executionWorkflow_ops :: "executionWorkflow ExecutionDataOps" where
  "executionWorkflow_ops = \<lparr>SetActivity = (\<lambda>name n. n\<lparr>Activity := name\<rparr>), GetActivity = Activity,
     Marshal = (\<lambda>n. Inr (json_text (JObj [(''activity'', JStr (Activity n))]))),
     Unmarshal = json_Unmarshal (read_struct executionFields), Clone = (\<lambda>n. n)\<rparr>"

text \<open>
  \<open>resumableState\<close>: a correction may be a bare account, which must not be empty, or a
  whole state.
\<close>

record resumableState =
  StateActivity :: string
  Account :: string

definition resumableFields :: "resumableState fields" where
  "resumableFields =
    [(''activity'', into read_string StateActivity (\<lambda>b s. s\<lparr>StateActivity := b\<rparr>)),
     (''account'', into read_string Account (\<lambda>b s. s\<lparr>Account := b\<rparr>))]"

definition resumableState_ops :: "resumableState ExecutionDataOps" where
  "resumableState_ops = \<lparr>SetActivity = (\<lambda>name s. s\<lparr>StateActivity := name\<rparr>),
     GetActivity = StateActivity,
     Marshal = (\<lambda>s. Inr (json_text (JObj [(''activity'', JStr (StateActivity s)), (''account'', JStr (Account s))]))),
     Unmarshal = (\<lambda>data s. (case json_Unmarshal read_string data '''' of
         (None, account) \<Rightarrow>
           if account = '''' then (Some (Errorf ''corrected account must be non-empty''), s)
           else (None, s\<lparr>Account := account\<rparr>)
       | (Some e, _) \<Rightarrow> json_Unmarshal (read_struct resumableFields) data s)),
     Clone = (\<lambda>s. s)\<rparr>"

lemma find_resumable [simp]:
  "find_field resumableFields ''activity'' = Some (into read_string StateActivity (\<lambda>b s. s\<lparr>StateActivity := b\<rparr>))"
  "find_field resumableFields ''account'' = Some (into read_string Account (\<lambda>b s. s\<lparr>Account := b\<rparr>))"
  by (simp_all add: find_field_def resumableFields_def)

lemma find_execution [simp]:
  "find_field executionFields ''activity'' = Some (into read_string Activity (\<lambda>b n. n\<lparr>Activity := b\<rparr>))"
  by (simp add: find_field_def executionFields_def)

interpretation ew: serializable_data executionWorkflow_ops
  by unfold_locales (auto simp: executionWorkflow_ops_def into_def simp del: json_text.simps)

interpretation rs: serializable_data resumableState_ops
  by unfold_locales (auto simp: resumableState_ops_def into_def simp del: json_text.simps)

text \<open>
  The document of a state, its two keys in either order: Go writes a struct in the order of
  its fields, and the generic map a query result is decoded into in the order of the keys.
\<close>

definition state_documents :: "resumableState \<Rightarrow> json list" where
  "state_documents s =
    [JObj [(''activity'', JStr (StateActivity s)), (''account'', JStr (Account s))],
     JObj [(''account'', JStr (Account s)), (''activity'', JStr (StateActivity s))]]"

lemma resumable_reads:
  "j \<in> set (state_documents s) \<Longrightarrow> Unmarshal resumableState_ops (json_text j) s0 = (None, s)"
  by (auto simp: state_documents_def resumableState_ops_def into_def simp del: json_text.simps)

lemma resumable_reads_text:
  "Unmarshal resumableState_ops (json_text (JStr account)) s0 =
    (if account = '''' then (Some (Errorf ''corrected account must be non-empty''), s0)
     else (None, s0\<lparr>Account := account\<rparr>))"
  "Unmarshal resumableState_ops (json_text JNull) s0 =
    (Some (Errorf ''corrected account must be non-empty''), s0)"
  by (simp_all add: resumableState_ops_def del: json_text.simps)

end
