(* ===== verification/Temporal_Data_Properties.thy ===== *)
theory Temporal_Data_Properties
  imports Temporal_Data Temporal_Public_Properties
begin

text \<open>
  What the execution data of the repository and the pipeline do together: branching on the
  name in the data, decoding a query result, correcting the data by a signal.
\<close>

section \<open>Branching\<close>

text \<open>
  C18: On the repository's own execution data a plain activity hands on exactly what
  the SDK wrote, and the next turn of \<open>Execute\<close> runs the activity the data names if it
  is a declared successor, and otherwise ends the pipeline.
\<close>

theorem Execute_next_turn:
  assumes "SignalEvent (deref s c) = ''''"
    and "callActivity k (ActivityOpts (deref s c)) c (Some d) s = Return (None, Some d') s1"
    and "NextActivities (deref s1 c) = Some ns" and "Activity d' \<noteq> ''''"
  shows "executeLoop (Suc fuel) k executionWorkflow_ops attr (Some c) (Some d) s =
    (if Activity d' \<in> set ns \<and> activity (wf s1) (Activity d') \<noteq> None
     then executeLoop fuel k executionWorkflow_ops attr (Some (Activity d')) (Some d') s1
     else Return (None, Some d') s1)"
  by (rule ew.next_turn [OF assms(1-3) _ assms(4)]) (simp add: executionWorkflow_ops_def)

definition branch_sdk :: "(executionWorkflow, unit, string, nat) sdk" where
  "branch_sdk = \<lparr>time_Now = int, SetQueryHandler = (\<lambda>q w. (None, w)),
     UpsertSearchAttributes = (\<lambda>a st w. (None, w)),
     ExecuteActivity = (\<lambda>opts f d w. FutureGet None (\<lambda>x. \<lparr>Activity = ''review''\<rparr>) (w + 1)),
     Await = (\<lambda>ch w. AwaitNever), AwaitWithTimeout = (\<lambda>ch t w. TimedOut w),
     decode_bool = (\<lambda>q. False), json_Marshal = (\<lambda>v. Inr v)\<rparr>"

theorem Execute_next_turn_witness:
  "executeLoop (Suc 1) branch_sdk executionWorkflow_ops '''' (Some ''charge'')
      (Some \<lparr>Activity = ''''\<rparr>) (demo_state [demo_step ''charge'' '''' [''review'', ''fulfill'']]) =
   executeLoop 1 branch_sdk executionWorkflow_ops '''' (Some ''review'')
      (Some \<lparr>Activity = ''review''\<rparr>)
      (emit (EvActivity ''charge'') ((demo_state [demo_step ''charge'' '''' [''review'', ''fulfill'']])\<lparr>world := 1\<rparr>))"
proof -
  let ?s = "demo_state [demo_step ''charge'' '''' [''review'', ''fulfill'']]"
  let ?s1 = "emit (EvActivity ''charge'') (?s\<lparr>world := 1\<rparr>)"
  have info: "deref ?s ''charge'' = registeredInfo ''charge'' '''' (Some ()) None [''review'', ''fulfill'']"
    by (simp add: demo_deref demo_step_def info_of_registration_def)
  have call: "callActivity branch_sdk opts ''charge'' (Some d) ?s = Return (None, Some \<lparr>Activity = ''review''\<rparr>) ?s1"
    for opts d
    by (simp add: callActivity_def branch_sdk_def) (simp add: demo_state_def registered_workflow_def)
  have "deref ?s1 ''charge'' = deref ?s ''charge''" by (simp add: deref_def)
  then have nexts: "NextActivities (deref ?s1 ''charge'') = Some [''review'', ''fulfill'']"
    by (simp add: info registeredInfo_def)
  have "activity (wf ?s1) ''review'' \<noteq> None"
    by (simp add: demo_state_def registered_workflow_def register_all_activity demo_step_def)
  then show ?thesis
    using Execute_next_turn [OF _ call nexts, where fuel = 1 and attr = "''''"]
    by (simp add: info registeredInfo_def)
qed


section \<open>Decoding a query result\<close>

context serializable_data
begin

text \<open>A pointer to other data is copied, one to the destination itself is returned.\<close>

lemma decode_pointer:
  "decodeExecutionData D marshal type_name (RawData a) (Some b) st = ((Some b, None), st(b := st a))"
  using marshal_total [of "st a"]
  by (auto simp: decodeExecutionData_def unmarshalInto_def unmarshal_marshal)

end

text \<open>
  A query result is copied into \<open>dest\<close> exactly: from another pointer, from \<open>dest\<close> itself,
  or from the generic JSON object, its keys in either order, the SDK hands out for a
  state of another process; nothing of the old \<open>dest\<close> survives.
\<close>

theorem decodeExecutionData_copies:
  assumes "marshal v = Inr (json_text j)" and "j \<in> set (state_documents d)"
  shows "decodeExecutionData resumableState_ops marshal type_name (RawValue v) (Some b) st =
      ((Some b, None), st(b := d)) \<and>
    decodeExecutionData resumableState_ops marshal type_name (RawData a) (Some b) st =
      ((Some b, None), st(b := st a)) \<and>
    decodeExecutionData executionWorkflow_ops marshal type_name (RawData a) (Some b) st' =
      ((Some b, None), st'(b := st' a))"
proof -
  have "decodeExecutionData resumableState_ops marshal type_name (RawValue v) (Some b) st = ((Some b, None), st(b := d))"
    using assms(1) resumable_reads [OF assms(2)] by (simp add: decodeExecutionData_def unmarshalInto_def)
  then show ?thesis using ew.decode_pointer rs.decode_pointer by blast
qed

theorem decodeExecutionData_copies_witness:
  "decodeExecutionData resumableState_ops (\<lambda>j. Inr (json_text j)) (\<lambda>v. ''map'')
      (RawValue (JObj [(''account'', JStr ''account-123''), (''activity'', JStr '''')])) (Some (0 :: nat))
      (\<lambda>a. \<lparr>StateActivity = ''review'', Account = ''''\<rparr>) =
    ((Some 0, None), (\<lambda>a. \<lparr>StateActivity = ''review'', Account = ''''\<rparr>)
       (0 := \<lparr>StateActivity = '''', Account = ''account-123''\<rparr>))"
proof -
  let ?d = "\<lparr>StateActivity = '''', Account = ''account-123''\<rparr>"
  let ?j = "JObj [(''account'', JStr (Account ?d)), (''activity'', JStr (StateActivity ?d))]"
  have "?j \<in> set (state_documents ?d)" unfolding state_documents_def by (intro list.set_intros)
  from decodeExecutionData_copies [of "\<lambda>j. Inr (json_text j)" ?j, OF refl this]
  show ?thesis by (simp del: json_text.simps)
qed


section \<open>Corrections\<close>

text \<open>The state a step is in while it waits for its signal, and what the rest of the turn does.\<close>

definition awaiting ::
    "('d, 'f, 'v, 'w) sdk \<Rightarrow> string \<Rightarrow> ResumableOptions \<Rightarrow> ('p, 'f, 'c, 'w) wstate \<Rightarrow> ('p, 'f, 'c, 'w) wstate" where
  "awaiting k c opts s = emit (EvWait (SignalEvent (deref s c)) (WaitTimeout opts))
     (snd (setExecutionStatus k StatusAwaitingCorrection (StatusSearchAttribute opts) s))"

definition runOn ::
    "('d, 'f, 'v, 'w) sdk \<Rightarrow> string \<Rightarrow> ActivityOptions \<Rightarrow> ResumableOptions \<Rightarrow> ('p, 'f, 'c, 'w) wstate
       \<Rightarrow> 'd \<Rightarrow> ('d turn, ('p, 'f, 'c, 'w) wstate) outcome" where
  "runOn k c actx opts s d =
    and_then (callActivity k (Some actx) c (Some d)
        (snd (setExecutionStatus k StatusExecuting (StatusSearchAttribute opts) s)))
      (\<lambda>(e, d') s'. Return (case e of None \<Rightarrow> TurnBreak d' | Some err \<Rightarrow> TurnFailed err d') s')"

lemma correctionTurn_received:
  assumes "WaitTimeout opts \<le> 0"
    and "Await k (SignalEvent (deref s c)) (world (awaiting k c opts s)) = AwaitReceived p w1"
    and "encodeCorrection k p = Inr payload"
    and "s2 = emit (EvSignal (SignalEvent (deref s c))) ((awaiting k c opts s)\<lparr>world := w1\<rparr>)"
  shows "payload = '''' \<or> payload = ''null'' \<Longrightarrow> correctionTurn k D c actx opts (Some d) s = runOn k c actx opts s2 d"
    and "payload \<noteq> '''' \<Longrightarrow> payload \<noteq> ''null'' \<Longrightarrow> Unmarshal D payload d = (None, d1) \<Longrightarrow>
      correctionTurn k D c actx opts (Some d) s = runOn k c actx opts s2 d1"
    and "payload \<noteq> '''' \<Longrightarrow> payload \<noteq> ''null'' \<Longrightarrow> Unmarshal D payload d = (Some e, d1) \<Longrightarrow>
      correctionTurn k D c actx opts (Some d) s =
        Return (TurnReturn (Wrapf (''activity '' @ ActivityName (deref s c) @ '': apply correction: '') e) (Some d1)) s2"
proof -
  have "waitForSignalPayload k (SignalEvent (deref s c)) (WaitTimeout opts)
      (snd (setExecutionStatus k StatusAwaitingCorrection (StatusSearchAttribute opts) s)) = Return (Inr payload) s2"
    using assms by (simp add: waitForSignalPayload_def Let_def awaiting_def)
  moreover have "and_then m (\<lambda>(e, data2) s4. case e of None \<Rightarrow> Return (TurnBreak data2) s4
      | Some actErr \<Rightarrow> Return (TurnFailed actErr data2) s4) =
    and_then m (\<lambda>(e, d') s'. Return (case e of None \<Rightarrow> TurnBreak d' | Some err \<Rightarrow> TurnFailed err d') s')" for m
    by (rule and_then_cong) (auto split: option.splits)
  ultimately show
    "payload = '''' \<or> payload = ''null'' \<Longrightarrow> correctionTurn k D c actx opts (Some d) s = runOn k c actx opts s2 d"
    "payload \<noteq> '''' \<Longrightarrow> payload \<noteq> ''null'' \<Longrightarrow> Unmarshal D payload d = (None, d1) \<Longrightarrow>
      correctionTurn k D c actx opts (Some d) s = runOn k c actx opts s2 d1"
    "payload \<noteq> '''' \<Longrightarrow> payload \<noteq> ''null'' \<Longrightarrow> Unmarshal D payload d = (Some e, d1) \<Longrightarrow>
      correctionTurn k D c actx opts (Some d) s =
        Return (TurnReturn (Wrapf (''activity '' @ ActivityName (deref s c) @ '': apply correction: '') e) (Some d1)) s2"
    by (auto simp: correctionTurn_def runOn_def applyCorrection_def Let_def)
qed

text \<open>
  C16: A correction read by a parked step that waits without a bound: \<open>null\<close> runs the activity
  on the data as it is, a bare account on the data with that account, a whole state on
  that state; an empty account ends the visit with an error before the activity runs,
  with the status still AWAITING_CORRECTION.
\<close>

theorem correctionTurn_corrects:
  assumes "WaitTimeout opts \<le> 0"
    and "Await k (SignalEvent (deref s c)) (world (awaiting k c opts s)) = AwaitReceived p w1"
    and "encodeCorrection k p = Inr (json_text j)"
    and "s2 = emit (EvSignal (SignalEvent (deref s c))) ((awaiting k c opts s)\<lparr>world := w1\<rparr>)"
  shows "(j = JNull \<longrightarrow> correctionTurn k resumableState_ops c actx opts (Some st) s = runOn k c actx opts s2 st) \<and>
    (\<forall>account. j = JStr account \<longrightarrow> account \<noteq> '''' \<longrightarrow>
      correctionTurn k resumableState_ops c actx opts (Some st) s = runOn k c actx opts s2 (st\<lparr>Account := account\<rparr>)) \<and>
    (\<forall>st'. j \<in> set (state_documents st') \<longrightarrow>
      correctionTurn k resumableState_ops c actx opts (Some st) s = runOn k c actx opts s2 st') \<and>
    (j = JStr '''' \<longrightarrow> correctionTurn k resumableState_ops c actx opts (Some st) s =
      Return (TurnReturn (Wrapf (''activity '' @ ActivityName (deref s c) @ '': apply correction: '')
        (Errorf ''corrected account must be non-empty'')) (Some st)) s2 \<and>
      Status (wf s2) = StatusAwaitingCorrection)"
proof -
  note turn = correctionTurn_received [OF assms, where D = resumableState_ops and actx = actx and d = st]
  have str: "json_text (JStr a) \<noteq> '''' \<and> json_text (JStr a) \<noteq> ''null''" for a
    by (simp add: json_quote_def)
  have doc: "json_text j \<noteq> '''' \<and> json_text j \<noteq> ''null''" if "j \<in> set (state_documents st')" for st'
    using that by (auto simp: state_documents_def)
  have "Status (wf s2) = StatusAwaitingCorrection"
    using assms(4) by (simp add: awaiting_def setExecutionStatus_def Let_def split: prod.splits)
  then show ?thesis
    using turn str doc resumable_reads resumable_reads_text
    by (auto simp del: json_text.simps(5,7))
qed

text \<open>The transfer of the repository's tests: it fails unless the account is the right one.\<close>

definition transfer_sdk :: "string \<Rightarrow> (resumableState, unit, json, nat) sdk" where
  "transfer_sdk correction = \<lparr>time_Now = int, SetQueryHandler = (\<lambda>q w. (None, w)),
     UpsertSearchAttributes = (\<lambda>a st w. (None, w)),
     ExecuteActivity = (\<lambda>opts f d w. FutureGet
       (if map_option Account d = Some ''account-123'' then None
        else Some (External ''account not found'')) (\<lambda>x. x) (w + 1)),
     Await = (\<lambda>ch w. AwaitReceived (RawMessage correction) (w + 1)), AwaitWithTimeout = (\<lambda>ch t w. TimedOut w),
     decode_bool = (\<lambda>q. False), json_Marshal = (\<lambda>v. Inr (json_text v))\<rparr>"

definition transfer_state :: "(unit, unit, unit, nat) wstate" where
  "transfer_state = demo_state [demo_step ''transfer'' ''fix'' []]"

theorem correctionTurn_corrects_witness:
  "correctionTurn (transfer_sdk (json_text (JStr ''account-123''))) resumableState_ops ''transfer''
      \<lparr>StartToCloseTimeout = 30, ActivityRetryPolicy = None\<rparr> (withDefaults zeroResumableOptions)
      (Some \<lparr>StateActivity = '''', Account = ''wrong''\<rparr>) transfer_state =
   runOn (transfer_sdk (json_text (JStr ''account-123''))) ''transfer''
      \<lparr>StartToCloseTimeout = 30, ActivityRetryPolicy = None\<rparr> (withDefaults zeroResumableOptions)
      (emit (EvSignal ''fix'') (awaiting (transfer_sdk (json_text (JStr ''account-123''))) ''transfer''
        (withDefaults zeroResumableOptions) transfer_state\<lparr>world := 1\<rparr>))
      \<lparr>StateActivity = '''', Account = ''account-123''\<rparr>"
proof -
  let ?k = "transfer_sdk (json_text (JStr ''account-123''))" and ?o = "withDefaults zeroResumableOptions"
  have sig: "SignalEvent (deref transfer_state ''transfer'') = ''fix''"
    by (simp add: transfer_state_def demo_deref demo_step_def info_of_registration_def registeredInfo_def)
  have "world (awaiting ?k ''transfer'' ?o transfer_state) = 0"
    by (simp add: awaiting_def setExecutionStatus_def zeroResumableOptions_def transfer_state_def demo_state_def registered_workflow_def)
  then have aw: "Await ?k (SignalEvent (deref transfer_state ''transfer'')) (world (awaiting ?k ''transfer'' ?o transfer_state)) =
      AwaitReceived (RawMessage (json_text (JStr ''account-123''))) 1"
    by (simp add: transfer_sdk_def)
  have "WaitTimeout ?o \<le> 0" by (simp add: zeroResumableOptions_def)
  from correctionTurn_corrects [OF this aw _ refl, of "JStr ''account-123''"]
  show ?thesis by (simp add: encodeCorrection_def sig)
qed

end
