(* ===== verification/Temporal_Client_Properties.thy ===== *)
theory Temporal_Client_Properties
  imports Temporal_Client Temporal_Signals Temporal_Properties
begin

text \<open>Properties of the client, alone and with the pipeline, and of the signal consumers.\<close>

section \<open>Task queues and retry policies\<close>

text \<open>
  A workflow started without a task queue goes to the queue that the client's own
  worker polls, \<open>default\<close> if none was configured; a queue of its own and a retry policy
  reach the server unchanged.
\<close>

theorem StartWorkflow_queue:
  assumes "NewTemporalClient K config w = (Inr t, w')"
  shows "(\<exists>wo. tc_worker t = Some (worker_New K (tc_client t)
        (co_TaskQueue (startOptions (tc_taskQueue t) (opts\<lparr>so_TaskQueue := ''''\<rparr>))) wo)) \<and>
    (if TaskQueue config = '''' then tc_taskQueue t = ''default'' else tc_taskQueue t = TaskQueue config) \<and>
    (if so_TaskQueue opts = '''' then co_TaskQueue (startOptions (tc_taskQueue t) opts) = tc_taskQueue t
     else co_TaskQueue (startOptions (tc_taskQueue t) opts) = so_TaskQueue opts) \<and>
    co_RetryPolicy (startOptions (tc_taskQueue t) opts) = so_RetryPolicy opts"
proof -
  have "startOptions q o' = \<lparr>co_ID = so_WorkflowID o',
      co_TaskQueue = (if so_TaskQueue o' = '''' then q else so_TaskQueue o'),
      co_WorkflowExecutionTimeout = so_WorkflowExecutionTimeout o',
      co_WorkflowRunTimeout = so_WorkflowRunTimeout o',
      co_WorkflowTaskTimeout = so_WorkflowTaskTimeout o', co_RetryPolicy = so_RetryPolicy o'\<rparr>" for q o'
    by (auto simp: startOptions_def Let_def split: option.splits)
  with assms show ?thesis
    by (auto simp: NewTemporalClient_def Let_def split: prod.splits sum.splits)
qed

definition demo_sdk_client :: "(unit, unit, unit, unit, unit, nat, string, nat) sdk_client" where
  "demo_sdk_client = \<lparr>NewClient = (\<lambda>opts w. (Inr 0, w)), worker_New = (\<lambda>c q wo. q),
     cl_ExecuteWorkflow = (\<lambda>c opts f vs w. (Inr (), w)), cl_SignalWorkflow = (\<lambda>c wid rid n v w. (None, w)),
     cl_QueryWorkflow = (\<lambda>c wid rid q vs w. (Inr (), w)), enc_Get = (\<lambda>x. Inr None),
     cl_CancelWorkflow = (\<lambda>c wid rid w. (None, w)), cl_GetWorkflow = (\<lambda>c wid rid. ()),
     run_Get = (\<lambda>r w. (Inr (), w)), cl_UpdateWorkflow = (\<lambda>c opts w. (Inr (), w)),
     wk_RegisterWorkflow = (\<lambda>k f n w. (Returns (), w)), wk_RegisterActivity = (\<lambda>k f n w. (Returns (), w)),
     wk_Start = (\<lambda>k w. (None, w)), wk_Stop = (\<lambda>k w. w)\<rparr>"

definition demo_temporal_config :: TemporalConfig where
  "demo_temporal_config = \<lparr>Host = ''localhost'', Port = ''7233'', Namespace = ''default'', TaskQueue = '''',
     MaxConcurrentActivityExecutionSize = 10, WorkerActivitiesPerSecond = 0,
     MaxConcurrentLocalActivityExecutionSize = 0, WorkerLocalActivitiesPerSecond = 0\<rparr>"

definition demo_start :: StartWorkflowOptions where
  "demo_start = \<lparr>so_WorkflowID = ''order-1'', so_TaskQueue = ''priority'', so_WorkflowExecutionTimeout = 0,
     so_WorkflowRunTimeout = 0, so_WorkflowTaskTimeout = 0, so_RetryPolicy = None\<rparr>"

definition demo_client :: "(nat, string) temporalClient" where
  "demo_client = projr (fst (NewTemporalClient demo_sdk_client demo_temporal_config 0))"

theorem StartWorkflow_queue_witness:
  "(\<exists>wo. tc_worker demo_client = Some (worker_New demo_sdk_client (tc_client demo_client)
        (co_TaskQueue (startOptions (tc_taskQueue demo_client) (demo_start\<lparr>so_TaskQueue := ''''\<rparr>))) wo)) \<and>
    (if TaskQueue demo_temporal_config = '''' then tc_taskQueue demo_client = ''default''
     else tc_taskQueue demo_client = TaskQueue demo_temporal_config) \<and>
    (if so_TaskQueue demo_start = '''' then co_TaskQueue (startOptions (tc_taskQueue demo_client) demo_start) =
       tc_taskQueue demo_client
     else co_TaskQueue (startOptions (tc_taskQueue demo_client) demo_start) = so_TaskQueue demo_start) \<and>
    co_RetryPolicy (startOptions (tc_taskQueue demo_client) demo_start) = so_RetryPolicy demo_start"
  by (rule StartWorkflow_queue [where w = 0 and w' = 0])
    (simp add: demo_client_def NewTemporalClient_def Let_def demo_sdk_client_def)


section \<open>The status of a workflow, asked from outside\<close>

text \<open>The status a finished \<open>Execute\<close> leaves behind.\<close>

lemma Execute_final_status:
  assumes "Execute order fuel k D data s = Return (e, data') s'"
  shows "if e = None then Status (wf s') = StatusCompleted
    else Status (wf s') \<in> {StatusFailed, StatusRejected, StatusPending}"
  using Execute_run [of order fuel k D data s] assms
  by (cases e) (auto simp: ran_to_def)

text \<open>
  When the server answers a status query with the handler the workflow registered,
  \<open>GetWorkflowStatus\<close> on the client returns the stored status: COMPLETED after an
  \<open>Execute\<close> that returned nil, and after an error FAILED, REJECTED, or PENDING if it never
  got past the start. An answer that is no string is an error.
\<close>

theorem GetWorkflowStatus_after_Execute:
  assumes "Execute order fuel k D data s = Return (e, data') s'"
    and "WorkflowExecutionData.temporalClient wfd = temporalClient_Temporal K info t"
    and "cl_QueryWorkflow K (tc_client t) workflowID runID QueryGetStatus [] w = (Inr resp, w')"
    and "enc_Get K resp = Inr (Some v)" and "as_string v = Some (fst (statusQueryHandler s'))"
  shows "GetWorkflowStatus as_string type_name wfd workflowID runID w = (Inr (Status (wf s')), w') \<and>
    (if e = None then Status (wf s') = StatusCompleted
     else Status (wf s') \<in> {StatusFailed, StatusRejected, StatusPending}) \<and>
    GetWorkflowStatus (\<lambda>_. None) type_name wfd workflowID runID w =
      (Inl (Errorf (''unexpected status query type '' @ type_name (Some v))), w')"
  using Execute_final_status [OF assms(1)] assms(2-5)
  by (simp add: GetWorkflowStatus_def temporalClient_Temporal_def QueryWorkflow_def statusQueryHandler_def)

definition demo_status_client :: "(unit, string, unit, unit, unit, nat, string, nat) sdk_client" where
  "demo_status_client = \<lparr>NewClient = (\<lambda>opts w. (Inr 0, w)), worker_New = (\<lambda>c q wo. q),
     cl_ExecuteWorkflow = (\<lambda>c opts f vs w. (Inr (), w)), cl_SignalWorkflow = (\<lambda>c wid rid n v w. (None, w)),
     cl_QueryWorkflow = (\<lambda>c wid rid q vs w. (Inr (), w)), enc_Get = (\<lambda>x. Inr (Some StatusCompleted)),
     cl_CancelWorkflow = (\<lambda>c wid rid w. (None, w)), cl_GetWorkflow = (\<lambda>c wid rid. ()),
     run_Get = (\<lambda>r w. (Inr '''', w)), cl_UpdateWorkflow = (\<lambda>c opts w. (Inr (), w)),
     wk_RegisterWorkflow = (\<lambda>k f n w. (Returns (), w)), wk_RegisterActivity = (\<lambda>k f n w. (Returns (), w)),
     wk_Start = (\<lambda>k w. (None, w)), wk_Stop = (\<lambda>k w. w)\<rparr>"

theorem GetWorkflowStatus_after_Execute_witness:
  "GetWorkflowStatus Some (\<lambda>_. ''string'') (NewWorkflowExecution (temporalClient_Temporal demo_status_client
      (\<lambda>ctx. ctx) \<lparr>tc_worker = Some ''default'', tc_client = 0, tc_taskQueue = ''default''\<rparr>)
      :: (unit, unit, unit, string, unit, unit, unit, unit, nat) workflow_execution) ''order-1'' '''' 7 =
    (Inr StatusCompleted, 7)"
proof -
  let ?t = "\<lparr>tc_worker = Some ''default'', tc_client = 0, tc_taskQueue = ''default''\<rparr> :: (nat, string) temporalClient"
  let ?w = "NewWorkflowExecution (temporalClient_Temporal demo_status_client (\<lambda>ctx. ctx) ?t)
    :: (unit, unit, unit, string, unit, unit, unit, unit, nat) workflow_execution"
  obtain d s' where e: "Execute [''a''] 5 (demo_sdk None (RawMessage ''null'') None) demo_data (Some '''')
      (demo_state [demo_step ''a'' '''' []]) = Return (None, Some d) s'"
    by (simp add: demo_defs Execute_def NewWorkflowExecution_def AddTransitionActivityWithOptions_def
      eval_nat_numeral deref_def infoAt_def runActivity_def callActivity_def applyBranch_def
      getNextActivity_def setExecutionStatus_def registerStatusQuery_def lookupActivity_def finalStatus_def Let_def emit_def)
  have c: "WorkflowExecutionData.temporalClient ?w = temporalClient_Temporal demo_status_client (\<lambda>ctx. ctx) ?t"
    by simp
  have q: "cl_QueryWorkflow demo_status_client (tc_client ?t) ''order-1'' '''' QueryGetStatus [] 7 = (Inr (), 7)"
    "enc_Get demo_status_client () = Inr (Some StatusCompleted)" by (simp_all add: demo_status_client_def)
  have r: "Some StatusCompleted = Some (fst (statusQueryHandler s'))"
    using Execute_final_status [OF e] by (simp add: statusQueryHandler_def)
  from GetWorkflowStatus_after_Execute [where as_string = Some and type_name = "\<lambda>_. ''string''", OF e c q r] show ?thesis by simp
qed


section \<open>Signal consumers\<close>

text \<open>
  A consumer handles every message of its channel exactly once and in order: a
  message whose handler fails is logged and the next one is still taken; registering
  another handler replaces the one before on that channel only.
\<close>

theorem consumer_handles_all:
  "consume (On n h sc) n ms w =
     Some (fold (\<lambda>m v. snd (h m v)) ms w, snd (runAsync h ms w)) \<and>
   length (snd (runAsync h ms w)) \<le> length ms \<and>
   consume (On n h (On n h' sc)) m ms w = consume (On n h sc) m ms w \<and>
   (m = n \<or> consume (On n h sc) m ms w = consume sc m ms w)"
  using runAsync_logged [of h ms w] by (simp add: consume_def handlers_On runAsync_fold [symmetric])

end
