(* ===== verification/Temporal_Consumers.thy ===== *)
theory Temporal_Consumers
  imports Temporal_Signals
begin

text \<open>
  Several signal consumers at once (\<open>signals.go\<close>): each is a goroutine of the workflow
  with a channel of its own, and messages may arrive, be taken, and be done with, in any
  order that keeps each channel a queue. A handler's effect on the world is taken to
  happen when it returns.
\<close>

section \<open>The state and its steps\<close>

text \<open>
  \<open>queues\<close> are the channels; \<open>busy\<close> is the message a consumer is handling; \<open>arrived\<close>
  and \<open>handled\<close> record, per channel, what was sent and what a handler has returned from.
\<close>

record ('v, 'w) signal_state =
  queues :: "string \<Rightarrow> 'v list"
  busy :: "string \<Rightarrow> 'v option"
  sig_world :: 'w
  logged :: "go_error list"
  arrived :: "string \<Rightarrow> 'v list"
  handled :: "string \<Rightarrow> 'v list"

definition signal_init :: "'w \<Rightarrow> ('v, 'w) signal_state" where
  "signal_init w = \<lparr>queues = (\<lambda>_. []), busy = (\<lambda>_. None), sig_world = w, logged = [],
     arrived = (\<lambda>_. []), handled = (\<lambda>_. [])\<rparr>"

definition arrive :: "string \<Rightarrow> 'v \<Rightarrow> ('v, 'w) signal_state \<Rightarrow> ('v, 'w) signal_state" where
  "arrive n v s = s\<lparr>queues := (queues s)(n := queues s n @ [v]), arrived := (arrived s)(n := arrived s n @ [v])\<rparr>"

text \<open>One turn of the loop in \<open>runAsync\<close>, in its two halves: \<open>Receive\<close>, and the handler with its log.\<close>

definition receive :: "string \<Rightarrow> ('v, 'w) signal_state \<Rightarrow> ('v, 'w) signal_state" where
  "receive n s = s\<lparr>queues := (queues s)(n := tl (queues s n)), busy := (busy s)(n := Some (hd (queues s n)))\<rparr>"

definition finish ::
    "string \<Rightarrow> 'v \<Rightarrow> err \<times> 'w \<Rightarrow> ('v, 'w) signal_state \<Rightarrow> ('v, 'w) signal_state" where
  "finish n v r s = s\<lparr>busy := (busy s)(n := None), sig_world := snd r,
     logged := logged s @ (case fst r of None \<Rightarrow> [] | Some e \<Rightarrow> [e]),
     handled := (handled s)(n := handled s n @ [v])\<rparr>"

lemmas step_defs = arrive_def receive_def finish_def

text \<open>What the started consumers can do, and what the outside can.\<close>

inductive consumer_step ::
    "('v, 'w) SignalConsumer \<Rightarrow> ('v, 'w) signal_state \<Rightarrow> ('v, 'w) signal_state \<Rightarrow> bool" for sc where
  take: "handlers sc n = Some h \<Longrightarrow> busy s n = None \<Longrightarrow> queues s n \<noteq> [] \<Longrightarrow> consumer_step sc s (receive n s)"
| handle: "handlers sc n = Some h \<Longrightarrow> busy s n = Some v \<Longrightarrow> consumer_step sc s (finish n v (h v (sig_world s)) s)"

inductive signal_step ::
    "('v, 'w) SignalConsumer \<Rightarrow> ('v, 'w) signal_state \<Rightarrow> ('v, 'w) signal_state \<Rightarrow> bool" for sc where
  arrives: "signal_step sc s (arrive n v s)"
| consumer: "consumer_step sc s s' \<Longrightarrow> signal_step sc s s'"

inductive_cases consumer_stepE: "consumer_step sc s s'"
inductive_cases signal_stepE: "signal_step sc s s'"

abbreviation reaches_state ::
    "('v, 'w) SignalConsumer \<Rightarrow> 'w \<Rightarrow> ('v, 'w) signal_state \<Rightarrow> bool" where
  "reaches_state sc w s \<equiv> (signal_step sc)\<^sup>*\<^sup>* (signal_init w) s"


section \<open>The invariant\<close>

definition pending :: "('v, 'w) signal_state \<Rightarrow> string \<Rightarrow> 'v list" where
  "pending s n = (case busy s n of None \<Rightarrow> [] | Some v \<Rightarrow> [v]) @ queues s n"

text \<open>What arrived is what was handled, is being handled, and waits, in this order.\<close>

definition conserved :: "('v, 'w) SignalConsumer \<Rightarrow> ('v, 'w) signal_state \<Rightarrow> bool" where
  "conserved sc s \<longleftrightarrow>
     (\<forall>n. arrived s n = handled s n @ pending s n) \<and>
     (\<forall>n. handlers sc n = None \<longrightarrow> handled s n = [] \<and> busy s n = None)"

lemma conserved_init: "conserved sc (signal_init w)"
  by (simp add: conserved_def signal_init_def pending_def)

lemma conserved_step: "signal_step sc s s' \<Longrightarrow> conserved sc s \<Longrightarrow> conserved sc s'"
  by (auto simp: conserved_def pending_def step_defs elim!: signal_stepE consumer_stepE)

lemma reaches_conserved: "reaches_state sc w s \<Longrightarrow> conserved sc s"
  by (induction rule: rtranclp_induct) (simp_all add: conserved_init conserved_step)

text \<open>A single consumer does what \<open>runAsync\<close> does on the messages it has handled.\<close>

definition like_runAsync ::
    "('v, 'w) signal_handler \<Rightarrow> string \<Rightarrow> 'w \<Rightarrow> ('v, 'w) signal_state \<Rightarrow> bool" where
  "like_runAsync h n w s \<longleftrightarrow> runAsync h (handled s n) w = (sig_world s, logged s)"

lemma like_runAsync_step:
  assumes "signal_step sc s s'" and "handlers sc = [n \<mapsto> h]" and "like_runAsync h n w s"
  shows "like_runAsync h n w s'"
  using assms
  by (auto simp: like_runAsync_def step_defs runAsync_append Let_def elim!: signal_stepE consumer_stepE
      split: if_splits prod.splits option.splits)

lemma reaches_like_runAsync:
  assumes "reaches_state sc w s" and "handlers sc = [n \<mapsto> h]"
  shows "like_runAsync h n w s"
  using assms(1)
  by (induction rule: rtranclp_induct)
    (auto simp: like_runAsync_def signal_init_def intro: like_runAsync_step [OF _ assms(2), unfolded like_runAsync_def])

text \<open>Consumers that can do nothing more have handled everything.\<close>

lemma quiet_pending:
  assumes "\<forall>s'. \<not> consumer_step sc s s'" and "handlers sc n = Some h"
  shows "pending s n = []"
proof -
  have "busy s n = None" using assms consumer_step.handle [OF assms(2)] by (metis not_None_eq)
  moreover from this have "queues s n = []" using assms consumer_step.take [OF assms(2)] by blast
  ultimately show ?thesis by (simp add: pending_def)
qed


section \<open>Properties\<close>

text \<open>
  C22: However arrivals and consumers are interleaved, each channel's messages are handled
  exactly once and in the order they arrived, a message whose handler fails included;
  without a consumer none is handled; consumers that can do nothing more have handled
  all; and a single consumer has done what \<open>runAsync\<close> does on the messages handled.
\<close>

theorem consumers_exactly_once:
  assumes "reaches_state sc w s"
  shows "arrived s n = handled s n @ pending s n \<and>
    (handlers sc n = None \<longrightarrow> handled s n = []) \<and>
    ((\<forall>s'. \<not> consumer_step sc s s') \<longrightarrow> handlers sc n \<noteq> None \<longrightarrow> handled s n = arrived s n) \<and>
    (\<forall>h. sc = On n h NewSignalConsumer \<longrightarrow> runAsync h (handled s n) w = (sig_world s, logged s))"
proof (intro conjI impI allI)
  note inv = reaches_conserved [OF assms]
  show split: "arrived s n = handled s n @ pending s n" using inv by (simp add: conserved_def)
  show "handled s n = []" if "handlers sc n = None" using inv that by (simp add: conserved_def)
  show "handled s n = arrived s n" if "\<forall>s'. \<not> consumer_step sc s s'" "handlers sc n \<noteq> None"
    using split quiet_pending [OF that(1)] that(2) by auto
  show "runAsync h (handled s n) w = (sig_world s, logged s)" if "sc = On n h NewSignalConsumer" for h
    using reaches_like_runAsync [OF assms, of n h] that
    by (simp add: like_runAsync_def handlers_On NewSignalConsumer_def)
qed

text \<open>A handler that counts and fails on its first message; two messages, the first one handled.\<close>

definition demo_handler :: "(string, nat) signal_handler" where
  "demo_handler v w = (if w = 0 then Some (External v) else None, w + 1)"

definition demo_run :: "(string, nat) signal_state" where
  "demo_run = finish ''ready'' ''a'' (demo_handler ''a'' 0)
     (receive ''ready'' (arrive ''ready'' ''b'' (arrive ''ready'' ''a'' (signal_init 0))))"

theorem consumers_exactly_once_witness:
  "arrived demo_run ''ready'' = [''a''] @ [''b''] \<and>
   runAsync demo_handler [''a''] 0 = (sig_world demo_run, logged demo_run)"
proof -
  let ?sc = "On ''ready'' demo_handler NewSignalConsumer"
  let ?s1 = "arrive ''ready'' ''a'' (signal_init 0) :: (string, nat) signal_state"
  let ?s2 = "arrive ''ready'' ''b'' ?s1" and ?s3 = "receive ''ready'' (arrive ''ready'' ''b'' ?s1)"
  have h: "handlers ?sc ''ready'' = Some demo_handler" by (simp add: handlers_On)
  have "signal_step ?sc (signal_init 0) ?s1" "signal_step ?sc ?s1 ?s2" by (rule arrives)+
  moreover have "consumer_step ?sc ?s2 ?s3"
    by (rule take [OF h]) (simp_all add: arrive_def signal_init_def)
  moreover have "consumer_step ?sc ?s3 demo_run"
    using handle [OF h, of ?s3 "''a''"] by (simp add: demo_run_def step_defs signal_init_def)
  ultimately have "reaches_state ?sc 0 demo_run"
    by (meson consumer rtranclp.rtrancl_refl rtranclp.rtrancl_into_rtrancl)
  moreover have "handled demo_run ''ready'' = [''a'']" "pending demo_run ''ready'' = [''b'']"
    by (simp_all add: demo_run_def step_defs signal_init_def pending_def)
  ultimately show ?thesis using consumers_exactly_once [of ?sc 0 demo_run "''ready''"] by simp
qed

end
