(* ===== verification/Temporal_Clock.thy ===== *)
theory Temporal_Clock
  imports Temporal_Stable
begin

text \<open>
  The times \<open>Execute\<close> writes into its receiver come from Go's \<open>time.Now()\<close>, which the
  SDK does not record: run again, the function reads other times. Here: nothing the code
  does depends on them. One lemma per operation, each saying that from a state with
  another \<open>StartedAt\<close> the operation does the same and ends in the state with that
  \<open>StartedAt\<close>.
\<close>

definition restarted :: "int option \<Rightarrow> ('p, 'f, 'c, 'w) wstate \<Rightarrow> ('p, 'f, 'c, 'w) wstate" where
  "restarted t s = s\<lparr>wf := (wf s)\<lparr>StartedAt := t\<rparr>\<rparr>"

lemma restarted_fields [simp]:
  "world (restarted t s) = world s" "history (restarted t s) = history s"
  "wf (restarted t s) = (wf s)\<lparr>StartedAt := t\<rparr>" "deref (restarted t s) c = deref s c"
  by (simp_all add: restarted_def deref_def)

lemma restarted_commutes:
  "emit e (restarted t s) = restarted t (emit e s)"
  "(restarted t s)\<lparr>world := w\<rparr> = restarted t (s\<lparr>world := w\<rparr>)"
  "setResumable c opts (restarted t s) = restarted t (setResumable c opts s)"
  by (simp_all add: restarted_def emit_def setResumable_def deref_def)

lemma setExecutionStatus_restarted:
  "setExecutionStatus k st attr (restarted t s) =
    (fst (setExecutionStatus k st attr s), restarted t (snd (setExecutionStatus k st attr s)))"
  by (simp add: setExecutionStatus_def restarted_def emit_def Let_def split: prod.splits)

lemma registerStatusQuery_restarted:
  "registerStatusQuery k (restarted t s) =
    (fst (registerStatusQuery k s), restarted t (snd (registerStatusQuery k s)))"
  by (simp add: registerStatusQuery_def restarted_commutes split: prod.splits)

lemma callActivity_restarted:
  "callActivity k opts c data (restarted t s) = map_state (restarted t) (callActivity k opts c data s)"
  by (simp add: callActivity_def restarted_commutes split: future.splits)

lemma waitForSignalPayload_restarted:
  "waitForSignalPayload k ch d (restarted t s) = map_state (restarted t) (waitForSignalPayload k ch d s)"
  by (simp add: waitForSignalPayload_def Let_def restarted_commutes split: timed_await.splits await.splits)

lemma receiveApproval_restarted:
  "receiveApproval k n opts (restarted t s) = map_state (restarted t) (receiveApproval k n opts s)"
  by (simp add: receiveApproval_def Let_def restarted_commutes setExecutionStatus_restarted
      split: timed_await.splits await.splits)

lemma waitForApproval_restarted:
  "waitForApproval k n opts (restarted t s) = map_state (restarted t) (waitForApproval k n opts s)"
  unfolding waitForApproval_def Let_def setExecutionStatus_restarted snd_conv
  by (rule map_state_seq [OF receiveApproval_restarted])
    (auto simp: setExecutionStatus_restarted split: sum.splits)

lemma correctionTurn_restarted:
  "correctionTurn k D c actx opts data (restarted t s) =
    map_state (restarted t) (correctionTurn k D c actx opts data s)"
  unfolding correctionTurn_def Let_def setExecutionStatus_restarted snd_conv restarted_fields
  by (rule map_state_seq [OF waitForSignalPayload_restarted])
    (auto simp: setExecutionStatus_restarted split: sum.splits prod.splits option.splits
      intro!: map_state_seq [OF callActivity_restarted])

lemma correctionLoop_restarted:
  "correctionLoop k D c actx opts count data (restarted t s) =
    map_state (restarted t) (correctionLoop k D c actx opts count data s)"
proof (induction k D c actx opts count data s rule: correctionLoop.induct)
  case (1 k D c actx opts count data s)
  show ?case
    unfolding correctionLoop.simps [of k D c actx opts count data]
    by (rule map_state_seq [OF correctionTurn_restarted])
      (auto simp: setExecutionStatus_restarted "1.IH" split: turn.splits)
qed

lemma runResumableActivity_restarted:
  "runResumableActivity k D c data (restarted t s) =
    map_state (restarted t) (runResumableActivity k D c data s)"
  unfolding runResumableActivity_def Let_def restarted_fields restarted_commutes
  by (rule map_state_seq [OF correctionLoop_restarted])
    (auto split: prod.splits option.splits intro!: map_state_seq [OF waitForApproval_restarted])

lemma runActivity_restarted:
  "runActivity k D c data (restarted t s) = map_state (restarted t) (runActivity k D c data s)"
  by (auto simp: runActivity_def Let_def runResumableActivity_restarted split: prod.splits option.splits
      intro!: map_state_seq [OF callActivity_restarted])

lemma finalStatus_restarted:
  "finalStatus k attr st (restarted t s) = restarted t (finalStatus k attr st s)"
  by (simp add: finalStatus_def setExecutionStatus_restarted)

lemma executeLoop_restarted:
  "executeLoop fuel k D attr cur data (restarted t s) =
    map_state (restarted t) (executeLoop fuel k D attr cur data s)"
proof (induction fuel k D attr cur data s rule: executeLoop.induct)
  case (3 fuel k D attr c data s)
  show ?case
    unfolding executeLoop.simps
    by (rule map_state_seq [OF runActivity_restarted])
      (auto simp: finalStatus_restarted "3.IH" split: prod.splits option.splits)
qed auto


section \<open>The rest of \<open>Execute\<close> after its first line\<close>

text \<open>\<open>Execute\<close> writes \<open>StartedAt\<close> and goes on; what follows is \<open>Execute_started\<close>.\<close>

definition Execute_started ::
    "string list \<Rightarrow> nat \<Rightarrow> ('d, 'f, 'v, 'w) sdk \<Rightarrow> 'd ExecutionDataOps \<Rightarrow> 'd option
       \<Rightarrow> ('p, 'f, 'c, 'w) wstate \<Rightarrow> (err \<times> 'd option, ('p, 'f, 'c, 'w) wstate) outcome" where
  "Execute_started order fuel k D data s1 =
    (let statusAttr = statusSearchAttribute order (activity (wf s1));
         (e2, s2) = setExecutionStatus k StatusPending statusAttr s1
     in (case e2 of
           Some _ \<Rightarrow> Return (e2, data) s2
         | None \<Rightarrow>
            (let (e3, s3) = registerStatusQuery k s2
             in (case e3 of
                   Some _ \<Rightarrow> Return (e3, data) s3
                 | None \<Rightarrow>
                    and_then (executeLoop fuel k D statusAttr (lookupActivity (wf s1) (firstActivity (wf s1))) data s3)
                      (\<lambda>(e, data1) s4.
                        (case e of
                           Some _ \<Rightarrow> Return (e, data1) s4
                         | None \<Rightarrow>
                            Return (None, data1)
                              (finalStatus k statusAttr StatusCompleted
                                (s4\<lparr>wf := (wf s4)\<lparr>CompletedAt := Some (time_Now k (world s4))\<rparr>\<rparr>))))))))"

lemma restarted_graph:
  "activity (wf (restarted t s)) = activity (wf s)"
  "lookupActivity (wf (restarted t s)) = lookupActivity (wf s)"
  "firstActivity (wf (restarted t s)) = firstActivity (wf s)"
  by (simp_all add: lookupActivity_def fun_eq_iff)

lemma CompletedAt_restarted:
  "(restarted t s)\<lparr>wf := (wf (restarted t s))\<lparr>CompletedAt := x\<rparr>\<rparr> =
    restarted t (s\<lparr>wf := (wf s)\<lparr>CompletedAt := x\<rparr>\<rparr>)"
  by (simp add: restarted_def)

lemma Execute_split:
  "Execute order fuel k D data s = Execute_started order fuel k D data (restarted (Some (time_Now k (world s))) s)"
  unfolding Execute_def Execute_started_def Let_def restarted_def [symmetric] restarted_graph ..

lemma Execute_started_restarted:
  fixes s :: "('p, 'f, 'c, 'w) wstate"
  shows "Execute_started order fuel k D data (restarted t s) = map_state (restarted t) (Execute_started order fuel k D data s)"
proof -
  have "and_then (executeLoop fuel k D attr cur data (restarted t u))
      (\<lambda>(e, data1) s4. case e of
         Some _ \<Rightarrow> Return (e, data1) s4
       | None \<Rightarrow> Return (None, data1) (finalStatus k attr StatusCompleted
           (s4\<lparr>wf := (wf s4)\<lparr>CompletedAt := Some (time_Now k (world s4))\<rparr>\<rparr>))) =
    map_state (restarted t) (and_then (executeLoop fuel k D attr cur data u)
      (\<lambda>(e, data1) s4. case e of
         Some _ \<Rightarrow> Return (e, data1) s4
       | None \<Rightarrow> Return (None, data1) (finalStatus k attr StatusCompleted
           (s4\<lparr>wf := (wf s4)\<lparr>CompletedAt := Some (time_Now k (world s4))\<rparr>\<rparr>))))"
    for attr cur and u :: "('p, 'f, 'c, 'w) wstate"
    by (rule map_state_seq [OF executeLoop_restarted])
      (auto simp: finalStatus_restarted CompletedAt_restarted simp del: restarted_fields(3)
        split: prod.splits option.splits)
  then show ?thesis
    unfolding Execute_started_def Let_def restarted_graph setExecutionStatus_restarted registerStatusQuery_restarted
      case_prod_beta
    by (simp add: registerStatusQuery_restarted split: option.splits)
qed

end
