(* ===== verification/Temporal_Replay.thy ===== *)
theory Temporal_Replay
  imports Temporal_Properties Temporal_Client Temporal_Signals Temporal_Clock
begin

text \<open>
  The workflow and its client over one server. The server keeps what has happened to a
  workflow; when something new arrives, the SDK runs the workflow function again from its
  start and answers it from that record (documented behaviour of Temporal's replay). So a
  workflow parked in the model is one whose record is used up, and what a signal of the
  client does is seen by running \<open>Execute\<close> on the record with the signal in it.
\<close>

section \<open>What the server records\<close>

text \<open>
  \<open>Q w w'\<close> reads: \<open>w'\<close> is the server \<open>w\<close> after one more signal, with name \<open>n\<close> and value
  \<open>v\<close>. What was already answered is answered the same way; a wait for \<open>n\<close> that had
  nothing to receive now receives \<open>v\<close>. Of waits with a time limit nothing is said, nor of
  \<open>time.Now()\<close>, which is Go's clock and not the record's: a run on \<open>w'\<close> reads other times.
\<close>

definition replays_with :: "('d, 'f, 'v, 'w) sdk \<Rightarrow> string \<Rightarrow> 'v \<Rightarrow> ('w \<Rightarrow> 'w \<Rightarrow> bool) \<Rightarrow> bool" where
  "replays_with k n v Q \<longleftrightarrow> (\<forall>w w'. Q w w' \<longrightarrow>
     (\<forall>q. fst (SetQueryHandler k q w') = fst (SetQueryHandler k q w) \<and>
        Q (snd (SetQueryHandler k q w)) (snd (SetQueryHandler k q w'))) \<and>
     (\<forall>a st. fst (UpsertSearchAttributes k a st w') = fst (UpsertSearchAttributes k a st w) \<and>
        Q (snd (UpsertSearchAttributes k a st w)) (snd (UpsertSearchAttributes k a st w'))) \<and>
     (\<forall>opts fn d. case ExecuteActivity k opts fn d w of
         FutureGet e upd u \<Rightarrow> \<exists>u'. ExecuteActivity k opts fn d w' = FutureGet e upd u' \<and> Q u u'
       | FutureNever \<Rightarrow> True) \<and>
     (\<forall>m. case Await k m w of
         AwaitReceived p u \<Rightarrow> \<exists>u'. Await k m w' = AwaitReceived p u' \<and> Q u u'
       | AwaitErr e u \<Rightarrow> \<exists>u'. Await k m w' = AwaitErr e u' \<and> Q u u'
       | AwaitNever \<Rightarrow> m = n \<longrightarrow> (\<exists>u'. Await k m w' = AwaitReceived (Value v) u')))"


section \<open>Replaying an operation\<close>

text \<open>
  What was done is done again. From where the first run was parked the second may go on,
  and does when it was parked on the signal.
\<close>

definition resumed ::
    "string \<Rightarrow> ('p, 'f, 'c, 'w) wstate \<Rightarrow> ('p, 'f, 'c, 'w) wstate \<Rightarrow> bool" where
  "resumed n s u \<longleftrightarrow> prefix (history s) (history u) \<and>
     (\<forall>evs t. history s = evs @ [EvWait n t] \<longrightarrow>
        (\<exists>e \<in> insert (EvSignal n) (range (EvApproval n)). prefix (history s @ [e]) (history u)))"

definition replay ::
    "string \<Rightarrow> ('w \<Rightarrow> 'w \<Rightarrow> bool) \<Rightarrow> ('a, ('p, 'f, 'c, 'w) wstate) outcome
       \<Rightarrow> ('a, ('p, 'f, 'c, 'w) wstate) outcome \<Rightarrow> bool" where
  "replay n Q m m' \<longleftrightarrow>
     (case m of
        Return a s \<Rightarrow> \<exists>w'. m' = Return a (s\<lparr>world := w'\<rparr>) \<and> Q (world s) w'
      | Running s \<Rightarrow> \<exists>w'. m' = Running (s\<lparr>world := w'\<rparr>) \<and> Q (world s) w'
      | Parked s \<Rightarrow> post m' (\<lambda>_. resumed n s) (resumed n s) (resumed n s))"

lemma replay_simps [simp]:
  "replay n Q (Return a s) m' \<longleftrightarrow> (\<exists>w'. m' = Return a (s\<lparr>world := w'\<rparr>) \<and> Q (world s) w')"
  "replay n Q (Running s) m' \<longleftrightarrow> (\<exists>w'. m' = Running (s\<lparr>world := w'\<rparr>) \<and> Q (world s) w')"
  "replay n Q (Parked s) m' \<longleftrightarrow> post m' (\<lambda>_. resumed n s) (resumed n s) (resumed n s)"
  by (simp_all add: replay_def)

text \<open>
  Of the whole of \<open>Execute\<close> the times it writes into its receiver may differ, and nothing else.
\<close>

definition same_run :: "('p, 'f, 'c, 'w) wstate \<Rightarrow> ('p, 'f, 'c, 'w) wstate \<Rightarrow> bool" where
  "same_run s s' \<longleftrightarrow>
     (wf s')\<lparr>StartedAt := None, CompletedAt := None\<rparr> = (wf s)\<lparr>StartedAt := None, CompletedAt := None\<rparr> \<and>
     history s' = history s"

definition replayed ::
    "string \<Rightarrow> ('w \<Rightarrow> 'w \<Rightarrow> bool) \<Rightarrow> ('a, ('p, 'f, 'c, 'w) wstate) outcome
       \<Rightarrow> ('a, ('p, 'f, 'c, 'w) wstate) outcome \<Rightarrow> bool" where
  "replayed n Q m m' \<longleftrightarrow>
     (case m of
        Return a s \<Rightarrow> \<exists>s'. m' = Return a s' \<and> same_run s s' \<and> Q (world s) (world s')
      | Running s \<Rightarrow> \<exists>s'. m' = Running s' \<and> same_run s s' \<and> Q (world s) (world s')
      | Parked s \<Rightarrow> post m' (\<lambda>_. resumed n s) (resumed n s) (resumed n s))"

lemma replayed_simps [simp]:
  "replayed n Q (Return a s) m' \<longleftrightarrow> (\<exists>s'. m' = Return a s' \<and> same_run s s' \<and> Q (world s) (world s'))"
  "replayed n Q (Running s) m' \<longleftrightarrow> (\<exists>s'. m' = Running s' \<and> same_run s s' \<and> Q (world s) (world s'))"
  "replayed n Q (Parked s) m' \<longleftrightarrow> post m' (\<lambda>_. resumed n s) (resumed n s) (resumed n s)"
  by (simp_all add: replayed_def)

lemma same_run_trans: "same_run s t \<Longrightarrow> same_run t u \<Longrightarrow> same_run s u"
  by (auto simp: same_run_def)

lemma same_run_world [simp]: "same_run s (s\<lparr>world := w\<rparr>)"
  by (simp add: same_run_def)

lemma same_run_restarted: "same_run s s' \<Longrightarrow> same_run s (restarted t s')"
  by (simp add: same_run_def restarted_def)

lemma same_run_status:
  assumes "same_run s s'"
  shows "Status (wf s') = Status (wf s)"
proof -
  from assms have "Status ((wf s')\<lparr>StartedAt := None, CompletedAt := None\<rparr>) =
      Status ((wf s)\<lparr>StartedAt := None, CompletedAt := None\<rparr>)"
    unfolding same_run_def by (elim conjE) (rule arg_cong)
  then show ?thesis by simp
qed

lemma replayed_final_state: "replayed n Q m m' \<Longrightarrow> prefix (history (final_state m)) (history (final_state m'))"
  by (cases m) (auto simp: resumed_def post_final_state same_run_def)

lemma same_run_of_restarted: "same_run (restarted t s) s' \<Longrightarrow> same_run s s'"
  by (simp add: same_run_def restarted_def)

lemma replayed_restarted:
  "replayed n Q (map_state (restarted t) m) m' \<Longrightarrow> replayed n Q (map_state (restarted t) m) (map_state (restarted u) m')"
  by (cases m; cases m') (auto simp: resumed_def intro: same_run_restarted)

lemma resumed_extends: "resumed n s u \<Longrightarrow> extends u u' \<Longrightarrow> resumed n s u'"
  unfolding resumed_def extends_def by (meson prefix_order.trans)

lemma emit_world_upd [simp]: "emit e (s\<lparr>world := w\<rparr>) = (emit e s)\<lparr>world := w\<rparr>"
  by (simp add: emit_def)

lemma wf_world_upd: "s\<lparr>world := w, wf := x\<rparr> = s\<lparr>wf := x, world := w\<rparr>"
  by simp

lemma deref_world_upd [simp]: "deref (s\<lparr>world := w\<rparr>) c = deref s c"
  by (simp add: deref_def)

lemma setResumable_world_upd [simp]: "setResumable c opts (s\<lparr>world := w\<rparr>) = (setResumable c opts s)\<lparr>world := w\<rparr>"
  by (simp add: setResumable_def)

lemma replay_seq:
  assumes "replay n Q m m'"
    and "\<And>a s w'. m = Return a s \<Longrightarrow> Q (world s) w' \<Longrightarrow> replay n Q (f a s) (f a (s\<lparr>world := w'\<rparr>))"
    and "\<And>a s. post (f a s) (\<lambda>_. extends s) (extends s) (extends s)"
  shows "replay n Q (and_then m f) (and_then m' f)"
proof (cases m)
  case (Parked s)
  with assms(1) have "post m' (\<lambda>_. resumed n s) (resumed n s) (resumed n s)" by simp
  then have "post (and_then m' f) (\<lambda>_. resumed n s) (resumed n s) (resumed n s)"
  proof (rule post_seq)
    fix a u
    assume "resumed n s u"
    then show "post (f a u) (\<lambda>_. resumed n s) (resumed n s) (resumed n s)"
      by (intro post_mono [OF assms(3)]) (auto intro: resumed_extends)
  qed
  with Parked show ?thesis by simp
qed (use assms(1,2) in auto)

lemma replay_then_replayed:
  assumes "replay n Q m m'"
    and "\<And>a s w'. m = Return a s \<Longrightarrow> Q (world s) w' \<Longrightarrow> replayed n Q (f a s) (f a (s\<lparr>world := w'\<rparr>))"
    and "\<And>a s. post (f a s) (\<lambda>_. extends s) (extends s) (extends s)"
  shows "replayed n Q (and_then m f) (and_then m' f)"
proof (cases m)
  case (Parked s)
  with replay_seq [OF assms(1), of "\<lambda>a s. f a s"] assms show ?thesis
    by (auto intro!: post_seq [where Q' = "\<lambda>_. resumed n s"] elim!: post_mono [OF assms(3)] dest: resumed_extends)
qed (use assms(1,2) in auto)

lemma setExecutionStatus_replay:
  assumes "replays_with k n v Q" and "Q (world s) w'"
  shows "\<exists>u. setExecutionStatus k st attr (s\<lparr>world := w'\<rparr>) =
      (fst (setExecutionStatus k st attr s), (snd (setExecutionStatus k st attr s))\<lparr>world := u\<rparr>) \<and>
    Q (world (snd (setExecutionStatus k st attr s))) u"
proof (cases "attr = ''''")
  case True
  with assms(2) show ?thesis by (auto simp: setExecutionStatus_def wf_world_upd)
next
  case False
  have "fst (UpsertSearchAttributes k attr st w') = fst (UpsertSearchAttributes k attr st (world s))"
    "Q (snd (UpsertSearchAttributes k attr st (world s))) (snd (UpsertSearchAttributes k attr st w'))"
    using assms unfolding replays_with_def by blast+
  with False show ?thesis
    by (intro exI [of _ "snd (UpsertSearchAttributes k attr st w')"])
      (auto simp: setExecutionStatus_def wf_world_upd Let_def split: prod.splits)
qed

lemma registerStatusQuery_replay:
  assumes "replays_with k n v Q" and "Q (world s) w'"
  shows "\<exists>u. registerStatusQuery k (s\<lparr>world := w'\<rparr>) =
      (fst (registerStatusQuery k s), (snd (registerStatusQuery k s))\<lparr>world := u\<rparr>) \<and>
    Q (world (snd (registerStatusQuery k s))) u"
proof -
  have "fst (SetQueryHandler k QueryGetStatus w') = fst (SetQueryHandler k QueryGetStatus (world s))"
    "Q (snd (SetQueryHandler k QueryGetStatus (world s))) (snd (SetQueryHandler k QueryGetStatus w'))"
    using assms unfolding replays_with_def by blast+
  then show ?thesis
    by (intro exI [of _ "snd (SetQueryHandler k QueryGetStatus w')"])
      (auto simp: registerStatusQuery_def Let_def split: prod.splits)
qed

lemma snd_setExecutionStatus_replay:
  assumes "replays_with k n v Q" and "Q (world s) w'"
  obtains u where "snd (setExecutionStatus k st attr (s\<lparr>world := w'\<rparr>)) =
      (snd (setExecutionStatus k st attr s))\<lparr>world := u\<rparr>"
    and "Q (world (snd (setExecutionStatus k st attr s))) u"
  using setExecutionStatus_replay [OF assms, of st attr] by (metis snd_conv)

lemma callActivity_replay:
  assumes "replays_with k n v Q" and "Q (world s) w'"
  shows "replay n Q (callActivity k opts c data s) (callActivity k opts c data (s\<lparr>world := w'\<rparr>))"
proof -
  let ?x = "ExecuteActivity k opts (ActivityFn (deref s c)) data"
  have "case ?x (world s) of FutureGet e upd u \<Rightarrow> \<exists>u'. ?x w' = FutureGet e upd u' \<and> Q u u' | FutureNever \<Rightarrow> True"
    using assms unfolding replays_with_def by blast
  then show ?thesis
    by (auto simp: callActivity_def resumed_def split: future.splits)
qed

lemma Await_replay:
  assumes "replays_with k n v Q" and "Q (world s) w'"
  shows "(\<exists>p u u'. Await k m (world s) = AwaitReceived p u \<and> Await k m w' = AwaitReceived p u' \<and> Q u u') \<or>
    (\<exists>e u u'. Await k m (world s) = AwaitErr e u \<and> Await k m w' = AwaitErr e u' \<and> Q u u') \<or>
    (Await k m (world s) = AwaitNever \<and> (m = n \<longrightarrow> (\<exists>u'. Await k m w' = AwaitReceived (Value v) u')))"
proof -
  have "case Await k m (world s) of
      AwaitReceived p u \<Rightarrow> \<exists>u'. Await k m w' = AwaitReceived p u' \<and> Q u u'
    | AwaitErr e u \<Rightarrow> \<exists>u'. Await k m w' = AwaitErr e u' \<and> Q u u'
    | AwaitNever \<Rightarrow> m = n \<longrightarrow> (\<exists>u'. Await k m w' = AwaitReceived (Value v) u')"
    using assms unfolding replays_with_def by blast
  then show ?thesis by (auto split: await.splits)
qed

lemma waitForSignalPayload_replay:
  assumes "replays_with k n v Q" and "Q (world s) w'" and "\<not> 0 < t"
  shows "replay n Q (waitForSignalPayload k m t s) (waitForSignalPayload k m t (s\<lparr>world := w'\<rparr>))"
  using Await_replay [OF assms(1,2), of m] assms(3)
  by (auto simp: waitForSignalPayload_def Let_def resumed_def split: await.splits)

lemma receiveApproval_replay:
  assumes "replays_with k n v Q" and "Q (world s) w'" and "\<not> 0 < WaitTimeout opts"
  shows "replay n Q (receiveApproval k name opts s) (receiveApproval k name opts (s\<lparr>world := w'\<rparr>))"
  using Await_replay [OF assms(1,2), of "ApprovalSignal opts"] assms(3)
  by (auto simp: receiveApproval_def Let_def resumed_def split: await.splits)

lemma waitForApproval_replay:
  assumes "replays_with k n v Q" and "Q (world s) w'" and "\<not> 0 < WaitTimeout opts"
  shows "replay n Q (waitForApproval k name opts s) (waitForApproval k name opts (s\<lparr>world := w'\<rparr>))"
proof -
  obtain u where u: "snd (setExecutionStatus k StatusAwaitingApproval (StatusSearchAttribute opts) (s\<lparr>world := w'\<rparr>)) =
      (snd (setExecutionStatus k StatusAwaitingApproval (StatusSearchAttribute opts) s))\<lparr>world := u\<rparr>"
    "Q (world (snd (setExecutionStatus k StatusAwaitingApproval (StatusSearchAttribute opts) s))) u"
    by (rule snd_setExecutionStatus_replay [OF assms(1,2)])
  show ?thesis
    unfolding waitForApproval_def Let_def u(1)
  proof (rule replay_seq [OF receiveApproval_replay [OF assms(1) u(2) assms(3)]], goal_cases)
    case (1 r t v')
    obtain x where "snd (setExecutionStatus k StatusRejected (StatusSearchAttribute opts) (t\<lparr>world := v'\<rparr>)) =
        (snd (setExecutionStatus k StatusRejected (StatusSearchAttribute opts) t))\<lparr>world := x\<rparr>"
      "Q (world (snd (setExecutionStatus k StatusRejected (StatusSearchAttribute opts) t))) x"
      by (rule snd_setExecutionStatus_replay [OF assms(1) 1(2)])
    with 1 show ?case by (auto split: sum.splits)
  next
    case (2 r t)
    then show ?case by (auto simp: growth.R_refl growth.setExecutionStatus_R split: sum.splits)
  qed
qed

lemma correctionTurn_replay:
  assumes "replays_with k n v Q" and "Q (world s) w'" and "\<not> 0 < WaitTimeout opts"
  shows "replay n Q (correctionTurn k D c actx opts data s) (correctionTurn k D c actx opts data (s\<lparr>world := w'\<rparr>))"
proof -
  let ?st = "\<lambda>st s. snd (setExecutionStatus k st (StatusSearchAttribute opts) s)"
  have set: "\<exists>x. ?st st (t\<lparr>world := v'\<rparr>) = (?st st t)\<lparr>world := x\<rparr> \<and> Q (world (?st st t)) x"
    if "Q (world t) v'" for st t v'
    using snd_setExecutionStatus_replay [OF assms(1) that] by metis
  obtain u where u: "?st StatusAwaitingCorrection (s\<lparr>world := w'\<rparr>) = (?st StatusAwaitingCorrection s)\<lparr>world := u\<rparr>"
    "Q (world (?st StatusAwaitingCorrection s)) u"
    using set [OF assms(2)] by blast
  show ?thesis
    unfolding correctionTurn_def Let_def u(1) deref_world_upd
  proof (rule replay_seq [OF waitForSignalPayload_replay [OF assms(1) u(2) assms(3)]], goal_cases)
    case (1 r t v')
    show ?case
    proof (cases r)
      case (Inl e)
      then show ?thesis using set [OF 1(2)] by fastforce
    next
      case (Inr payload)
      obtain x where x: "?st StatusExecuting (t\<lparr>world := v'\<rparr>) = (?st StatusExecuting t)\<lparr>world := x\<rparr>"
        "Q (world (?st StatusExecuting t)) x"
        using set [OF 1(2)] by blast
      have call: "replay n Q (callActivity k (Some actx) c d (?st StatusExecuting t))
          (callActivity k (Some actx) c d ((?st StatusExecuting t)\<lparr>world := x\<rparr>))" for d
        by (rule callActivity_replay [OF assms(1) x(2)])
      show ?thesis
        using Inr 1(2)
        by (auto simp: x(1) growth.R_refl split: prod.splits option.splits intro!: replay_seq [OF call])
    qed
  next
    case (2 r t)
    then show ?case
      by (auto simp: growth.R_refl growth.setExecutionStatus_R split: sum.splits prod.splits option.splits
        intro!: growth.keeps_seq [OF growth.status_callActivity_R])
  qed
qed

lemma correctionLoop_replay:
  assumes "replays_with k n v Q" and "Q (world s) w'" and "\<not> 0 < WaitTimeout opts"
  shows "replay n Q (correctionLoop k D c actx opts count data s)
    (correctionLoop k D c actx opts count data (s\<lparr>world := w'\<rparr>))"
  using assms
proof (induction k D c actx opts count data s arbitrary: w' rule: correctionLoop.induct)
  case (1 k D c actx opts count data s)
  show ?case
    unfolding correctionLoop.simps [of k D c actx opts count data]
  proof (rule replay_seq [OF correctionTurn_replay [OF "1.prems"]], goal_cases)
    case turn: (1 t s1 u)
    show ?case
    proof (cases t)
      case (TurnFailed e d)
      show ?thesis
      proof (cases "count + 1 > MaxCorrectionAttempts opts")
        case True
        with TurnFailed snd_setExecutionStatus_replay [OF "1.prems"(1) turn(2), of StatusFailed "StatusSearchAttribute opts"]
        show ?thesis by (auto 4 3)
      next
        case False
        with TurnFailed "1.IH" [OF turn(1) TurnFailed False "1.prems"(1) turn(2) "1.prems"(3)] show ?thesis by simp
      qed
    qed (use turn in auto)
  next
    case (2 t s1)
    then show ?case
      by (auto simp: growth.R_refl growth.setExecutionStatus_R growth.correctionLoop_R split: turn.splits)
  qed
qed


text \<open>No wait of the pipeline has a time limit: so it is on every graph the public operations build.\<close>

definition untimed :: "('p, 'f, 'c, 'w) wstate \<Rightarrow> bool" where
  "untimed s \<longleftrightarrow> (\<forall>c. \<not> 0 < WaitTimeout (resumableOptionsOf (deref s c)))"

definition stays_untimed :: "('p, 'f, 'c, 'w) wstate \<Rightarrow> ('p, 'f, 'c, 'w) wstate \<Rightarrow> bool" where
  "stays_untimed s s' \<longleftrightarrow> (untimed s \<longrightarrow> untimed s')"

lemma resumableOptionsOf_timeout:
  "WaitTimeout (resumableOptionsOf info) =
    (case Resumable info of None \<Rightarrow> 0 | Some r \<Rightarrow> WaitTimeout r)"
  by (auto simp: resumableOptionsOf_def zeroResumableOptions_def Let_def split: option.splits)

lemma untimed_setResumable: "untimed s \<Longrightarrow> untimed (setResumable c (resumableOptionsOf (deref s c)) s)"
  by (simp add: untimed_def deref_setResumable resumableOptionsOf_timeout)

interpretation no_limits: stable stays_untimed
  by unfold_locales (auto simp: stays_untimed_def untimed_setResumable, auto simp: untimed_def deref_def)

lemma untimed_after:
  assumes "untimed s" and "post m (\<lambda>_. stays_untimed s) (stays_untimed s) (stays_untimed s)" and "m = Return a t"
  shows "untimed t"
  using assms by (simp add: stays_untimed_def)

lemma runResumableActivity_replay:
  assumes "replays_with k n v Q" and "Q (world s) w'" and "untimed s"
  shows "replay n Q (runResumableActivity k D c data s) (runResumableActivity k D c data (s\<lparr>world := w'\<rparr>))"
proof -
  let ?opts = "resumableOptionsOf (deref s c)"
  have t: "\<not> 0 < WaitTimeout ?opts" using assms(3) by (simp add: untimed_def)
  have q: "Q (world (setResumable c ?opts s)) w'" using assms(2) by (simp add: setResumable_def)
  show ?thesis
    unfolding runResumableActivity_def Let_def deref_world_upd setResumable_world_upd
  proof (rule replay_seq [OF correctionLoop_replay [OF assms(1) q t]], goal_cases)
    case (1 r s1 u)
    have "replay n Q (waitForApproval k name ?opts s1) (waitForApproval k name ?opts (s1\<lparr>world := u\<rparr>))" for name
      by (rule waitForApproval_replay [OF assms(1) 1(2) t])
    with 1(2) show ?case
      by (auto simp: growth.R_refl split: prod.splits option.splits intro!: replay_seq)
  next
    case (2 r s1)
    show ?case
      by (auto simp: growth.R_refl split: prod.splits option.splits
        intro!: growth.keeps_seq [OF growth.waitForApproval_R])
  qed
qed

lemma runActivity_replay:
  assumes "replays_with k n v Q" and "Q (world s) w'" and "untimed s"
  shows "replay n Q (runActivity k D c data s) (runActivity k D c data (s\<lparr>world := w'\<rparr>))"
  using runResumableActivity_replay [OF assms, of D c data] assms(2)
  by (auto simp: runActivity_def Let_def growth.R_refl split: prod.splits option.splits
    intro!: replay_seq [OF callActivity_replay [OF assms(1,2)]])

lemma finalStatus_replay:
  assumes "replays_with k n v Q" and "Q (world s) w'"
  shows "\<exists>u. finalStatus k attr st (s\<lparr>world := w'\<rparr>) = (finalStatus k attr st s)\<lparr>world := u\<rparr> \<and>
    Q (world (finalStatus k attr st s)) u"
proof (cases "Status (wf s) \<noteq> StatusFailed \<and> Status (wf s) \<noteq> StatusRejected")
  case True
  from snd_setExecutionStatus_replay [OF assms, of st attr] True show ?thesis
    by (metis (no_types, lifting) finalStatus_def wstate.select_convs(1) wstate.surjective wstate.update_convs(2))
next
  case False
  with assms(2) show ?thesis by (auto simp: finalStatus_def)
qed

lemma executeLoop_replay:
  assumes "replays_with k n v Q" and "Q (world s) w'" and "untimed s"
  shows "replay n Q (executeLoop fuel k D attr cur data s) (executeLoop fuel k D attr cur data (s\<lparr>world := w'\<rparr>))"
  using assms
proof (induction fuel k D attr cur data s arbitrary: w' rule: executeLoop.induct)
  case (3 fuel k D attr c data s)
  show ?case
    unfolding executeLoop.simps
  proof (rule replay_seq [OF runActivity_replay [OF "3.prems"]], goal_cases)
    case ran: (1 r s1 u)
    obtain e d where r: "r = (e, d)" by (cases r)
    have untimed: "untimed s1" by (rule untimed_after [OF "3.prems"(3) no_limits.runActivity_R ran(1)])
    show ?case
    proof (cases e)
      case (Some x)
      then show ?thesis using r finalStatus_replay [OF "3.prems"(1) ran(2), of attr StatusFailed] by auto
    next
      case None
      with r ran(2) "3.IH" [OF ran(1) r [symmetric] None _ _ _ "3.prems"(1) ran(2) untimed] show ?thesis
        by (auto split: option.splits)
    qed
  next
    case (2 r s1)
    show ?case
      by (auto simp: growth.R_refl growth.finalStatus_R growth.executeLoop_R split: prod.splits option.splits)
  qed
qed auto


text \<open>Completing a run reads the clock; the status that goes with it is the same.\<close>

lemma complete_replayed:
  fixes t :: "('p, 'f, 'c, 'w) wstate"
  assumes "replays_with k n v Q" and "Q (world t) y"
  shows "replayed n Q
    (Return (None, d) (finalStatus k attr st (t\<lparr>wf := (wf t)\<lparr>CompletedAt := Some (time_Now k (world t))\<rparr>\<rparr>)))
    (Return (None, d) (finalStatus k attr st (t\<lparr>world := y, wf := (wf t)\<lparr>CompletedAt := Some (time_Now k y)\<rparr>\<rparr>)))"
proof -
  have timed: "same_run (finalStatus k attr st u) (finalStatus k attr st (u\<lparr>wf := (wf u)\<lparr>CompletedAt := x\<rparr>\<rparr>)) \<and>
      world (finalStatus k attr st (u\<lparr>wf := (wf u)\<lparr>CompletedAt := x\<rparr>\<rparr>)) = world (finalStatus k attr st u)"
    for u :: "('p, 'f, 'c, 'w) wstate" and x
    by (auto simp: finalStatus_def setExecutionStatus_def same_run_def Let_def split: prod.splits)
  let ?t = "t\<lparr>wf := (wf t)\<lparr>CompletedAt := Some (time_Now k (world t))\<rparr>\<rparr>"
  obtain u where u: "finalStatus k attr st (?t\<lparr>world := y\<rparr>) = (finalStatus k attr st ?t)\<lparr>world := u\<rparr>"
    "Q (world (finalStatus k attr st ?t)) u"
    using finalStatus_replay [OF assms(1), of ?t y attr st] assms(2) by auto
  have eq: "t\<lparr>world := y, wf := (wf t)\<lparr>CompletedAt := Some (time_Now k y)\<rparr>\<rparr> =
      (?t\<lparr>world := y\<rparr>)\<lparr>wf := (wf (?t\<lparr>world := y\<rparr>))\<lparr>CompletedAt := Some (time_Now k y)\<rparr>\<rparr>" by simp
  show ?thesis
    using timed [of "?t\<lparr>world := y\<rparr>" "Some (time_Now k y)"] u(2)
    unfolding eq u(1) replayed_simps by (auto intro: same_run_trans [OF same_run_world])
qed

lemma Execute_started_replay:
  fixes k :: "('d, 'f, 'v, 'w) sdk" and s :: "('p, 'f, 'c, 'w) wstate"
  assumes "replays_with k n v Q" and "Q (world s) w'" and "untimed s"
  shows "replayed n Q (Execute_started order fuel k D data s) (Execute_started order fuel k D data (s\<lparr>world := w'\<rparr>))"
proof -
  let ?attr = "statusSearchAttribute order (activity (wf s))"
  obtain e2 s2 where s2: "setExecutionStatus k StatusPending ?attr s = (e2, s2)" by fastforce
  obtain e3 s3 where s3: "registerStatusQuery k s2 = (e3, s3)" by fastforce
  obtain u2 where u2: "setExecutionStatus k StatusPending ?attr (s\<lparr>world := w'\<rparr>) = (e2, s2\<lparr>world := u2\<rparr>)" "Q (world s2) u2"
    using setExecutionStatus_replay [OF assms(1,2), of StatusPending ?attr] s2 by auto
  obtain u3 where u3: "registerStatusQuery k (s2\<lparr>world := u2\<rparr>) = (e3, s3\<lparr>world := u3\<rparr>)" "Q (world s3) u3"
    using registerStatusQuery_replay [OF assms(1) u2(2)] s3 by auto
  have wf: "wf (t\<lparr>world := y\<rparr>) = wf t" for t :: "('p, 'f, 'c, 'w) wstate" and y by simp
  have world: "world (t\<lparr>world := y\<rparr>) = y" for t :: "('p, 'f, 'c, 'w) wstate" and y by simp
  have "stays_untimed s s2"
    using no_limits.setExecutionStatus_R [of s k StatusPending ?attr] by (simp only: s2 snd_conv)
  with assms(3) have "untimed s2" unfolding stays_untimed_def by blast
  then have untimed: "untimed s3"
    using s3 by (auto simp: registerStatusQuery_def untimed_def deref_def split: prod.splits)
  have loop: "replay n Q (executeLoop fuel k D ?attr cur data s3) (executeLoop fuel k D ?attr cur data (s3\<lparr>world := u3\<rparr>))" for cur
    by (rule executeLoop_replay [OF assms(1) u3(2) untimed])
  show ?thesis
  proof (cases "e2 = None \<and> e3 = None")
    case True
    show ?thesis
      unfolding Execute_started_def Let_def wf s2 s3 u2(1) u3(1) prod.case
      using True
    proof (simp only: option.case, goal_cases)
      case 1
      show ?case
      proof (rule replay_then_replayed [OF loop], goal_cases)
        case (1 r t y)
        then show ?case using complete_replayed [OF assms(1) 1(2)] by (cases r) (auto split: option.splits)
      next
        case (2 r t)
        show ?case
          by (cases r) (auto intro!: growth.R_refl growth.R_trans [OF growth.R_CompletedAt growth.finalStatus_R]
            split: option.splits)
      qed
    qed
  next
    case False
    then show ?thesis
      unfolding Execute_started_def Let_def wf s2 s3 u2(1) u3(1) prod.case
      using u2(2) u3(2) by (auto split: option.splits)
  qed
qed

lemma Execute_replay:
  fixes k :: "('d, 'f, 'v, 'w) sdk" and s :: "('p, 'f, 'c, 'w) wstate"
  assumes "replays_with k n v Q" and "Q (world s) w'" and "untimed s"
  shows "replayed n Q (Execute order fuel k D data s) (Execute order fuel k D data (s\<lparr>world := w'\<rparr>))"
proof -
  let ?s1 = "restarted (Some (time_Now k (world s))) s"
  let ?t' = "Some (time_Now k w')"
  have again: "restarted ?t' (s\<lparr>world := w'\<rparr>) = restarted ?t' (?s1\<lparr>world := w'\<rparr>)"
    by (simp add: restarted_def)
  have "untimed ?s1" using assms(3) by (simp add: untimed_def)
  then have "replayed n Q (Execute_started order fuel k D data ?s1) (Execute_started order fuel k D data (?s1\<lparr>world := w'\<rparr>))"
    using Execute_started_replay [OF assms(1), of ?s1 w' order fuel D data] assms(2) by simp
  then have "replayed n Q (Execute_started order fuel k D data ?s1)
      (map_state (restarted ?t') (Execute_started order fuel k D data (?s1\<lparr>world := w'\<rparr>)))"
    unfolding Execute_started_restarted [of order fuel k D data "Some (time_Now k (world s))"] by (rule replayed_restarted)
  then show ?thesis
    unfolding Execute_started_restarted [symmetric] again [symmetric] by (simp add: Execute_split)
qed


section \<open>Where signals come from\<close>

text \<open>
  What a sender of signals promises: a signal it reports as sent is in the record. \<open>Q n v\<close>
  relates the server before and after; \<open>delivers\<close> states the server's part.
\<close>

fun send_all :: "(string \<Rightarrow> 'v \<Rightarrow> 'w \<Rightarrow> err \<times> 'w) \<Rightarrow> (string \<times> 'v) list \<Rightarrow> 'w \<Rightarrow> err \<times> 'w" where
  "send_all send [] w = (None, w)"
| "send_all send ((n, v) # ms) w =
    (case send n v w of (Some e, w') \<Rightarrow> (Some e, w') | (None, w') \<Rightarrow> send_all send ms w')"

locale signal_source =
  fixes send :: "'k \<Rightarrow> string \<Rightarrow> 'v \<Rightarrow> 'w \<Rightarrow> err \<times> 'w"
    and delivers :: "'k \<Rightarrow> (string \<Rightarrow> 'v \<Rightarrow> 'w \<Rightarrow> 'w \<Rightarrow> bool) \<Rightarrow> bool"
  assumes send_delivers: "delivers K Q \<Longrightarrow> send K n v w = (None, w') \<Longrightarrow> Q n v w w'"
begin

lemma one_signal:
  fixes s :: "('p, 'f, 'c, 'w) wstate"
  assumes "delivers K Q" and "\<And>n v. replays_with k n v (Q n v)" and "send K n v (world s) = (None, w')"
    and "untimed s"
  shows "replayed n (Q n v) (Execute order fuel k D data s) (Execute order fuel k D data (s\<lparr>world := w'\<rparr>))"
  by (rule Execute_replay [OF assms(2) send_delivers [OF assms(1,3)] assms(4)])

text \<open>After any signals everything done before is done again, and a result stays the result.\<close>

lemma many_signals:
  fixes s :: "('p, 'f, 'c, 'w) wstate"
  assumes "delivers K Q" and "\<And>n v. replays_with k n v (Q n v)" and "untimed s"
  shows "send_all (send K) ms (world s) = (None, w') \<Longrightarrow>
    prefix (history (final_state (Execute order fuel k D data s)))
      (history (final_state (Execute order fuel k D data (s\<lparr>world := w'\<rparr>)))) \<and>
    (\<forall>r t. Execute order fuel k D data s = Return r t \<longrightarrow>
      (\<exists>t'. Execute order fuel k D data (s\<lparr>world := w'\<rparr>) = Return r t' \<and> same_run t t'))"
  using assms(3)
proof (induction ms arbitrary: s)
  case Nil
  have "s\<lparr>world := w'\<rparr> = s" using Nil by simp
  then show ?case by (simp add: same_run_def)
next
  case (Cons m ms)
  obtain n v where m: "m = (n, v)" by (cases m)
  with Cons.prems(1) obtain w1 where w1: "send K n v (world s) = (None, w1)" "send_all (send K) ms w1 = (None, w')"
    by (auto split: prod.splits option.splits)
  note one = one_signal [OF assms(1,2) w1(1) Cons.prems(2), of order fuel D data]
  have "untimed (s\<lparr>world := w1\<rparr>)" using Cons.prems(2) by (simp add: untimed_def)
  with Cons.IH [of "s\<lparr>world := w1\<rparr>"] w1(2) one show ?case
    by (auto intro: prefix_order.trans [OF replayed_final_state [OF one]]) (metis same_run_trans)
qed

end

text \<open>The client's \<open>SignalWorkflow\<close>, the same through the interface, and a signal of another workflow.\<close>

definition server_delivers ::
    "(string \<Rightarrow> string \<Rightarrow> string \<Rightarrow> 'v \<Rightarrow> 'w \<Rightarrow> err \<times> 'w) \<Rightarrow> string \<Rightarrow> string
       \<Rightarrow> (string \<Rightarrow> 'v \<Rightarrow> 'w \<Rightarrow> 'w \<Rightarrow> bool) \<Rightarrow> bool" where
  "server_delivers signal wid rid Q \<longleftrightarrow> (\<forall>n v w w'. signal wid rid n v w = (None, w') \<longrightarrow> Q n v w w')"

interpretation client_signals: signal_source
    "\<lambda>(K, t, wid, rid). SignalWorkflow K t wid rid"
    "\<lambda>(K, t, wid, rid). server_delivers (cl_SignalWorkflow K (tc_client t)) wid rid"
  by unfold_locales (auto simp: SignalWorkflow_def server_delivers_def)

interpretation interface_signals: signal_source
    "\<lambda>(wfd, wid, rid). wf_SignalWorkflow wfd wid rid"
    "\<lambda>(wfd, wid, rid). server_delivers (m_SignalWorkflow (WorkflowExecutionData.temporalClient wfd)) wid rid"
  by unfold_locales (auto simp: wf_SignalWorkflow_def server_delivers_def)

interpretation workflow_signals: signal_source
    "\<lambda>(S, wid, rid). SignalExternalWorkflow S wid rid"
    "\<lambda>(S, wid, rid). server_delivers (SignalExternal S) wid rid"
  by unfold_locales (auto simp: SignalExternalWorkflow_def server_delivers_def split: prod.splits option.splits)


section \<open>A parked workflow and its client\<close>

lemma untimed_registered: "untimed (registered_workflow register rs client w)"
  by (auto simp: untimed_def registered_workflow_def deref_def registered_info resumableOptionsOf_timeout
      info_of_registration_def registeredInfo_def placeholderInfo_def zeroResumableOptions_def split: option.splits)

lemma registered_world_upd:
  "(registered_workflow register rs client w)\<lparr>world := w'\<rparr> = registered_workflow register rs client w'"
  by (simp add: registered_workflow_def)

text \<open>No registered activity has a search attribute, so the order of the map is never seen.\<close>

lemma registered_any_order:
  "Execute order fuel k D data (registered_workflow register rs client w) =
    Execute order' fuel k D data (registered_workflow register rs client w)"
  by (simp add: Execute_split Execute_started_def Let_def registered_no_attribute)

lemma registered_run:
  assumes "wf_run (graph_of (wf (registered_workflow register rs client w))) Created evs p"
  shows "list_all unbounded_event evs \<and> approval_free p"
proof (rule run_option_free [OF assms])
  show "option_free (graph_of (wf (registered_workflow register rs client w)))"
    by (simp add: registered_workflow_def option_free_registered)
qed simp

lemma registered_no_approval:
  fixes register :: "string \<Rightarrow> 'f option \<Rightarrow> 'c \<Rightarrow> 'c" and client :: 'c and w :: 'w
  shows "EvApproval ch b \<notin> set (history (final_state
    (Execute order fuel k D data (registered_workflow register rs client w :: ('p, 'f, 'c, 'w) wstate))))"
proof -
  let ?s = "registered_workflow register rs client w :: ('p, 'f, 'c, 'w) wstate"
  have "recorded (list_all unbounded_event) ?s (final_state (Execute order fuel k D data ?s))"
    by (rule post_final_state [THEN iffD1, OF Execute_recorded]) (simp add: registered_run)
  then show ?thesis by (auto simp: recorded_def registered_workflow_def list_all_iff)
qed

lemma registered_parked_status:
  fixes register :: "string \<Rightarrow> 'f option \<Rightarrow> 'c \<Rightarrow> 'c" and client :: 'c and w :: 'w
  assumes "Execute order fuel k D data (registered_workflow register rs client w :: ('p, 'f, 'c, 'w) wstate) = Parked s"
    and "history s = evs @ [EvWait n t]"
  shows "Status (wf s) = StatusAwaitingCorrection"
proof -
  let ?s = "registered_workflow register rs client w :: ('p, 'f, 'c, 'w) wstate"
  let ?G = "graph_of (wf ?s)"
  obtain p where p: "ran_to ?s s p"
    using Execute_run [of order fuel k D data ?s] assms(1) by auto
  then have run: "wf_run ?G Created (evs @ [EvWait n t]) p" and st: "phase_status p = Some (Status (wf s))"
    using assms(2) by (auto simp: ran_to_def recorded_def registered_workflow_def)
  from run have "approval_free p" by (blast dest: registered_run)
  moreover from run obtain q where "wf_step ?G q (EvWait n t) p" by (blast elim: run_snocE)
  ultimately show ?thesis using st by (auto elim: step_WaitE)
qed

text \<open>
  C7: A workflow and its client over one server, whatever times the runs read from Go's
  clock. When the client sends a signal, what the workflow did before is done again, and a
  workflow that had returned returns the same again, in the same state but for the times
  in its receiver. A workflow parked on that signal shows AWAITING_CORRECTION until then,
  and goes on from where it was: it receives the signal, and never an approval in its
  place. The order in which each run ranges over the activity map does not matter.
\<close>

theorem client_signal_resumes:
  fixes register :: "string \<Rightarrow> 'f option \<Rightarrow> 'c \<Rightarrow> 'c" and client :: 'c and w :: 'w
  assumes "\<And>n v. replays_with k n v (Q n v)"
    and "server_delivers (cl_SignalWorkflow K (tc_client t)) workflowID runID Q"
    and "SignalWorkflow K t workflowID runID n v w = (None, w')"
  shows "case Execute order fuel k D data (registered_workflow register rs client w :: ('p, 'f, 'c, 'w) wstate) of
      Return r s \<Rightarrow> \<exists>s'. Execute order' fuel k D data (registered_workflow register rs client w') = Return r s' \<and>
        same_run s s'
    | Running s \<Rightarrow> \<exists>s'. Execute order' fuel k D data (registered_workflow register rs client w') = Running s' \<and>
        same_run s s'
    | Parked s \<Rightarrow>
       (let s' = final_state (Execute order' fuel k D data
              (registered_workflow register rs client w' :: ('p, 'f, 'c, 'w) wstate))
        in prefix (history s) (history s') \<and>
          (\<forall>evs timeout. history s = evs @ [EvWait n timeout] \<longrightarrow>
             Status (wf s) = StatusAwaitingCorrection \<and> prefix (history s @ [EvSignal n]) (history s')))"
proof -
  let ?s = "\<lambda>w. registered_workflow register rs client w :: ('p, 'f, 'c, 'w) wstate"
  have "SignalWorkflow K t workflowID runID n v (world (?s w)) = (None, w')"
    using assms(3) by (simp add: registered_workflow_def)
  with client_signals.one_signal [where K = "(K, t, workflowID, runID)", OF _ assms(1) _ untimed_registered] assms(2)
  have "replayed n (Q n v) (Execute order fuel k D data (?s w)) (Execute order fuel k D data (?s w'))"
    by (fastforce simp: registered_world_upd)
  then have re: "replayed n (Q n v) (Execute order fuel k D data (?s w)) (Execute order' fuel k D data (?s w'))"
    by (simp only: registered_any_order [of order' fuel k D data register rs client w' order])
  show ?thesis
  proof (cases "Execute order fuel k D data (?s w)")
    case (Parked s)
    let ?s' = "final_state (Execute order' fuel k D data (?s w'))"
    have r: "resumed n s ?s'" using re Parked by (simp add: post_final_state)
    have "prefix (history s @ [EvSignal n]) (history ?s')" if wait: "history s = evs @ [EvWait n \<tau>]" for evs \<tau>
    proof -
      obtain e where e: "e \<in> insert (EvSignal n) (range (EvApproval n))" "prefix (history s @ [e]) (history ?s')"
        using r wait unfolding resumed_def by blast
      from e(2) have "e \<in> set (history ?s')" by (auto simp: prefix_def)
      with registered_no_approval [of n _ order' fuel k D data register rs client w', where 'p = 'p] e show ?thesis by auto
    qed
    with r registered_parked_status [OF Parked] Parked show ?thesis by (auto simp: Let_def resumed_def)
  qed (use re in auto)
qed


text \<open>A server that keeps one queue of values for each signal, and a clock that never shows the same time twice.\<close>

type_synonym mail = "(string \<Rightarrow> string list) \<times> int"

definition mail_sdk :: "(string, unit, string, mail) sdk" where
  "mail_sdk = \<lparr>time_Now = snd, SetQueryHandler = (\<lambda>q w. (None, w)),
     UpsertSearchAttributes = (\<lambda>a st w. (None, (fst w, snd w + 1))),
     ExecuteActivity = (\<lambda>opts f d w. FutureGet None (\<lambda>x. x) (fst w, snd w + 1)),
     Await = (\<lambda>ch w. case fst w ch of [] \<Rightarrow> AwaitNever
       | v # vs \<Rightarrow> AwaitReceived (Value v) ((fst w)(ch := vs), snd w + 1)),
     AwaitWithTimeout = (\<lambda>ch t w. TimedOut w),
     decode_bool = (\<lambda>q. q = Value ''true''), json_Marshal = (\<lambda>v. Inr v)\<rparr>"

definition mail_client :: "(unit, string, unit, unit, unit, unit, unit, mail) sdk_client" where
  "mail_client = \<lparr>NewClient = (\<lambda>opts w. (Inr (), w)), worker_New = (\<lambda>c q wo. ()),
     cl_ExecuteWorkflow = (\<lambda>c opts f vs w. (Inr (), w)),
     cl_SignalWorkflow = (\<lambda>c wid rid n v w. (None, ((fst w)(n := fst w n @ [v]), snd w + 60))),
     cl_QueryWorkflow = (\<lambda>c wid rid q vs w. (Inr (), w)), enc_Get = (\<lambda>x. Inr None),
     cl_CancelWorkflow = (\<lambda>c wid rid w. (None, w)), cl_GetWorkflow = (\<lambda>c wid rid. ()),
     run_Get = (\<lambda>r w. (Inr '''', w)), cl_UpdateWorkflow = (\<lambda>c opts w. (Inr (), w)),
     wk_RegisterWorkflow = (\<lambda>k f n w. (Returns (), w)), wk_RegisterActivity = (\<lambda>k f n w. (Returns (), w)),
     wk_Start = (\<lambda>k w. (None, w)), wk_Stop = (\<lambda>k w. w)\<rparr>"

definition mail_tc :: "(unit, unit) temporalClient" where
  "mail_tc = \<lparr>tc_worker = Some (), tc_client = (), tc_taskQueue = ''default''\<rparr>"

definition mail_added :: "string \<Rightarrow> string \<Rightarrow> mail \<Rightarrow> mail \<Rightarrow> bool" where
  "mail_added n v w w' \<longleftrightarrow> fst w' = (fst w)(n := fst w n @ [v])"

lemma mail_replays: "replays_with mail_sdk n v (mail_added n v)"
  by (auto simp: replays_with_def mail_sdk_def mail_added_def fun_upd_twist split: list.splits)

abbreviation mail_workflow :: "mail \<Rightarrow> (unit, unit, unit, mail) wstate" where
  "mail_workflow w \<equiv> registered_workflow (\<lambda>_ _ c. c) [demo_step ''a'' ''go'' []] () w"

theorem client_signal_resumes_witness:
  "prefix [EvStatus StatusPending, EvQuery QueryGetStatus, EvStatus StatusAwaitingCorrection, EvWait ''go'' 0, EvSignal ''go'']
     (history (final_state (Execute [] 5 mail_sdk demo_data (Some '''') (mail_workflow ((\<lambda>_. [])(''go'' := [''x'']), 60))))) \<and>
   SignalWorkflow mail_client mail_tc ''order-1'' '''' ''go'' ''x'' (\<lambda>_. [], 0) = (None, (\<lambda>_. [])(''go'' := [''x'']), 60)"
proof -
  have run: "\<exists>s. Execute [] 5 mail_sdk demo_data (Some '''') (mail_workflow (\<lambda>_. [], 0)) = Parked s \<and>
      history s = [EvStatus StatusPending, EvQuery QueryGetStatus, EvStatus StatusAwaitingCorrection, EvWait ''go'' 0]"
    by (simp add: demo_defs mail_sdk_def Execute_def NewWorkflowExecution_def AddTransitionActivityWithOptions_def
      eval_nat_numeral deref_def infoAt_def runActivity_def setExecutionStatus_def registerStatusQuery_def
      lookupActivity_def runResumableActivity_def correctionLoop.simps correctionTurn_def waitForSignalPayload_def
      resumableOptionsOf_def zeroResumableOptions_def setResumable_def Let_def)
  then obtain s where s: "Execute [] 5 mail_sdk demo_data (Some '''') (mail_workflow (\<lambda>_. [], 0)) = Parked s"
    "history s = [EvStatus StatusPending, EvQuery QueryGetStatus, EvStatus StatusAwaitingCorrection] @ [EvWait ''go'' 0]"
    by auto
  have server: "server_delivers (cl_SignalWorkflow mail_client (tc_client mail_tc)) ''order-1'' '''' mail_added"
    by (simp add: server_delivers_def mail_client_def mail_added_def)
  have sent: "SignalWorkflow mail_client mail_tc ''order-1'' '''' ''go'' ''x'' (\<lambda>_. [], 0) = (None, (\<lambda>_. [])(''go'' := [''x'']), 60)"
    by (simp add: SignalWorkflow_def mail_client_def)
  from client_signal_resumes [where Q = mail_added, OF mail_replays server sent, where order = "[]" and order' = "[]"
      and fuel = 5 and D = demo_data and data = "Some ''''" and register = "\<lambda>_ _ c. c"
      and rs = "[demo_step ''a'' ''go'' []]" and client = "()" and 'p = unit] s sent
  show ?thesis by (auto simp: Let_def)
qed

end
