(* ===== verification/Temporal_Delivery.thy ===== *)
theory Temporal_Delivery
  imports Temporal_Replay Temporal_Public_Properties
begin

text \<open>
  From the client's signals to the client's result. A server that keeps one queue of
  values per signal hands each value out once; as long as the queues last, gated
  activities are corrected and run, and a workflow on a graph without cycles returns. The
  client that sent the signals reads status and result from the same server.
\<close>

section \<open>A server with queues\<close>

text \<open>
  Signals are received in the order they were sent, each once; an empty queue parks.
  \<open>left\<close> counts the runs of activities that still fail, each with \<open>e\<close>. The calls for the
  status succeed, and nothing else changes queues or failures.
\<close>

definition queue_server ::
    "('d, 'f, 'v, 'w) sdk \<Rightarrow> ('w \<Rightarrow> string \<Rightarrow> 'v list) \<Rightarrow> ('w \<Rightarrow> nat) \<Rightarrow> go_error \<Rightarrow> bool" where
  "queue_server k queue left e \<longleftrightarrow>
     (\<forall>ch w. case queue w ch of
        [] \<Rightarrow> Await k ch w = AwaitNever
      | v # vs \<Rightarrow> \<exists>w'. Await k ch w = AwaitReceived (Value v) w' \<and>
          queue w' = (queue w)(ch := vs) \<and> left w' = left w) \<and>
     (\<forall>a st w. \<exists>w'. UpsertSearchAttributes k a st w = (None, w') \<and> queue w' = queue w \<and> left w' = left w) \<and>
     (\<forall>q w. \<exists>w'. SetQueryHandler k q w = (None, w') \<and> queue w' = queue w \<and> left w' = left w) \<and>
     (\<forall>opts f d w. \<exists>upd w'. ExecuteActivity k opts f d w =
        FutureGet (if left w = 0 then None else Some e) upd w' \<and> queue w' = queue w \<and> left w' = left w - 1)"

text \<open>Every value in the queues can be applied as a correction.\<close>

definition usable_queues :: "('d, 'f, 'v, 'w) sdk \<Rightarrow> 'd ExecutionDataOps \<Rightarrow> (string \<Rightarrow> 'v list) \<Rightarrow> bool" where
  "usable_queues k D q \<longleftrightarrow> (\<forall>ch. \<forall>v \<in> set (q ch). usable k D (Value v))"

lemma usable_queues_tail: "usable_queues k D q \<Longrightarrow> q ch = v # vs \<Longrightarrow> usable_queues k D (q(ch := vs))"
  unfolding usable_queues_def by (metis fun_upd_apply list.set_intros(2))

lemma usable_queues_drop: "usable_queues k D q \<Longrightarrow> usable_queues k D (q(ch := drop n (q ch)))"
  by (auto simp: usable_queues_def dest: in_set_dropD)

lemma queue_status:
  assumes "queue_server k queue left e"
  obtains s' where "setExecutionStatus k st attr s = (None, s')"
    and "queue (world s') = queue (world s)" and "left (world s') = left (world s)"
    and "wf s' = (wf s)\<lparr>Status := st\<rparr>"
proof (cases "attr = ''''")
  case True
  then show ?thesis by (intro that [of "emit (EvStatus st) (s\<lparr>wf := (wf s)\<lparr>Status := st\<rparr>\<rparr>)"])
    (simp_all add: setExecutionStatus_def)
next
  case False
  obtain w' where "UpsertSearchAttributes k attr st (world s) = (None, w')" "queue w' = queue (world s)"
    "left w' = left (world s)"
    using assms unfolding queue_server_def by blast
  with False that show ?thesis by (simp add: setExecutionStatus_def Let_def)
qed

lemma queue_receive:
  assumes "queue_server k queue left e" and "queue (world s) ch = v # vs" and "usable k D (Value v)"
    and "\<not> 0 < t"
  obtains b s' where "waitForSignalPayload k ch t s = Return (Inr b) s'"
    and "b = '''' \<or> b = ''null'' \<or> (\<forall>d. fst (Unmarshal D b d) = None)"
    and "queue (world s') = (queue (world s))(ch := vs)" and "left (world s') = left (world s)" and "wf s' = wf s"
proof -
  have "case queue (world s) ch of [] \<Rightarrow> Await k ch (world s) = AwaitNever
      | v # vs \<Rightarrow> \<exists>w'. Await k ch (world s) = AwaitReceived (Value v) w' \<and>
          queue w' = (queue (world s))(ch := vs) \<and> left w' = left (world s)"
    using assms(1) unfolding queue_server_def by blast
  then obtain w' where "Await k ch (world s) = AwaitReceived (Value v) w'"
    "queue w' = (queue (world s))(ch := vs)" "left w' = left (world s)"
    using assms(2) by auto
  moreover obtain b where "encodeCorrection k (Value v) = Inr b"
    "b = '''' \<or> b = ''null'' \<or> (\<forall>d. fst (Unmarshal D b d) = None)"
    using assms(3) by (auto simp: usable_def)
  ultimately show ?thesis using assms(4) that by (simp add: waitForSignalPayload_def Let_def)
qed

lemma queue_call:
  assumes "queue_server k queue left e"
  obtains d' s' where "callActivity k opts c (Some d) s =
      Return (if left (world s) = 0 then None else Some e, Some d') s'"
    and "queue (world s') = queue (world s)" and "left (world s') = left (world s) - 1" and "wf s' = wf s"
proof -
  obtain upd w' where "ExecuteActivity k opts (ActivityFn (deref s c)) (Some d) (world s) =
      FutureGet (if left (world s) = 0 then None else Some e) upd w'"
    "queue w' = queue (world s)" "left w' = left (world s) - 1"
    using assms unfolding queue_server_def by blast
  with that show ?thesis by (simp add: callActivity_def)
qed


section \<open>A visit of a gated activity\<close>

text \<open>One turn takes one value of the activity's signal and runs the activity once.\<close>

lemma queue_turn:
  assumes "queue_server k queue left e" and "queue (world s) (SignalEvent (deref s c)) = v # vs"
    and "usable k D (Value v)" and "\<not> 0 < WaitTimeout opts"
  obtains d' s' where "correctionTurn k D c actx opts (Some d) s =
      Return (if left (world s) = 0 then TurnBreak (Some d') else TurnFailed e (Some d')) s'"
    and "queue (world s') = (queue (world s))(SignalEvent (deref s c) := vs)"
    and "left (world s') = left (world s) - 1" and "deref s' c = deref s c"
proof -
  let ?attr = "StatusSearchAttribute opts"
  obtain s1 where s1: "setExecutionStatus k StatusAwaitingCorrection ?attr s = (None, s1)"
    "queue (world s1) = queue (world s)" "left (world s1) = left (world s)"
    "wf s1 = (wf s)\<lparr>Status := StatusAwaitingCorrection\<rparr>"
    by (rule queue_status [OF assms(1)])
  obtain b s2 where s2: "waitForSignalPayload k (SignalEvent (deref s c)) (WaitTimeout opts) s1 = Return (Inr b) s2"
    "b = '''' \<or> b = ''null'' \<or> (\<forall>d. fst (Unmarshal D b d) = None)"
    "queue (world s2) = (queue (world s1))(SignalEvent (deref s c) := vs)" "left (world s2) = left (world s1)"
    "wf s2 = wf s1"
    by (rule queue_receive [OF assms(1) _ assms(3,4), of s1]) (use assms(2) s1(2) in simp_all)
  obtain d1 where d1: "(if 0 < length b \<and> b \<noteq> ''null'' then applyCorrection D (Some d) b else (None, Some d)) =
      (None, Some d1)"
    by (rule that [of "if 0 < length b \<and> b \<noteq> ''null'' then snd (Unmarshal D b d) else d"])
      (use s2(2) in \<open>auto simp: applyCorrection_def case_prod_beta\<close>)
  obtain s3 where s3: "setExecutionStatus k StatusExecuting ?attr s2 = (None, s3)"
    "queue (world s3) = queue (world s2)" "left (world s3) = left (world s2)"
    "wf s3 = (wf s2)\<lparr>Status := StatusExecuting\<rparr>"
    by (rule queue_status [OF assms(1)])
  obtain d2 s4 where s4: "callActivity k (Some actx) c (Some d1) s3 =
      Return (if left (world s3) = 0 then None else Some e, Some d2) s4"
    "queue (world s4) = queue (world s3)" "left (world s4) = left (world s3) - 1" "wf s4 = wf s3"
    by (rule queue_call [OF assms(1)])
  have "correctionTurn k D c actx opts (Some d) s =
      Return (if left (world s) = 0 then TurnBreak (Some d2) else TurnFailed e (Some d2)) s4"
    using s1(3) s2(4) s3(3) s4(1)
    unfolding correctionTurn_def Let_def s1(1) s2(1) s3(1) and_then.simps sum.case d1 prod.case snd_conv option.case
    by simp
  then show ?thesis
    by (rule that) (simp_all add: s4(2-4) s3(2-4) s2(3-5) s1(2-4) deref_def)
qed

text \<open>
  The loop takes one value for every failing run and one more, and ends with success
  when the failing runs are within the budget.
\<close>

lemma queue_loop:
  assumes "queue_server k queue left e" and "\<not> 0 < WaitTimeout opts" and "SignalEvent (deref s c) = ch"
    and "usable_queues k D (queue (world s))" and "left (world s) < length (queue (world s) ch)"
    and "count + int (left (world s)) \<le> MaxCorrectionAttempts opts"
  shows "\<exists>d' s'. correctionLoop k D c actx opts count (Some d) s = Return (None, Some d') s' \<and>
    queue (world s') = (queue (world s))(ch := drop (Suc (left (world s))) (queue (world s) ch)) \<and>
    left (world s') = 0"
  using assms(3-)
proof (induction "left (world s)" arbitrary: s count d)
  case (0 s)
  then obtain v vs where q: "queue (world s) ch = v # vs" by (cases "queue (world s) ch") auto
  with 0 have u: "usable k D (Value v)" unfolding usable_queues_def by (metis list.set_intros(1))
  have q': "queue (world s) (SignalEvent (deref s c)) = v # vs" using q 0 by simp
  obtain d' s' where "correctionTurn k D c actx opts (Some d) s =
      Return (if left (world s) = 0 then TurnBreak (Some d') else TurnFailed e (Some d')) s'"
    "queue (world s') = (queue (world s))(SignalEvent (deref s c) := vs)" "left (world s') = left (world s) - 1"
    by (rule queue_turn [OF assms(1) q' u assms(2)])
  with 0 q show ?case by (auto simp: loop_turns)
next
  case (Suc n s)
  then obtain v vs where q: "queue (world s) ch = v # vs" by (cases "queue (world s) ch") auto
  with Suc have u: "usable k D (Value v)" unfolding usable_queues_def by (metis list.set_intros(1))
  have q': "queue (world s) (SignalEvent (deref s c)) = v # vs" using q Suc by simp
  obtain d' s' where turn: "correctionTurn k D c actx opts (Some d) s =
      Return (if left (world s) = 0 then TurnBreak (Some d') else TurnFailed e (Some d')) s'"
    "queue (world s') = (queue (world s))(SignalEvent (deref s c) := vs)" "left (world s') = left (world s) - 1"
    "deref s' c = deref s c"
    by (rule queue_turn [OF assms(1) q' u assms(2)])
  have after: "queue (world s') = (queue (world s))(ch := vs)" "left (world s') = n"
    using turn(2,3) Suc.prems(1) Suc.hyps(2) by auto
  have "correctionTurn k D c actx opts (Some d) s = Return (TurnFailed e (Some d')) s'"
    using turn(1) by (simp flip: Suc.hyps(2))
  then have loop: "correctionLoop k D c actx opts count (Some d) s = correctionLoop k D c actx opts (count + 1) (Some d') s'"
    using Suc.prems(4) Suc.hyps(2) by (intro loop_turns(2)) auto
  have "\<exists>d'' s''. correctionLoop k D c actx opts (count + 1) (Some d') s' = Return (None, Some d'') s'' \<and>
    queue (world s'') = (queue (world s'))(ch := drop (Suc (left (world s'))) (queue (world s') ch)) \<and>
    left (world s'') = 0"
  proof (rule Suc.hyps(1))
    show "usable_queues k D (queue (world s'))"
      unfolding after(1) by (rule usable_queues_tail [OF Suc.prems(2) q])
    show "left (world s') < length (queue (world s') ch)"
      using Suc.prems(3) Suc.hyps(2) q by (simp add: after)
  qed (use Suc.prems(1,4) Suc.hyps(2) turn(4) after in auto)
  then show ?case unfolding loop by (simp add: after q flip: Suc.hyps(2))
qed

lemma queue_runActivity:
  assumes "queue_server k queue left e" and "\<not> 0 < WaitTimeout (resumableOptionsOf (deref s c))"
    and "ApprovalSignal (resumableOptionsOf (deref s c)) = ''''" and "SignalEvent (deref s c) = ch"
    and "usable_queues k D (queue (world s))"
    and "if ch = '''' then left (world s) = 0
      else left (world s) < length (queue (world s) ch) \<and>
        int (left (world s)) \<le> MaxCorrectionAttempts (resumableOptionsOf (deref s c))"
  shows "\<exists>d' s'. runActivity k D c (Some d) s = Return (None, Some d') s' \<and> left (world s') = 0 \<and>
    queue (world s') = (if ch = '''' then queue (world s)
      else (queue (world s))(ch := drop (Suc (left (world s))) (queue (world s) ch)))"
proof (cases "ch = ''''")
  case True
  obtain d1 s1 where s1: "callActivity k (ActivityOpts (deref s c)) c (Some d) s =
      Return (if left (world s) = 0 then None else Some e, Some d1) s1"
    "queue (world s1) = queue (world s)" "left (world s1) = left (world s) - 1"
    by (rule queue_call [OF assms(1)])
  obtain d2 where "applyBranch D (deref s c) (Some d1) = (None, Some d2)"
    using applyBranch_Some [of D "deref s c" d1] by blast
  with s1 True assms(4,6) show ?thesis by (auto simp: runActivity_def Let_def)
next
  case False
  let ?opts = "resumableOptionsOf (deref s c)"
  let ?s1 = "setResumable c ?opts s"
  let ?actx = "resumableActivityContext (deref ?s1 c)"
  have same: "world ?s1 = world s" "SignalEvent (deref ?s1 c) = ch"
    using assms(4) by (simp_all add: setResumable_def deref_def infoAt_def)
  have "\<exists>d' s'. correctionLoop k D c ?actx ?opts 0 (Some d) ?s1 = Return (None, Some d') s' \<and>
    queue (world s') = (queue (world ?s1))(ch := drop (Suc (left (world ?s1))) (queue (world ?s1) ch)) \<and>
    left (world s') = 0"
    by (rule queue_loop [OF assms(1,2) same(2)]) (use assms(5,6) False same(1) in auto)
  then obtain d' s' where loop: "correctionLoop k D c ?actx ?opts 0 (Some d) ?s1 = Return (None, Some d') s'"
    "queue (world s') = (queue (world s))(ch := drop (Suc (left (world s))) (queue (world s) ch))" "left (world s') = 0"
    unfolding same(1) by blast
  obtain d2 where "applyBranch D (deref s' c) (Some d') = (None, Some d2)"
    using applyBranch_Some [of D "deref s' c" d'] by blast
  with loop False assms(3,4) show ?thesis
    by (auto simp: runActivity_def runResumableActivity_def Let_def)
qed


section \<open>A whole run\<close>

text \<open>
  The gated activities, among the nodes \<open>N\<close>, that wait for \<open>ch\<close> and have at most the rank
  \<open>r\<close>: those that a run from a node of rank \<open>r\<close> can still meet.
\<close>

definition gates_below :: "graph \<Rightarrow> string set \<Rightarrow> (string \<Rightarrow> nat) \<Rightarrow> nat \<Rightarrow> string \<Rightarrow> nat" where
  "gates_below G N rk r ch = card {n \<in> N. g_signal G n = ch \<and> rk n \<le> r}"

lemma gates_below_mono: "finite N \<Longrightarrow> r \<le> r' \<Longrightarrow> gates_below G N rk r ch \<le> gates_below G N rk r' ch"
  unfolding gates_below_def by (rule card_mono) auto

lemma gates_below_step:
  assumes "finite N" and "c \<in> N" and "g_signal G c = ch" and "r < rk c"
  shows "gates_below G N rk r ch < gates_below G N rk (rk c) ch"
proof -
  have "c \<in> {n \<in> N. g_signal G n = ch \<and> rk n \<le> rk c} - {n \<in> N. g_signal G n = ch \<and> rk n \<le> r}"
    using assms by simp
  moreover have "{n \<in> N. g_signal G n = ch \<and> rk n \<le> r} \<subseteq> {n \<in> N. g_signal G n = ch \<and> rk n \<le> rk c}"
    using assms(4) by auto
  ultimately show ?thesis unfolding gates_below_def by (intro psubset_card_mono) (use assms(1) in auto)
qed

lemma gates_below_self: "finite N \<Longrightarrow> c \<in> N \<Longrightarrow> 0 < gates_below G N rk (rk c) (g_signal G c)"
  unfolding gates_below_def by (subst card_gt_0_iff) auto

text \<open>What the queues must hold when the run is at \<open>c\<close>, whose runs may still fail \<open>l\<close> times.\<close>

definition stocked ::
    "graph \<Rightarrow> string set \<Rightarrow> (string \<Rightarrow> nat) \<Rightarrow> (string \<Rightarrow> 'v list) \<Rightarrow> nat \<Rightarrow> string \<Rightarrow> bool" where
  "stocked G N rk q l c \<longleftrightarrow>
     (\<forall>ch. ch \<noteq> '''' \<longrightarrow> gates_below G N rk (rk c) ch + (if g_signal G c = ch then l else 0) \<le> length (q ch)) \<and>
     (if g_signal G c = '''' then l = 0 else int l \<le> g_max G c)"

lemma stocked_next:
  assumes "stocked G N rk q l c" and "finite N" and "g_signal G c \<noteq> '''' \<Longrightarrow> c \<in> N" and "rk c' < rk c"
    and "\<And>n. 0 \<le> g_max G n"
    and "q' = (if g_signal G c = '''' then q else q(g_signal G c := drop (Suc l) (q (g_signal G c))))"
  shows "stocked G N rk q' 0 c'"
proof -
  have "gates_below G N rk (rk c') ch \<le> length (q' ch)" if ch: "ch \<noteq> ''''" for ch
  proof (cases "g_signal G c = ch")
    case True
    with assms(1) ch have "gates_below G N rk (rk c) ch + l \<le> length (q ch)" by (auto simp: stocked_def)
    moreover have "gates_below G N rk (rk c') ch < gates_below G N rk (rk c) ch"
      using gates_below_step [of N c G ch "rk c'" rk] assms(2-4) ch True by simp
    ultimately show ?thesis using assms(6) ch True by simp
  next
    case False
    have "gates_below G N rk (rk c') ch \<le> gates_below G N rk (rk c) ch"
      by (rule gates_below_mono [OF assms(2)]) (use assms(4) in simp)
    with assms(1,6) False ch show ?thesis by (fastforce simp: stocked_def)
  qed
  with assms(5) show ?thesis by (simp add: stocked_def)
qed

lemma graph_fields:
  "SignalEvent (deref s c) = g_signal (graph_of (wf s)) c"
  "MaxCorrectionAttempts (resumableOptionsOf (deref s c)) = g_max (graph_of (wf s)) c"
  "ApprovalSignal (resumableOptionsOf (deref s c)) = g_approval (graph_of (wf s)) c"
  "WaitTimeout (resumableOptionsOf (deref s c)) = g_timeout (graph_of (wf s)) c"
  by (simp_all add: graph_of_def graph_of_activities_def deref_def)

lemma g_max_nonneg: "0 \<le> g_max (graph_of w) n"
  using resumableOptionsOf_max [of "infoAt (activity w) n"] by (simp add: graph_of_def graph_of_activities_def)

lemma queue_executeLoop:
  assumes "queue_server k queue left e" and "ranked rk G" and "option_free G" and "finite N"
    and "\<And>n. g_signal G n \<noteq> '''' \<Longrightarrow> n \<in> N"
    and "graph_of (wf s) = G" and "usable_queues k D (queue (world s))"
    and "\<And>c. cur = Some c \<Longrightarrow> rk c < fuel \<and> stocked G N rk (queue (world s)) (left (world s)) c"
  shows "\<exists>d' s'. executeLoop fuel k D attr cur (Some d) s = Return (None, Some d') s'"
  using assms(6-)
proof (induction fuel arbitrary: cur d s)
  case 0
  then show ?case by (cases cur) auto
next
  case (Suc fuel)
  show ?case
  proof (cases cur)
    case (Some c)
    let ?ch = "g_signal G c" and ?l = "left (world s)"
    have stock: "stocked G N rk (queue (world s)) ?l c" and rank: "rk c < Suc fuel"
      using Suc.prems(3) [OF Some] by simp_all
    have enough: "if ?ch = '''' then ?l = 0 else ?l < length (queue (world s) ?ch) \<and>
        int ?l \<le> MaxCorrectionAttempts (resumableOptionsOf (deref s c))"
    proof (cases "?ch = ''''")
      case False
      from stock False have "gates_below G N rk (rk c) ?ch + ?l \<le> length (queue (world s) ?ch)"
        unfolding stocked_def by presburger
      with gates_below_self [OF assms(4) assms(5) [OF False], of G rk] stock False show ?thesis
        by (simp add: stocked_def graph_fields Suc.prems(1))
    qed (use stock in \<open>simp add: stocked_def\<close>)
    have "\<exists>d' s'. runActivity k D c (Some d) s = Return (None, Some d') s' \<and> left (world s') = 0 \<and>
      queue (world s') = (if ?ch = '''' then queue (world s) else (queue (world s))(?ch := drop (Suc ?l) (queue (world s) ?ch)))"
      by (rule queue_runActivity [OF assms(1) _ _ _ Suc.prems(2) enough])
        (use assms(3) in \<open>simp_all add: graph_fields Suc.prems(1) option_free_def\<close>)
    then obtain d1 s1 where run: "runActivity k D c (Some d) s = Return (None, Some d1) s1" "left (world s1) = 0"
      "queue (world s1) = (if ?ch = '''' then queue (world s) else (queue (world s))(?ch := drop (Suc ?l) (queue (world s) ?ch)))"
      by blast
    have G: "graph_of (wf s1) = G"
      using post_Return [OF graph_frame.runActivity_R run(1)] Suc.prems(1) by (simp add: same_graph_def)
    have usable: "usable_queues k D (queue (world s1))"
      using Suc.prems(2) usable_queues_drop [OF Suc.prems(2), of ?ch "Suc ?l"] by (simp add: run(3))
    let ?next = "getNextActivity (activity (wf s1)) (deref s1 c) (GetActivity D d1)"
    show ?thesis
    proof (cases "NextActivities (deref s1 c) = None \<or> GetActivity D d1 = ''''")
      case True
      then show ?thesis using Some run(1) by auto
    next
      case False
      have step: "executeLoop (Suc fuel) k D attr cur (Some d) s = executeLoop fuel k D attr ?next (Some d1) s1"
        using False Some run(1) by auto
      have "rk c' < fuel \<and> stocked G N rk (queue (world s1)) (left (world s1)) c'" if "?next = Some c'" for c'
      proof -
        have "c' \<in> set (g_next G c)"
          using getNextActivity_Some [OF that] at_phase_fields(2) [OF at_phase_start [OF G], of c] by auto
        then have lower: "rk c' < rk c" using assms(2) by (simp add: ranked_def)
        have "stocked G N rk (queue (world s1)) 0 c'"
          by (rule stocked_next [OF stock assms(4,5) lower _ run(3)]) (use g_max_nonneg G in metis)+
        with lower rank run(2) show ?thesis by simp
      qed
      with Suc.IH [OF G usable] step show ?thesis by simp
    qed
  qed simp
qed

lemma queue_Execute:
  assumes "queue_server k queue left e" and "ranked rk (graph_of (wf s))" and "option_free (graph_of (wf s))"
    and "finite N" and "\<And>n. g_signal (graph_of (wf s)) n \<noteq> '''' \<Longrightarrow> n \<in> N"
    and "usable_queues k D (queue (world s))" and "rk (firstActivity (wf s)) < fuel"
    and "stocked (graph_of (wf s)) N rk (queue (world s)) (left (world s)) (firstActivity (wf s))"
  shows "\<exists>d' s'. Execute order fuel k D (Some d) s = Return (None, Some d') s' \<and> Status (wf s') = StatusCompleted"
proof -
  let ?s1 = "s\<lparr>wf := (wf s)\<lparr>StartedAt := Some (time_Now k (world s))\<rparr>\<rparr>"
  let ?attr = "statusSearchAttribute order (activity (wf ?s1))"
  let ?cur = "lookupActivity (wf s) (firstActivity (wf s))"
  obtain s2 where s2: "setExecutionStatus k StatusPending ?attr ?s1 = (None, s2)"
    "queue (world s2) = queue (world s)" "left (world s2) = left (world s)" "wf s2 = (wf ?s1)\<lparr>Status := StatusPending\<rparr>"
    by (rule queue_status [OF assms(1), of StatusPending ?attr ?s1]) simp
  obtain w' where w': "SetQueryHandler k QueryGetStatus (world s2) = (None, w')"
    "queue w' = queue (world s2)" "left w' = left (world s2)"
    using assms(1) unfolding queue_server_def by blast
  let ?s3 = "emit (EvQuery QueryGetStatus) (s2\<lparr>world := w'\<rparr>)"
  have s3: "registerStatusQuery k s2 = (None, ?s3)" by (simp add: registerStatusQuery_def w')
  have G: "graph_of (wf ?s3) = graph_of (wf s)" by (simp add: s2(4) graph_of_def)
  have "\<exists>d' s'. executeLoop fuel k D ?attr ?cur (Some d) ?s3 = Return (None, Some d') s'"
    by (rule queue_executeLoop [OF assms(1-5) G])
      (use assms(6-8) in \<open>auto simp: s2(2,3) w' lookupActivity_def split: option.splits\<close>)
  then obtain d' s' where "executeLoop fuel k D ?attr ?cur (Some d) ?s3 = Return (None, Some d') s'" by blast
  then have ex: "Execute order fuel k D (Some d) s = Return (None, Some d') (finalStatus k ?attr StatusCompleted
      (s'\<lparr>wf := (wf s')\<lparr>CompletedAt := Some (time_Now k (world s'))\<rparr>\<rparr>))"
    unfolding Execute_def Let_def s2(1) prod.case option.case s3 by simp
  with post_Return [OF Execute_run ex] show ?thesis by (auto simp: ran_to_def)
qed


section \<open>Signals into queues\<close>

definition queue_adds ::
    "('w \<Rightarrow> string \<Rightarrow> 'v list) \<Rightarrow> ('w \<Rightarrow> nat) \<Rightarrow> string \<Rightarrow> 'v \<Rightarrow> 'w \<Rightarrow> 'w \<Rightarrow> bool" where
  "queue_adds queue left n v w w' \<longleftrightarrow> queue w' = (queue w)(n := queue w n @ [v]) \<and> left w' = left w"

definition values_for :: "string \<Rightarrow> (string \<times> 'v) list \<Rightarrow> 'v list" where
  "values_for ch ms = map snd (filter (\<lambda>m. fst m = ch) ms)"

context signal_source
begin

lemma all_queued:
  assumes "delivers K Q" and "\<And>n v w w'. Q n v w w' \<Longrightarrow> queue_adds queue left n v w w'"
  shows "send_all (send K) ms w = (None, w') \<Longrightarrow>
    queue w' = (\<lambda>ch. queue w ch @ values_for ch ms) \<and> left w' = left w"
proof (induction ms arbitrary: w)
  case (Cons m ms)
  obtain n v where m: "m = (n, v)" by (cases m)
  with Cons.prems obtain w1 where w1: "send K n v w = (None, w1)" "send_all (send K) ms w1 = (None, w')"
    by (auto split: prod.splits option.splits)
  with Cons.IH assms(2) [OF send_delivers [OF assms(1)]] m show ?case
    by (fastforce simp: queue_adds_def values_for_def)
qed (simp add: values_for_def)

end


section \<open>A registered workflow and its signals\<close>

text \<open>
  The signal the first activity waits for; and the client's part: one signal for each
  registration with that signal, and for the first activity one more for each failing run,
  of which its budget allows five.
\<close>

definition start_signal :: "'f registration list \<Rightarrow> string" where
  "start_signal rs = (case rs of [] \<Rightarrow> '''' | r # _ \<Rightarrow>
     (case last_registration rs (reg_name r) of None \<Rightarrow> '''' | Some q \<Rightarrow> reg_signal q))"

definition enough_signals :: "'f registration list \<Rightarrow> nat \<Rightarrow> (string \<times> 'v) list \<Rightarrow> bool" where
  "enough_signals rs l ms \<longleftrightarrow>
     (\<forall>ch \<in> set (map reg_signal rs) - {''''}.
        length (filter (\<lambda>r. reg_signal r = ch) rs) + (if start_signal rs = ch then l else 0)
          \<le> length (values_for ch ms)) \<and>
     (if start_signal rs = '''' then l = 0 else l \<le> 5)"

lemma registered_signal:
  "g_signal (graph_of (register_all register rs (NewWorkflowExecution client))) n =
    (case last_registration rs n of None \<Rightarrow> '''' | Some r \<Rightarrow> reg_signal r)"
  by (simp add: graph_of_def graph_of_activities_def registered_info info_of_registration_def registeredInfo_def
      placeholderInfo_def split: option.splits)

lemma registered_start:
  fixes register :: "string \<Rightarrow> 'f option \<Rightarrow> 'c \<Rightarrow> 'c" and rs :: "'f registration list" and client :: 'c
  defines "w \<equiv> register_all register rs (NewWorkflowExecution client) :: ('p, 'f, 'c) WorkflowExecutionData"
  shows "g_signal (graph_of w) (firstActivity w) = start_signal rs"
    and "start_signal rs \<noteq> '''' \<Longrightarrow> g_max (graph_of w) (firstActivity w) = 5"
proof -
  have first: "firstActivity w = (case rs of [] \<Rightarrow> '''' | r # _ \<Rightarrow> reg_name r)"
    using register_all_first [of "NewWorkflowExecution client :: ('p, 'f, 'c) WorkflowExecutionData" register rs]
    by (cases rs) (simp_all add: w_def)
  show start: "g_signal (graph_of w) (firstActivity w) = start_signal rs"
    by (simp add: first) (simp add: w_def registered_signal start_signal_def split: list.splits)
  assume "start_signal rs \<noteq> ''''"
  then show "g_max (graph_of w) (firstActivity w) = 5"
    using start
    by (auto simp: w_def graph_of_def graph_of_activities_def registered_info info_of_registration_def registeredInfo_def
        resumableOptionsOf_def zeroResumableOptions_def placeholderInfo_def Let_def split: option.splits if_splits)
qed

lemma registered_stocked:
  fixes register :: "string \<Rightarrow> 'f option \<Rightarrow> 'c \<Rightarrow> 'c" and rs :: "'f registration list" and client :: 'c
  defines "w \<equiv> register_all register rs (NewWorkflowExecution client) :: ('p, 'f, 'c) WorkflowExecutionData"
  assumes "enough_signals rs l ms"
  shows "stocked (graph_of w) (reg_name ` set rs) rk (\<lambda>ch. q ch @ values_for ch ms) l (firstActivity w)"
proof -
  have gates: "gates_below (graph_of w) (reg_name ` set rs) rk r ch \<le> length (filter (\<lambda>r. reg_signal r = ch) rs)"
    if "ch \<noteq> ''''" for r ch
  proof -
    have "n \<in> reg_name ` set (filter (\<lambda>r. reg_signal r = ch) rs)" if "g_signal (graph_of w) n = ch" for n
      using that \<open>ch \<noteq> ''''\<close> last_registration_Some [of rs n]
      by (cases "last_registration rs n") (auto simp: w_def registered_signal)
    then have "{n \<in> reg_name ` set rs. g_signal (graph_of w) n = ch \<and> rk n \<le> r} \<subseteq>
        reg_name ` set (filter (\<lambda>r. reg_signal r = ch) rs)" by blast
    then have "gates_below (graph_of w) (reg_name ` set rs) rk r ch \<le> card (reg_name ` set (filter (\<lambda>r. reg_signal r = ch) rs))"
      unfolding gates_below_def by (rule card_mono [rotated]) simp
    also have "\<dots> \<le> length (filter (\<lambda>r. reg_signal r = ch) rs)"
      using card_image_le [of "set (filter (\<lambda>r. reg_signal r = ch) rs)" reg_name] card_length by (metis List.finite_set order_trans)
    finally show ?thesis .
  qed
  have "length (filter (\<lambda>r. reg_signal r = ch) rs) + (if start_signal rs = ch then l else 0) \<le> length (values_for ch ms)"
    if ch: "ch \<noteq> ''''" for ch
  proof (cases "ch \<in> set (map reg_signal rs)")
    case True
    with assms(2) ch show ?thesis by (auto simp: enough_signals_def)
  next
    case False
    then have "start_signal rs \<noteq> ch"
      using ch by (auto simp: start_signal_def split: list.splits option.splits dest!: last_registration_Some)
    moreover have "filter (\<lambda>r. reg_signal r = ch) rs = []" using False by (auto simp: filter_empty_conv)
    ultimately show ?thesis by simp
  qed
  with gates have "gates_below (graph_of w) (reg_name ` set rs) rk r ch + (if start_signal rs = ch then l else 0) \<le>
      length (q ch @ values_for ch ms)" if "ch \<noteq> ''''" for r ch
    using that by (smt (verit) add_le_mono1 le_add2 length_append order_trans)
  moreover note start = registered_start [where register = register and rs = rs and client = client and 'p = 'p, folded w_def]
  moreover have "if start_signal rs = '''' then l = 0 else int l \<le> g_max (graph_of w) (firstActivity w)"
    using assms(2) start(2) by (auto simp: enough_signals_def)
  ultimately show ?thesis unfolding stocked_def start(1) by blast
qed


section \<open>From the client's signals to the client's result\<close>

text \<open>The workflow function: \<open>ExecuteWorkflow\<close> on a registered workflow, run on what the server has recorded.\<close>

definition workflow_run ::
    "('d, 'fn, 'v, 'o, 'w) workflow_sdk \<Rightarrow> 'd ExecutionDataOps
       \<Rightarrow> (string \<Rightarrow> 'fn option \<Rightarrow> ('fn option, 'v, 'run, 'h, 'ctx, 'info, 'w) Temporal
            \<Rightarrow> ('fn option, 'v, 'run, 'h, 'ctx, 'info, 'w) Temporal)
       \<Rightarrow> 'fn registration list \<Rightarrow> ('fn option, 'v, 'run, 'h, 'ctx, 'info, 'w) Temporal \<Rightarrow> 'd \<Rightarrow> 'w
       \<Rightarrow> ((go_error + 'd option) \<times> 'd option,
            ('p, 'fn, ('fn option, 'v, 'run, 'h, 'ctx, 'info, 'w) Temporal, 'w) wstate) outcome" where
  "workflow_run W D register rs client d w =
    ExecuteWorkflow (Some (workflowExecutionData_WorkflowExecution W D)) (Some d)
      (registered_workflow register rs client w)"

lemma workflow_run_Execute:
  "workflow_run W D register rs client d w =
    and_then (Execute (map_order W) (turns W) (pipeline W) D (Some d) (registered_workflow register rs client w))
      (\<lambda>(e, d1) s1. Return (case e of Some err \<Rightarrow> Inl err | None \<Rightarrow> Inr d1, d1) s1)"
  unfolding workflow_run_def ExecuteWorkflow_def workflowExecutionData_WorkflowExecution_def
  by (auto intro!: and_then_cong split: option.splits)

lemma workflow_run_any_order:
  "workflow_run (W\<lparr>map_order := order\<rparr>) D register rs client d w = workflow_run W D register rs client d w"
  unfolding workflow_run_Execute by (simp add: registered_any_order [of order _ _ _ _ _ _ _ _ "map_order W"])

lemma workflow_run_state:
  "final_state (workflow_run W D register rs client d w) =
    final_state (Execute (map_order W) (turns W) (pipeline W) D (Some d) (registered_workflow register rs client w))"
proof -
  have "final_state (and_then m (\<lambda>(e, d1) s1. Return (f e d1) s1)) = final_state m" for m :: "('x \<times> 'y, 's) outcome"
      and f :: "'x \<Rightarrow> 'y \<Rightarrow> 'z"
    by (cases m) auto
  then show ?thesis unfolding workflow_run_Execute .
qed

text \<open>
  Documented behaviour of the server for the clients of a workflow: a status query is
  answered by the handler of the workflow as its record has it, and the result of a
  workflow that has returned is what its function returned.
\<close>

definition run_server ::
    "('fn, 'v, 'run, 'h, 'enc, 'cl, 'wk, 'w) sdk_client \<Rightarrow> 'cl \<Rightarrow> string \<Rightarrow> string \<Rightarrow> ('d option \<Rightarrow> 'v)
       \<Rightarrow> ('v \<Rightarrow> string option) \<Rightarrow> ('w \<Rightarrow> ((go_error + 'd option) \<times> 'd option, ('p, 'f, 'c, 'w) wstate) outcome) \<Rightarrow> bool" where
  "run_server K cl wid rid encode as_string run \<longleftrightarrow> (\<forall>w.
     (\<exists>resp v. fst (cl_QueryWorkflow K cl wid rid QueryGetStatus [] w) = Inr resp \<and> enc_Get K resp = Inr (Some v) \<and>
        as_string v = Some (fst (statusQueryHandler (final_state (run w))))) \<and>
     (\<forall>r d s. run w = Return (Inr r, d) s \<longrightarrow> fst (run_Get K (cl_GetWorkflow K cl wid rid) w) = Inr (encode r)))"

lemma run_server_status:
  assumes "run_server K (tc_client t) wid rid encode as_string run"
    and "WorkflowExecutionData.temporalClient wfd = temporalClient_Temporal K gi t"
  shows "fst (GetWorkflowStatus as_string type_name wfd wid rid w) = Inr (Status (wf (final_state (run w))))"
proof -
  obtain resp v where "fst (cl_QueryWorkflow K (tc_client t) wid rid QueryGetStatus [] w) = Inr resp"
    "enc_Get K resp = Inr (Some v)" "as_string v = Some (Status (wf (final_state (run w))))"
    using assms(1) unfolding run_server_def statusQueryHandler_def by fastforce
  with assms(2) show ?thesis
    by (cases "cl_QueryWorkflow K (tc_client t) wid rid QueryGetStatus [] w")
      (simp add: GetWorkflowStatus_def temporalClient_Temporal_def QueryWorkflow_def)
qed

lemma run_server_result:
  assumes "run_server K (tc_client t) wid rid encode as_string run"
    and "WorkflowExecutionData.temporalClient wfd = temporalClient_Temporal K gi t" and "run w = Return (Inr r, d) s"
  shows "fst (wf_GetWorkflowResult wfd wid rid w) = Inr (encode r)"
  using assms
  by (auto simp: run_server_def wf_GetWorkflowResult_def temporalClient_Temporal_def GetWorkflowResult_def)

text \<open>
  C21: From signals to result. The activities of a workflow on a graph without cycles succeed,
  but for at most five failing runs, which the gated first activity then meets. Once the
  client has sent one signal that can be applied for each gated activity, and one more of
  the first one's for each failing run, the workflow returns, having gone on from what it
  had done before, whatever times it reads from Go's clock; the client that was told the status it had then, is told COMPLETED and
  gets the data the workflow returned.
\<close>

theorem signals_complete_workflow:
  fixes register :: "string \<Rightarrow> 'fn option \<Rightarrow> ('fn option, 'v, 'run, 'h, 'ctx, 'info, 'w) Temporal
      \<Rightarrow> ('fn option, 'v, 'run, 'h, 'ctx, 'info, 'w) Temporal"
    and rs :: "'fn registration list" and client :: "('fn option, 'v, 'run, 'h, 'ctx, 'info, 'w) Temporal"
    and W :: "('d, 'fn, 'v, 'o, 'w) workflow_sdk" and D :: "'d ExecutionDataOps" and d :: 'd
  defines "run \<equiv> workflow_run W D register rs client d
      :: 'w \<Rightarrow> (_, ('p, 'fn, ('fn option, 'v, 'run, 'h, 'ctx, 'info, 'w) Temporal, 'w) wstate) outcome"
    and "G \<equiv> graph_of (register_all register rs (NewWorkflowExecution client)
      :: ('p, 'fn, ('fn option, 'v, 'run, 'h, 'ctx, 'info, 'w) Temporal) WorkflowExecutionData)"
  assumes server: "queue_server (pipeline W) queue left e" "\<And>n v. replays_with (pipeline W) n v (Q n v)"
      "\<And>n v w w'. Q n v w w' \<Longrightarrow> queue_adds queue left n v w w'"
      "server_delivers (cl_SignalWorkflow K (tc_client t)) wid rid Q"
      "run_server K (tc_client t) wid rid encode as_string run"
    and graph: "ranked rk G" "rk (g_first G) < turns W"
    and applicable: "usable_queues (pipeline W) D (queue w0)" "\<forall>m \<in> set ms. usable (pipeline W) D (Value (snd m))"
    and enough: "enough_signals rs (left w0) ms"
    and sent: "send_all (SignalWorkflow K t wid rid) ms w0 = (None, w1)"
    and wfd: "WorkflowExecutionData.temporalClient wfd = temporalClient_Temporal K gi t"
  shows "fst (GetWorkflowStatus as_string type_name wfd wid rid w0) = Inr (Status (wf (final_state (run w0)))) \<and>
    (\<exists>r s. run w1 = Return (Inr r, r) s \<and> prefix (history (final_state (run w0))) (history s) \<and>
      fst (GetWorkflowStatus as_string type_name wfd wid rid w1) = Inr StatusCompleted \<and>
      fst (wf_GetWorkflowResult wfd wid rid w1) = Inr (encode r))"
proof -
  let ?s = "\<lambda>w. registered_workflow register rs client w
    :: ('p, 'fn, ('fn option, 'v, 'run, 'h, 'ctx, 'info, 'w) Temporal, 'w) wstate"
  have G: "graph_of (wf (?s w)) = G" for w by (simp add: G_def registered_workflow_def)
  note queued = client_signals.all_queued [where K = "(K, t, wid, rid)", unfolded prod.case, OF server(4,3) sent]
  have usable: "usable_queues (pipeline W) D (queue w1)"
    using queued applicable by (auto simp: usable_queues_def values_for_def)
  have nodes: "n \<in> reg_name ` set rs" if "g_signal G n \<noteq> ''''" for n
    using that last_registration_None [of rs n] by (auto simp: G_def registered_signal split: option.splits)
  have first: "firstActivity (wf (?s w1)) = g_first G"
    by (simp add: G_def registered_workflow_def graph_of_def graph_of_activities_def)
  have stock: "stocked G (reg_name ` set rs) rk (queue w1) (left w1) (g_first G)"
    using registered_stocked [OF enough, where register = register and client = client and rk = rk and q = "queue w0" and 'p = 'p] queued
    by (simp add: G_def graph_of_def graph_of_activities_def)
  have "\<exists>d' s'. Execute (map_order W) (turns W) (pipeline W) D (Some d) (?s w1) = Return (None, Some d') s' \<and>
      Status (wf s') = StatusCompleted"
    by (rule queue_Execute [OF server(1), where N = "reg_name ` set rs" and rk = rk])
      (use graph usable nodes stock in \<open>simp_all add: G first option_free_registered,
        simp_all add: G_def option_free_registered registered_workflow_def\<close>)
  then obtain d' s' where ex: "Execute (map_order W) (turns W) (pipeline W) D (Some d) (?s w1) = Return (None, Some d') s'"
    "Status (wf s') = StatusCompleted" by blast
  then have run: "run w1 = Return (Inr (Some d'), Some d') s'"
    unfolding run_def workflow_run_Execute by simp
  have "send_all (SignalWorkflow K t wid rid) ms (world (?s w0)) = (None, w1)"
    using sent by (simp add: registered_workflow_def)
  from client_signals.many_signals [where K = "(K, t, wid, rid)", unfolded prod.case, OF server(4,2) untimed_registered this,
      of "map_order W" "turns W" D "Some d"]
  have "prefix (history (final_state (run w0))) (history (final_state (run w1)))"
    unfolding run_def workflow_run_state registered_world_upd by blast
  with run ex(2) run_server_status [OF server(5) wfd, of type_name] run_server_result [OF server(5) wfd run]
  show ?thesis by auto
qed


text \<open>
  Two gated activities that wait for the same signal, the first of which fails once: three
  signals, of which the last corrected data name the second activity, complete the workflow.
  The server has the queues, the number of failing runs left, and a clock that every call
  moves on.
\<close>

type_synonym mailbox = "(string \<Rightarrow> string list) \<times> nat \<times> int"

definition delivery_sdk :: "(string, unit, string, unit, mailbox) workflow_sdk" where
  "delivery_sdk = \<lparr>pipeline = \<lparr>time_Now = (\<lambda>w. snd (snd w)), SetQueryHandler = (\<lambda>q w. (None, w)),
       UpsertSearchAttributes = (\<lambda>a st w. (None, w)),
       ExecuteActivity = (\<lambda>opts f d w. FutureGet (if fst (snd w) = 0 then None else Some (External ''no account'')) (\<lambda>x. x)
         (fst w, fst (snd w) - 1, snd (snd w) + 1)),
       Await = (\<lambda>ch w. case fst w ch of [] \<Rightarrow> AwaitNever
         | v # vs \<Rightarrow> AwaitReceived (Value v) ((fst w)(ch := vs), fst (snd w), snd (snd w) + 1)),
       AwaitWithTimeout = (\<lambda>ch t w. TimedOut w), decode_bool = (\<lambda>q. False), json_Marshal = (\<lambda>v. Inr v)\<rparr>,
     signal_ops = \<lparr>Receive = (\<lambda>n w. None), Select = (\<lambda>ns w. None), AwaitSignal = (\<lambda>n t w. (Inr None, w)),
       SignalExternal = (\<lambda>wid rid n v w. (None, w)), ExecuteChild = (\<lambda>wid n w. (Inr (wid, ''''), w)),
       ChildResult = (\<lambda>wid rid w. (Inr '''', w))\<rparr>,
     workflow_SetQueryHandler = (\<lambda>n fn w. (None, w)), workflow_SetUpdateHandler = (\<lambda>n fn opt w. (None, w)),
     workflow_Go = (\<lambda>fn w. w), map_order = [], turns = 2, string_of_value = Some, type_text = (\<lambda>_. ''string'')\<rparr>"

type_synonym delivery_temporal = "(unit option, string, unit, unit, unit, unit, mailbox) Temporal"

definition delivery_run ::
    "delivery_temporal \<Rightarrow> mailbox \<Rightarrow> ((go_error + string option) \<times> string option, (unit, unit, delivery_temporal, mailbox) wstate) outcome" where
  "delivery_run c = workflow_run delivery_sdk demo_data (\<lambda>_ _ c. c)
     [demo_step ''a'' ''go'' [''b''], demo_step ''b'' ''go'' []] c ''''"

definition delivery_client :: "delivery_temporal \<Rightarrow> (unit, string, unit, unit, string, unit, unit, mailbox) sdk_client" where
  "delivery_client c = \<lparr>NewClient = (\<lambda>opts w. (Inr (), w)), worker_New = (\<lambda>c q wo. ()),
     cl_ExecuteWorkflow = (\<lambda>c opts f vs w. (Inr (), w)),
     cl_SignalWorkflow = (\<lambda>_ wid rid n v w. (None, ((fst w)(n := fst w n @ [v]), fst (snd w), snd (snd w) + 60))),
     cl_QueryWorkflow = (\<lambda>_ wid rid q vs w. (Inr (fst (statusQueryHandler (final_state (delivery_run c w)))), w)),
     enc_Get = (\<lambda>x. Inr (Some x)),
     cl_CancelWorkflow = (\<lambda>c wid rid w. (None, w)), cl_GetWorkflow = (\<lambda>c wid rid. ()),
     run_Get = (\<lambda>_ w. case delivery_run c w of Return (Inr (Some d), _) s \<Rightarrow> (Inr d, w) | _ \<Rightarrow> (Inr '''', w)),
     cl_UpdateWorkflow = (\<lambda>c opts w. (Inr (), w)),
     wk_RegisterWorkflow = (\<lambda>k f n w. (Returns (), w)), wk_RegisterActivity = (\<lambda>k f n w. (Returns (), w)),
     wk_Start = (\<lambda>k w. (None, w)), wk_Stop = (\<lambda>k w. w)\<rparr>"

definition mailbox_adds :: "string \<Rightarrow> string \<Rightarrow> mailbox \<Rightarrow> mailbox \<Rightarrow> bool" where
  "mailbox_adds n v w w' \<longleftrightarrow> fst w' = (fst w)(n := fst w n @ [v]) \<and> fst (snd w') = fst (snd w)"

lemma delivery_replays: "replays_with (pipeline delivery_sdk) n v (mailbox_adds n v)"
  by (auto simp: replays_with_def delivery_sdk_def mailbox_adds_def fun_upd_twist split: list.splits)

lemma delivery_queues: "queue_server (pipeline delivery_sdk) fst (\<lambda>w. fst (snd w)) (External ''no account'')"
  by (auto simp: queue_server_def delivery_sdk_def split: list.splits)

abbreviation delivery_tc :: "(unit, unit) temporalClient" where
  "delivery_tc \<equiv> \<lparr>tc_worker = Some (), tc_client = (), tc_taskQueue = ''default''\<rparr>"

theorem signals_complete_workflow_witness:
  "\<forall>c. \<exists>r s. delivery_run c ((\<lambda>_. [])(''go'' := [''x'', ''b'', '''']), 1, 180) = Return (Inr r, r) s \<and>
    fst (GetWorkflowStatus Some (\<lambda>_. ''string'')
      (NewWorkflowExecution (temporalClient_Temporal (delivery_client c) (\<lambda>x :: unit. ()) delivery_tc)
        :: (unit, unit, unit, string, unit, unit, unit, unit, mailbox) workflow_execution) ''order-1'' ''''
      ((\<lambda>_. [])(''go'' := [''x'', ''b'', '''']), 1, 180)) = Inr StatusCompleted"
proof
  fix c
  let ?rs = "[demo_step ''a'' ''go'' [''b''], demo_step ''b'' ''go'' []]"
  let ?rk = "\<lambda>n. if n = ''a'' then 1 else 0 :: nat"
  let ?G = "graph_of (register_all (\<lambda>_ _ c. c) ?rs (NewWorkflowExecution c)
    :: (unit, unit, delivery_temporal) WorkflowExecutionData)"
  let ?wfd = "NewWorkflowExecution (temporalClient_Temporal (delivery_client c) (\<lambda>x :: unit. ()) delivery_tc)
    :: (unit, unit, unit, string, unit, unit, unit, unit, mailbox) workflow_execution"
  let ?ms = "[(''go'', ''x''), (''go'', ''b''), (''go'', '''')]"
  let ?w1 = "((\<lambda>_. [])(''go'' := [''x'', ''b'', '''']), 1, 180) :: mailbox"
  have rk: "ranked ?rk ?G"
    by (auto simp: ranked_def graph_of_def graph_of_activities_def registered_info demo_step_def
        info_of_registration_def registeredInfo_def placeholderInfo_def split: if_splits)
  have first: "?rk (g_first ?G) < turns delivery_sdk" by (simp add: delivery_sdk_def)
  have delivers: "server_delivers (cl_SignalWorkflow (delivery_client c) (tc_client delivery_tc)) ''order-1'' '''' mailbox_adds"
    by (simp add: server_delivers_def delivery_client_def mailbox_adds_def)
  have server: "run_server (delivery_client c) (tc_client delivery_tc) ''order-1'' ''''
      (\<lambda>d. case d of None \<Rightarrow> '''' | Some d \<Rightarrow> d) Some
      (delivery_run c)"
    by (auto simp: run_server_def delivery_client_def split: option.splits)
  have sent: "send_all (SignalWorkflow (delivery_client c) delivery_tc ''order-1'' '''') ?ms (\<lambda>_. [], 1, 0) = (None, ?w1)"
    by (simp add: SignalWorkflow_def delivery_client_def fun_eq_iff)
  have adds: "queue_adds fst (\<lambda>w. fst (snd w)) n v w w'" if "mailbox_adds n v w w'" for n v and w w' :: mailbox
    using that by (simp add: queue_adds_def mailbox_adds_def)
  have wfd: "WorkflowExecutionData.temporalClient ?wfd = temporalClient_Temporal (delivery_client c) (\<lambda>x. ()) delivery_tc"
    by simp
  have usable: "usable_queues (pipeline delivery_sdk) demo_data (fst (\<lambda>_. [], 1 :: nat, 0 :: int))"
    "\<forall>m \<in> set ?ms. usable (pipeline delivery_sdk) demo_data (Value (snd m))"
    by (auto simp: usable_queues_def usable_def encodeCorrection_def delivery_sdk_def demo_data_def)
  have enough: "enough_signals ?rs (fst (snd (\<lambda>_ :: string. [] :: string list, 1, 0 :: int))) ?ms"
    by (simp add: enough_signals_def start_signal_def values_for_def demo_step_def)
  from signals_complete_workflow [where Q = mailbox_adds, OF delivery_queues delivery_replays adds delivers
      server [unfolded delivery_run_def] rk first usable enough sent wfd, of "\<lambda>_. ''string''"]
  show "\<exists>r s. delivery_run c ?w1 = Return (Inr r, r) s \<and> fst (GetWorkflowStatus Some (\<lambda>_. ''string'') ?wfd ''order-1'' '''' ?w1) = Inr StatusCompleted"
    unfolding delivery_run_def by blast
qed

end
