(* ===== verification/Go_Float.thy ===== *)
theory Go_Float
  imports Go_Prelude
begin

text \<open>
  The part of \<open>float64\<close> arithmetic the code reaches: non-negative finite values as a
  mantissa and a binary exponent, rounded to 53 bits, to nearest with ties to even.
  The values that occur are far from overflow and from the subnormal range.
\<close>

section \<open>Values and rounding\<close>

type_synonym float64 = "nat \<times> int"

fun bit_length :: "nat \<Rightarrow> nat" where
  "bit_length n = (if n = 0 then 0 else Suc (bit_length (n div 2)))"

declare bit_length.simps [simp del]

definition round_half_even :: "nat \<Rightarrow> nat \<Rightarrow> nat" where
  "round_half_even a b =
    (let q = a div b; r = a mod b in if b < 2 * r \<or> 2 * r = b \<and> odd q then q + 1 else q)"

text \<open>\<open>a / b\<close> scaled by the exponent \<open>e\<close>, as a fraction.\<close>

definition scaled :: "nat \<Rightarrow> nat \<Rightarrow> int \<Rightarrow> nat \<times> nat" where
  "scaled a b e = (if 0 \<le> e then (a, b * 2 ^ nat e) else (a * 2 ^ nat (- e), b))"

definition float_of_ratio :: "nat \<Rightarrow> nat \<Rightarrow> float64" where
  "float_of_ratio a b =
    (if a = 0 then (0, 0)
     else (let e0 = int (bit_length a) - int (bit_length b) - 53;
               (n, m) = scaled a b e0;
               e = (if 2 ^ 53 \<le> n div m then e0 + 1 else e0);
               (n', m') = scaled a b e
           in (round_half_even n' m', e)))"

definition float_of_nat :: "nat \<Rightarrow> float64" where
  "float_of_nat n = float_of_ratio n 1"

fun float_mult :: "float64 \<Rightarrow> float64 \<Rightarrow> float64" where
  "float_mult (m1, e1) (m2, e2) = (let (m, e) = float_of_ratio (m1 * m2) 1 in (m, e + e1 + e2))"

fun float_divide :: "float64 \<Rightarrow> float64 \<Rightarrow> float64" where
  "float_divide (m1, e1) (m2, e2) = (let (m, e) = float_of_ratio m1 m2 in (m, e + e1 - e2))"

text \<open>The conversion to an unsigned integer cuts the fraction off.\<close>

fun float_trunc :: "float64 \<Rightarrow> nat" where
  "float_trunc (m, e) = (if 0 \<le> e then m * 2 ^ nat e else m div 2 ^ nat (- e))"


section \<open>Rounding error and exact values\<close>

lemma round_half_even_near:
  assumes "0 < b"
  shows "2 * \<bar>int (round_half_even a b) * int b - int a\<bar> \<le> int b"
proof -
  let ?r = "a mod b"
  have a: "int a = int (a div b) * int b + int ?r"
    by (metis div_mult_mod_eq of_nat_add of_nat_mult)
  have "?r < b" using assms by simp
  then show ?thesis
    unfolding round_half_even_def Let_def by (auto simp: a algebra_simps)
qed

lemma round_half_even_1 [simp]: "round_half_even a (Suc 0) = a"
  by (simp add: round_half_even_def)

lemma bit_length_bounds: "0 < n \<Longrightarrow> 2 ^ (bit_length n - 1) \<le> n \<and> n < 2 ^ bit_length n \<and> 0 < bit_length n"
proof (induction n rule: bit_length.induct)
  case (1 n)
  show ?case
  proof (cases "n div 2 = 0")
    case True
    with "1.prems" have "n = 1" by simp
    then show ?thesis by (simp add: bit_length.simps)
  next
    case False
    then have "2 ^ (bit_length (n div 2) - 1) \<le> n div 2" "n div 2 < 2 ^ bit_length (n div 2)" "0 < bit_length (n div 2)"
      using 1 by simp_all
    moreover have "(2 :: nat) ^ bit_length (n div 2) = 2 * 2 ^ (bit_length (n div 2) - 1)"
      using calculation(3) by (metis power_minus_mult mult.commute)
    ultimately have "2 ^ bit_length (n div 2) \<le> n" "n < 2 * 2 ^ bit_length (n div 2)" by linarith+
    then show ?thesis using "1.prems" by (simp add: bit_length.simps [of n])
  qed
qed

lemma bit_length_le: "0 < n \<Longrightarrow> n < 2 ^ k \<Longrightarrow> bit_length n \<le> k"
proof (rule ccontr)
  assume n: "0 < n" "n < 2 ^ k" "\<not> bit_length n \<le> k"
  then have "(2 :: nat) ^ k \<le> 2 ^ (bit_length n - 1)" by (intro power_increasing) simp_all
  with bit_length_bounds [OF n(1)] n(2) show False by linarith
qed

lemma bit_length_1 [simp]: "bit_length (Suc 0) = Suc 0"
  by (simp add: bit_length.simps)

text \<open>Integers of at most 53 bits are exact.\<close>

lemma float_of_nat_exact:
  assumes "n < 2 ^ 53"
  shows "float_of_nat n = (if n = 0 then (0, 0) else (n * 2 ^ (53 - bit_length n), int (bit_length n) - 53))"
proof (cases "n = 0")
  case False
  let ?k = "bit_length n"
  have k: "2 ^ (?k - 1) \<le> n" "0 < ?k" "?k \<le> 53"
    using bit_length_bounds [of n] bit_length_le [of n 53] False assms by auto
  have "(2 :: nat) ^ 53 = 2 ^ (?k - 1) * 2 ^ (54 - ?k)"
    using k(2,3) by (simp flip: power_add)
  also have "\<dots> \<le> n * 2 ^ (54 - ?k)" using k(1) by simp
  finally have big: "2 ^ 53 \<le> n * 2 ^ (54 - ?k)" .
  have e0: "nat (- (int ?k - 1 - 53)) = 54 - ?k" "nat (- (int ?k - 53)) = 53 - ?k" by simp_all
  have s0: "scaled n 1 (int ?k - 1 - 53) = (n * 2 ^ (54 - ?k), 1)"
    unfolding scaled_def e0 using k(3) by simp
  have s1: "scaled n 1 (int ?k - 53) = (n * 2 ^ (53 - ?k), 1)"
    unfolding scaled_def e0 using k(3) by auto
  show ?thesis
    using False big s0 s1 by (simp add: float_of_nat_def float_of_ratio_def Let_def)
qed (simp add: float_of_nat_def float_of_ratio_def)

lemma float_trunc_exact [simp]: "n < 2 ^ 53 \<Longrightarrow> float_trunc (float_of_nat n) = n"
  using bit_length_le [of n 53]
  by (cases "n = 0") (auto simp: float_of_nat_exact nat_diff_distrib')

end
