(* ===== verification/Go_Any.thy ===== *)
theory Go_Any
  imports Go_Json_Roundtrip Go_Float "HOL-Library.AList"
begin

text \<open>
  What \<open>json.Unmarshal\<close> makes of a document when the destination is an empty interface:
  every number a \<open>float64\<close>, every object a map, whatever type was written. A number
  beyond the range of \<open>float64\<close> is an error.
\<close>

section \<open>Number literals as floats\<close>

text \<open>A literal's sign and its value as a fraction.\<close>

definition exponent_value :: "string \<Rightarrow> int" where
  "exponent_value ex = (case ex of
     [] \<Rightarrow> 0
   | _ # [] \<Rightarrow> 0
   | _ # c # r \<Rightarrow>
       if c = CHR ''-'' then - int (digits_value r 0)
       else if c = CHR ''+'' then int (digits_value r 0)
       else int (digits_value (c # r) 0))"

definition literal_ratio :: "string \<Rightarrow> bool \<times> nat \<times> nat" where
  "literal_ratio t =
    (let neg = (case t of c # _ \<Rightarrow> c = CHR ''-'' | [] \<Rightarrow> False);
         (ds, r) = int_digits (if neg then tl t else t);
         (fr, r1) = (case fraction_part r of Some p \<Rightarrow> p | None \<Rightarrow> ([], r));
         (ex, r2) = (case exponent_part r1 of Some p \<Rightarrow> p | None \<Rightarrow> ([], r1));
         m = digits_value (ds @ tl fr) 0;
         e = exponent_value ex - int (length (tl fr))
     in (neg, if 0 \<le> e then (m * 10 ^ nat e, 1) else (m, 10 ^ nat (- e))))"

text \<open>
  The nearest \<open>float64\<close>: \<^term>\<open>None\<close> from 2 to the 1024 on; below 2 to the -1022 the
  precision is that of the smallest exponent.
\<close>

definition nearest_float :: "nat \<Rightarrow> nat \<Rightarrow> float64 option" where
  "nearest_float a b =
    (let (m, e) = float_of_ratio a b;
         (m, e) = (if e < -1074 then (let (a', b') = scaled a b (-1074) in (round_half_even a' b', -1074)) else (m, e))
     in if int (bit_length m) + e > 1024 then None else Some (m, e))"


section \<open>Empty-interface values\<close>

datatype any =
    ANil
  | ABool bool
  | AFloat bool float64
  | AStr string
  | ASlice "any list"
  | AMap "(string \<times> any) list"

text \<open>A map is kept as a list without repeated keys; a repeated key of the text replaces its value.\<close>

fun any_of_json :: "json \<Rightarrow> any option" where
  "any_of_json JNull = Some ANil"
| "any_of_json (JBool b) = Some (ABool b)"
| "any_of_json (JNum n) = map_option (AFloat (n < 0)) (nearest_float (nat \<bar>n\<bar>) 1)"
| "any_of_json (JDec t) = (let (neg, a, b) = literal_ratio t in map_option (AFloat neg) (nearest_float a b))"
| "any_of_json (JStr s) = Some (AStr s)"
| "any_of_json (JArr js) = map_option ASlice (those (map any_of_json js))"
| "any_of_json (JObj kvs) =
    map_option (\<lambda>vs. AMap (foldl (\<lambda>m (k, v). AList.update k v m) [] (zip (map fst kvs) vs)))
      (those (map (\<lambda>(k, j). any_of_json j) kvs))"

definition range_error :: go_error where
  "range_error = External ''json: cannot unmarshal number into Go value of type float64''"

text \<open>\<open>json.Unmarshal(text, &value)\<close> with \<open>value\<close> an empty interface.\<close>

definition json_Unmarshal_any :: "string \<Rightarrow> go_error + any" where
  "json_Unmarshal_any text =
    (case json_parse text of
       Inl e \<Rightarrow> Inl e
     | Inr j \<Rightarrow> (case any_of_json j of None \<Rightarrow> Inl range_error | Some v \<Rightarrow> Inr v))"


section \<open>Integers read as floats\<close>

lemma nearest_float_nat:
  assumes "n < 2 ^ 53" shows "nearest_float n 1 = Some (float_of_nat n)"
proof (cases "n = 0")
  case True
  then show ?thesis by (simp add: nearest_float_def float_of_nat_def float_of_ratio_def bit_length.simps)
next
  case False
  let ?k = "bit_length n"
  have k: "0 < ?k" "?k \<le> 53" "n < 2 ^ ?k" using bit_length_bounds [of n] bit_length_le [of n 53] False assms by auto
  have "n * 2 ^ (53 - ?k) < 2 ^ ?k * 2 ^ (53 - ?k)" using k(3) by simp
  also have "(2 :: nat) ^ ?k * 2 ^ (53 - ?k) = 2 ^ 53" using k(2) by (simp flip: power_add)
  finally have "bit_length (n * 2 ^ (53 - ?k)) \<le> 53" using False by (intro bit_length_le) simp_all
  moreover have "float_of_ratio n 1 = (n * 2 ^ (53 - ?k), int ?k - 53)"
    using float_of_nat_exact [OF assms] False by (simp add: float_of_nat_def)
  ultimately show ?thesis using k by (simp add: nearest_float_def float_of_nat_def)
qed

lemma any_of_small_int:
  assumes "\<bar>n\<bar> < 2 ^ 53"
  shows "any_of_json (JNum n) = Some (AFloat (n < 0) (float_of_nat (nat \<bar>n\<bar>)))"
proof -
  have "nat \<bar>n\<bar> < 2 ^ 53" using assms by (simp add: nat_less_iff)
  from nearest_float_nat [OF this] show ?thesis by simp
qed

text \<open>The first integer that is not exact is read as its predecessor.\<close>

lemma any_of_large_int: "any_of_json (JNum 9007199254740993) = any_of_json (JNum 9007199254740992)"
  by (simp add: nearest_float_def float_of_ratio_def scaled_def round_half_even_def bit_length.simps Let_def)

end
