(* ===== verification/Temporal_Query.thy ===== *)
theory Temporal_Query
  imports Temporal_Data_Properties Go_Any "HOL-Library.List_Lexorder" "HOL-Library.Char_ord"
begin

text \<open>
  A query from end to end: the client's \<open>QueryWorkflowData\<close> (\<open>public.go\<close>) over
  \<open>QueryWorkflow\<close> (\<open>temporal.go\<close>), the server that runs the handler \<open>WorkflowInit\<close>
  registered, the JSON text in between, and the data that arrive in \<open>dest\<close>.
\<close>

section \<open>Writing an empty-interface value\<close>

text \<open>
  What \<open>json.Marshal\<close> writes for a value \<open>json.Unmarshal\<close> made: the keys of a map in the
  order of their bytes; the text of a float is \<open>float_text\<close>.
\<close>

fun any_json :: "(bool \<Rightarrow> float64 \<Rightarrow> string) \<Rightarrow> any \<Rightarrow> json" where
  "any_json float_text ANil = JNull"
| "any_json float_text (ABool b) = JBool b"
| "any_json float_text (AFloat neg x) = JDec (float_text neg x)"
| "any_json float_text (AStr s) = JStr s"
| "any_json float_text (ASlice vs) = JArr (map (any_json float_text) vs)"
| "any_json float_text (AMap kvs) = JObj (sort_key fst (map (\<lambda>(k, v). (k, any_json float_text v)) kvs))"

definition state_document :: "resumableState \<Rightarrow> json" where
  "state_document d = JObj [(''activity'', JStr (StateActivity d)), (''account'', JStr (Account d))]"

text \<open>
  The state that arrives through an empty interface is a map, which is written with its keys
  the other way round, a document of the same state.
\<close>

lemma state_through_any:
  "\<exists>v. json_Unmarshal_any (json_text (state_document d)) = Inr v \<and> v \<noteq> ANil \<and>
    any_json float_text v \<in> set (state_documents d)"
proof -
  let ?v = "AMap [(''activity'', AStr (StateActivity d)), (''account'', AStr (Account d))]"
  have "json_Unmarshal_any (json_text (state_document d)) = Inr ?v"
    by (simp add: json_Unmarshal_any_def json_parse_text state_document_def del: json_text.simps)
  moreover have "\<not> (''activity'' :: string) \<le> ''account''" "(''account'' :: string) \<le> ''activity''"
    by (simp_all add: list_less_def list_le_def lexord_cons_cons less_char_def)
  then have "any_json float_text ?v \<in> set (state_documents d)"
    by (simp add: state_documents_def)
  ultimately show ?thesis by blast
qed


section \<open>The polls of the query loop\<close>

text \<open>The world at the poll number \<open>n\<close>, when every one before it failed and the timer fired.\<close>

fun at_poll ::
    "'w query_ctx \<Rightarrow> ('fn, 'v, 'run, 'h, 'ctx, 'info, 'w) Temporal \<Rightarrow> string \<Rightarrow> string \<Rightarrow> string \<Rightarrow> nat \<Rightarrow> 'w \<Rightarrow> 'w" where
  "at_poll E T qt wid rid 0 w = w"
| "at_poll E T qt wid rid (Suc n) w =
    at_poll E T qt wid rid n (snd (tick E (snd (m_QueryWorkflow T wid rid qt [] w))))"

text \<open>A poll that is refused, or answered with nil, before the context is done.\<close>

definition poll_fails ::
    "'w query_ctx \<Rightarrow> ('fn, 'v, 'run, 'h, 'ctx, 'info, 'w) Temporal \<Rightarrow> string \<Rightarrow> string \<Rightarrow> string \<Rightarrow> 'w \<Rightarrow> bool" where
  "poll_fails E T qt wid rid w \<longleftrightarrow> ctx_Err E w = None \<and>
     (\<forall>v. fst (m_QueryWorkflow T wid rid qt [] w) \<noteq> Inr (Some v)) \<and>
     fst (tick E (snd (m_QueryWorkflow T wid rid qt [] w)))"

lemma queryLoop_polls:
  assumes "\<And>i. i < n \<Longrightarrow> poll_fails E T qt wid rid (at_poll E T qt wid rid i w)"
    and "n = 0 \<or> ctx_Deadline E"
  shows "queryLoop (n + m) E T D marshal type_name qt wid rid dest st w =
    queryLoop m E T D marshal type_name qt wid rid dest st (at_poll E T qt wid rid n w)"
  using assms
proof (induction n arbitrary: w)
  case (Suc n)
  obtain r w1 where q: "m_QueryWorkflow T wid rid qt [] w = (r, w1)" by fastforce
  have fails: "poll_fails E T qt wid rid w" using Suc.prems(1) [of 0] by simp
  then obtain w2 where t: "tick E w1 = (True, w2)" using q by (cases "tick E w1") (auto simp: poll_fails_def)
  have "queryLoop (n + m) E T D marshal type_name qt wid rid dest st w2 =
      queryLoop m E T D marshal type_name qt wid rid dest st (at_poll E T qt wid rid n w2)"
    by (rule Suc.IH) (use Suc.prems(1) [of "Suc _"] Suc.prems(2) q t in auto)
  then show ?case
    using fails q t Suc.prems(2) by (auto simp: poll_fails_def split: sum.splits option.splits)
qed simp

text \<open>The poll that has an answer decides the call.\<close>

lemma queryLoop_answer:
  assumes "ctx_Err E w = None" and "m_QueryWorkflow T wid rid qt [] w = (Inr (Some raw), w1)"
  shows "queryLoop (Suc 0) E T D marshal type_name qt wid rid dest st w =
    (let (r, st') = decodeExecutionData D marshal type_name raw dest st in Some (r, st', w1))"
  using assms by simp


section \<open>The server and the worker\<close>

text \<open>
  What the worker holds when a query arrives: the state of the workflow, the data its
  pointers refer to, and the \<open>ready\<close> function of \<open>WorkflowInit\<close>. The reply is what the
  registered handler gives, written as JSON.
\<close>

record ('s, 'p) worker =
  at_state :: 's
  memory :: "'p \<Rightarrow> resumableState"
  ready_check :: "('p option \<Rightarrow> err) option"

definition handler_reply ::
    "('s, 'w, 'd, 'p, 'fn, 'v, 'run, 'h, 'o) WorkflowExecution \<Rightarrow> ('s, 'p) worker \<Rightarrow> go_error + string" where
  "handler_reply I k =
    (case queryHandler (ready_check k) I (at_state k) of
       Inl e \<Rightarrow> Inl e
     | Inr None \<Rightarrow> Inr ''null''
     | Inr (Some p) \<Rightarrow> Inr (json_text (state_document (memory k p))))"

text \<open>
  The SDK's client: a query of the workflow brings the reply of the moment or fails if the
  handler did, and \<open>Get\<close> reads the JSON text into an empty interface, where \<open>null\<close> is nil.
\<close>

definition query_server ::
    "('fn, any raw, 'run, 'h, string, 'cl, 'wk, 'w) sdk_client \<Rightarrow> 'cl \<Rightarrow> string \<Rightarrow> string \<Rightarrow> string
       \<Rightarrow> ('w \<Rightarrow> go_error + string) \<Rightarrow> bool" where
  "query_server K cl qt wid rid reply \<longleftrightarrow>
     (\<forall>w. case reply w of
        Inl _ \<Rightarrow> \<exists>e. fst (cl_QueryWorkflow K cl wid rid qt [] w) = Inl e
      | Inr t \<Rightarrow> fst (cl_QueryWorkflow K cl wid rid qt [] w) = Inr t) \<and>
     (\<forall>t. enc_Get K t = (case json_Unmarshal_any t of
        Inl e \<Rightarrow> Inl e
      | Inr v \<Rightarrow> Inr (if v = ANil then None else Some (RawValue v))))"

lemma query_server_refuses:
  assumes "query_server K (tc_client t) qt wid rid reply" and "reply w = Inl e"
  shows "fst (m_QueryWorkflow (temporalClient_Temporal K gi t) wid rid qt [] w) \<noteq> Inr (Some v)"
proof -
  obtain e' where "fst (cl_QueryWorkflow K (tc_client t) wid rid qt [] w) = Inl e'"
    using assms by (auto simp: query_server_def split: sum.splits dest!: spec [of _ w])
  then show ?thesis
    by (cases "cl_QueryWorkflow K (tc_client t) wid rid qt [] w")
      (auto simp: temporalClient_Temporal_def QueryWorkflow_def)
qed

lemma query_server_answers:
  assumes "query_server K (tc_client t) qt wid rid reply" and "reply w = Inr text"
    and "json_Unmarshal_any text = Inr v" and "v \<noteq> ANil"
  shows "\<exists>w1. m_QueryWorkflow (temporalClient_Temporal K gi t) wid rid qt [] w = (Inr (Some (RawValue v)), w1)"
proof -
  have "fst (cl_QueryWorkflow K (tc_client t) wid rid qt [] w) = Inr text"
    using assms(1,2) by (auto simp: query_server_def split: sum.splits dest!: spec [of _ w])
  then show ?thesis
    using assms by (cases "cl_QueryWorkflow K (tc_client t) wid rid qt [] w")
      (auto simp: query_server_def temporalClient_Temporal_def QueryWorkflow_def)
qed


section \<open>From the workflow to the caller\<close>

text \<open>
  The states a workflow can be seen in after \<open>WorkflowInit\<close>: the one it left, and wherever
  \<open>ExecuteWorkflow\<close> is when it has returned, is parked, or has taken some number of turns.
\<close>

definition seen ::
    "(nat \<Rightarrow> ('s, 'w, 'd, 'p, 'fn, 'v, 'run, 'h, 'o) WorkflowExecution) \<Rightarrow> 'd option \<Rightarrow> 's \<Rightarrow> 's set" where
  "seen J d s1 = insert s1 (range (\<lambda>n. final_state (ExecuteWorkflow (Some (J n)) d s1)))"

text \<open>The workflow with its data the repository's, its loop bounded by a number of turns.\<close>

definition transfer_workflow ::
    "(resumableState, 'fn, 'v, 'o, 'w) workflow_sdk \<Rightarrow> nat
       \<Rightarrow> (('p, 'fn, ('fn option, 'v, 'run, 'h, 'ctx, 'info, 'w) Temporal, 'w) wstate,
            'w, resumableState, 'p, 'fn, 'v, 'run, 'h, 'o) WorkflowExecution" where
  "transfer_workflow W n = workflowExecutionData_WorkflowExecution (W\<lparr>turns := n\<rparr>) resumableState_ops"

lemma transfer_workflow_data: "we_GetExecutionData (transfer_workflow W n) s = GetExecutionData (wf s)"
  by (simp add: transfer_workflow_def workflowExecutionData_WorkflowExecution_def)

lemma seen_data:
  assumes "WorkflowInit (set_query_handler W) info_ID (Some (transfer_workflow W m)) qt (Some p) ready s = (Inr q, s1)"
    and "s' \<in> seen (transfer_workflow W) d s1"
  shows "we_GetExecutionData (transfer_workflow W m) s' = Some p"
proof -
  have init: "we_GetExecutionData (transfer_workflow W m) s1 = Some p"
    using workflow_data.init_sets [where K = "(W\<lparr>turns := m\<rparr>, resumableState_ops)", unfolded prod.case,
        OF set_query_handler_access assms(1) [unfolded transfer_workflow_def]]
    by (simp add: transfer_workflow_def)
  have acc: "same_access (transfer_workflow W n) s1 (final_state (ExecuteWorkflow (Some (transfer_workflow W n)) d s1))" for n
  proof (rule post_final_state [THEN iffD1])
    show "post (ExecuteWorkflow (Some (transfer_workflow W n)) d s1) (\<lambda>_. same_access (transfer_workflow W n) s1)
        (same_access (transfer_workflow W n) s1) (same_access (transfer_workflow W n) s1)"
      using workflow_data.execute_workflow [where K = "(W\<lparr>turns := n\<rparr>, resumableState_ops)", unfolded prod.case]
      unfolding transfer_workflow_def by (rule post_mono) auto
  qed
  have "we_GetExecutionData (transfer_workflow W m) (final_state (ExecuteWorkflow (Some (transfer_workflow W n)) d s1)) =
      Some p" for n
    using acc [of n] init by (simp add: same_access_def transfer_workflow_data)
  then show ?thesis using assms(2) init by (auto simp: seen_def)
qed

text \<open>
  C20: A workflow that has called \<open>WorkflowInit\<close> is queried while \<open>ExecuteWorkflow\<close> runs, waits
  or has returned. As long as \<open>ready\<close> refuses, a caller with a deadline polls once per
  second; at the first poll that \<open>ready\<close> lets through it gets \<open>dest\<close>, holding exactly the data
  the workflow has at that moment, and nothing else of the caller's changes.
\<close>

theorem query_reads_workflow_data:
  fixes gi :: "'ctx \<Rightarrow> 'info" and w :: "'w"
  assumes "WorkflowInit (set_query_handler W) info_ID (Some (transfer_workflow W m)) qt (Some p) ready s = (Inr q, s1)"
    and "\<And>w. at_state (k w) \<in> seen (transfer_workflow W) d s1"
    and "query_server K (tc_client t) qt wid rid (\<lambda>w. handler_reply (transfer_workflow W m) (k w))"
    and "wid \<noteq> ''''" and "n = 0 \<or> ctx_Deadline E"
  defines "T \<equiv> temporalClient_Temporal K gi t"
  defines "poll \<equiv> \<lambda>i. at_poll E T qt wid rid i w"
  assumes refuses: "\<And>i. i < n \<Longrightarrow> \<exists>check. ready_check (k (poll i)) = Some check \<and> check (Some p) \<noteq> None"
    and fires: "\<And>i. i < n \<Longrightarrow> fst (tick E (snd (m_QueryWorkflow T wid rid qt [] (poll i))))"
    and live: "\<And>i. i \<le> n \<Longrightarrow> ctx_Err E (poll i) = None"
    and accepts: "\<And>check. ready_check (k (poll n)) = Some check \<Longrightarrow> check (Some p) = None"
  shows "\<exists>w'. QueryWorkflowData (Suc n) (Some E) (Some T) resumableState_ops
      (\<lambda>v. Inr (json_text (any_json float_text v))) type_name qt wid rid (Some b) st w =
    Some ((Some b, None), st(b := memory (k (poll n)) p), w')"
proof -
  let ?I = "transfer_workflow W m"
  note data = seen_data [OF assms(1,2)]
  have qt: "qt \<noteq> ''''" using assms(1) by (auto simp: WorkflowInit_def)
  have fails: "poll_fails E T qt wid rid (poll i)" if i: "i < n" for i
  proof -
    obtain e where "handler_reply ?I (k (poll i)) = Inl e"
      using refuses [OF i] data by (auto simp: handler_reply_def queryHandler_def)
    from query_server_refuses [OF assms(3) this] fires live i show ?thesis
      unfolding poll_fails_def T_def by auto
  qed
  have reply: "handler_reply ?I (k (poll n)) = Inr (json_text (state_document (memory (k (poll n)) p)))"
    using accepts data by (cases "ready_check (k (poll n))") (auto simp: handler_reply_def queryHandler_def)
  obtain v where v: "json_Unmarshal_any (json_text (state_document (memory (k (poll n)) p))) = Inr v" "v \<noteq> ANil"
    "any_json float_text v \<in> set (state_documents (memory (k (poll n)) p))"
    using state_through_any by blast
  obtain w1 where answer: "m_QueryWorkflow T wid rid qt [] (poll n) = (Inr (Some (RawValue v)), w1)"
    using query_server_answers [OF assms(3) reply v(1,2)] unfolding T_def by blast
  have decoded: "decodeExecutionData resumableState_ops (\<lambda>v. Inr (json_text (any_json float_text v))) type_name
      (RawValue v) (Some b) st = ((Some b, None), st(b := memory (k (poll n)) p))"
    using resumable_reads [OF v(3)] by (simp add: decodeExecutionData_def unmarshalInto_def)
  have last_poll: "queryLoop (Suc 0) E T resumableState_ops (\<lambda>v. Inr (json_text (any_json float_text v)))
      type_name qt wid rid (Some b) st (poll n) = Some ((Some b, None), st(b := memory (k (poll n)) p), w1)"
    unfolding queryLoop_answer [OF live [OF order_refl] answer] decoded Let_def prod.case by (rule refl)
  have "queryLoop (n + Suc 0) E T D marshal tn qt wid rid dest st w =
      queryLoop (Suc 0) E T D marshal tn qt wid rid dest st (poll n)" for D :: "resumableState ExecutionDataOps" and marshal tn dest st
    unfolding poll_def by (rule queryLoop_polls) (use fails assms(5) in \<open>auto simp: poll_def\<close>)
  with last_poll show ?thesis using qt assms(4) by (auto simp: QueryWorkflowData_def simp del: queryLoop.simps)
qed


text \<open>
  A workflow that is not ready in the first second: the first poll is refused, the second
  brings the corrected account over what the caller had.
\<close>

definition query_workflow_sdk :: "(resumableState, unit, json, unit, nat) workflow_sdk" where
  "query_workflow_sdk = \<lparr>pipeline = transfer_sdk ''null'',
     signal_ops = \<lparr>Receive = (\<lambda>n w. None), Select = (\<lambda>ns w. None), AwaitSignal = (\<lambda>n t w. (Inr None, w)),
       SignalExternal = (\<lambda>wid rid n v w. (None, w)), ExecuteChild = (\<lambda>wid n w. (Inr (wid, ''''), w)),
       ChildResult = (\<lambda>wid rid w. (Inr JNull, w))\<rparr>,
     workflow_SetQueryHandler = (\<lambda>n fn w. (None, w)), workflow_SetUpdateHandler = (\<lambda>n fn opt w. (None, w)),
     workflow_Go = (\<lambda>fn w. w), map_order = [], turns = 0, string_of_value = (\<lambda>v. None), type_text = (\<lambda>_. ''map'')\<rparr>"

type_synonym query_state = "(nat, unit, (unit option, json, unit, unit, unit, unit, nat) Temporal, nat) wstate"

definition query_start :: "(unit option, json, unit, unit, unit, unit, nat) Temporal \<Rightarrow> query_state" where
  "query_start c = snd (WorkflowInit (set_query_handler query_workflow_sdk) (\<lambda>s. ''order-1'')
     (Some (transfer_workflow query_workflow_sdk 0)) ''state'' (Some 3) None
     \<lparr>wf = NewWorkflowExecution c, world = 0, history = []\<rparr>)"

definition query_worker :: "query_state \<Rightarrow> nat \<Rightarrow> (query_state, nat) worker" where
  "query_worker s1 w = \<lparr>at_state = (if w = 0 then s1
       else final_state (ExecuteWorkflow (Some (transfer_workflow query_workflow_sdk 7)) None s1)),
     memory = (\<lambda>p. \<lparr>StateActivity = '''', Account = ''account-123''\<rparr>),
     ready_check = Some (\<lambda>p. if w = 0 then Some (External ''not ready'') else None)\<rparr>"

definition query_client ::
    "(nat \<Rightarrow> go_error + string) \<Rightarrow> (unit, any raw, unit, unit, string, unit, unit, nat) sdk_client" where
  "query_client reply = \<lparr>NewClient = (\<lambda>opts w. (Inr (), w)), worker_New = (\<lambda>c q wo. ()),
     cl_ExecuteWorkflow = (\<lambda>c opts f vs w. (Inr (), w)), cl_SignalWorkflow = (\<lambda>c wid rid n v w. (None, w)),
     cl_QueryWorkflow = (\<lambda>c wid rid q vs w. (reply w, w)),
     enc_Get = (\<lambda>t. case json_Unmarshal_any t of
        Inl e \<Rightarrow> Inl e | Inr v \<Rightarrow> Inr (if v = ANil then None else Some (RawValue v))),
     cl_CancelWorkflow = (\<lambda>c wid rid w. (None, w)), cl_GetWorkflow = (\<lambda>c wid rid. ()),
     run_Get = (\<lambda>r w. (Inl (External ''running''), w)), cl_UpdateWorkflow = (\<lambda>c opts w. (Inr (), w)),
     wk_RegisterWorkflow = (\<lambda>k f n w. (Returns (), w)), wk_RegisterActivity = (\<lambda>k f n w. (Returns (), w)),
     wk_Start = (\<lambda>k w. (None, w)), wk_Stop = (\<lambda>k w. w)\<rparr>"

definition query_reply :: "query_state \<Rightarrow> nat \<Rightarrow> go_error + string" where
  "query_reply s1 w = handler_reply (transfer_workflow query_workflow_sdk 0) (query_worker s1 w)"

theorem query_reads_workflow_data_witness:
  "\<forall>c. \<exists>w'. QueryWorkflowData 2 (Some (demo_ctx True))
      (Some (temporalClient_Temporal (query_client (query_reply (query_start c))) (\<lambda>x :: unit. ())
        \<lparr>tc_worker = Some (), tc_client = (), tc_taskQueue = ''default''\<rparr>))
      resumableState_ops (\<lambda>v. Inr (json_text (any_json (\<lambda>neg x. ''0'') v))) (\<lambda>v. ''map'')
      ''state'' ''order-1'' '''' (Some 8) (\<lambda>a. \<lparr>StateActivity = ''review'', Account = ''wrong''\<rparr>) 0 =
    Some ((Some 8, None), (\<lambda>a. \<lparr>StateActivity = ''review'', Account = ''wrong''\<rparr>)
      (8 := \<lparr>StateActivity = '''', Account = ''account-123''\<rparr>), w')"
proof
  fix c
  let ?s = "\<lparr>wf = NewWorkflowExecution c, world = 0, history = []\<rparr> :: query_state"
  let ?s1 = "query_start c"
  let ?t = "\<lparr>tc_worker = Some (), tc_client = (), tc_taskQueue = ''default''\<rparr>"
  let ?K = "query_client (query_reply ?s1)"
  have init: "WorkflowInit (set_query_handler query_workflow_sdk) (\<lambda>s. ''order-1'')
      (Some (transfer_workflow query_workflow_sdk 0)) ''state'' (Some 3) None ?s = (Inr (Some 3), ?s1)"
    by (simp add: query_start_def WorkflowInit_def transfer_workflow_def workflowExecutionData_WorkflowExecution_def
        set_query_handler_def in_world_def query_workflow_sdk_def transfer_sdk_def op_defs Let_def)
  have seen: "at_state (query_worker ?s1 w) \<in> seen (transfer_workflow query_workflow_sdk) None ?s1" for w
    by (auto simp: query_worker_def seen_def)
  have server: "query_server ?K (tc_client ?t) ''state'' ''order-1'' ''''
      (\<lambda>w. handler_reply (transfer_workflow query_workflow_sdk 0) (query_worker ?s1 w))"
    by (auto simp: query_server_def query_client_def query_reply_def split: sum.splits)
  have ctx: "ctx_Deadline (demo_ctx True)" "tick (demo_ctx True) w = (True, w + 1)"
    "ctx_Err (demo_ctx True) w = (if 5 \<le> w then Some (External ''context deadline exceeded'') else None)" for w
    by (simp_all add: demo_ctx_def)
  have polls: "at_poll (demo_ctx True) (temporalClient_Temporal ?K (\<lambda>x :: unit. ()) ?t) ''state'' ''order-1'' '''' i 0 = i"
    if "i \<le> 1" for i
    using that by (cases i) (auto simp: ctx temporalClient_Temporal_def QueryWorkflow_def query_client_def
        split: sum.splits)
  have "\<exists>w'. QueryWorkflowData (Suc 1) (Some (demo_ctx True)) (Some (temporalClient_Temporal ?K (\<lambda>x :: unit. ()) ?t))
      resumableState_ops (\<lambda>v. Inr (json_text (any_json (\<lambda>neg x. ''0'') v))) (\<lambda>v. ''map'') ''state'' ''order-1'' ''''
      (Some 8) (\<lambda>a. \<lparr>StateActivity = ''review'', Account = ''wrong''\<rparr>) 0 =
    Some ((Some 8, None), (\<lambda>a. \<lparr>StateActivity = ''review'', Account = ''wrong''\<rparr>)
      (8 := memory (query_worker ?s1 (at_poll (demo_ctx True) (temporalClient_Temporal ?K (\<lambda>x :: unit. ()) ?t)
         ''state'' ''order-1'' '''' 1 0)) 3), w')"
  proof (rule query_reads_workflow_data [OF init seen server])
  qed (auto simp: polls query_worker_def ctx)
  then show "\<exists>w'. QueryWorkflowData 2 (Some (demo_ctx True)) (Some (temporalClient_Temporal ?K (\<lambda>x :: unit. ()) ?t))
      resumableState_ops (\<lambda>v. Inr (json_text (any_json (\<lambda>neg x. ''0'') v))) (\<lambda>v. ''map'') ''state'' ''order-1'' ''''
      (Some 8) (\<lambda>a. \<lparr>StateActivity = ''review'', Account = ''wrong''\<rparr>) 0 =
    Some ((Some 8, None), (\<lambda>a. \<lparr>StateActivity = ''review'', Account = ''wrong''\<rparr>)
      (8 := \<lparr>StateActivity = '''', Account = ''account-123''\<rparr>), w')"
    by (simp add: query_worker_def numeral_2_eq_2)
qed

end
