(* ===== verification/Temporal_Nexus.thy ===== *)
theory Temporal_Nexus
  imports Go_Prelude
begin

text \<open>
  \<open>temporal/nexus/nexus.go\<close>, a stub: a service, an interface without an implementation,
  and a client over the SDK's \<open>workflow.NexusClient\<close>, of type \<^typ>\<open>'c\<close>; \<open>NewNexus\<close> has
  an empty body.
\<close>

record 'v Deunamist =
  dn_Namespace :: string
  dn_Service :: 'v

record ('v, 'w) Nexus =
  nx_RegisterWorkflow :: "'v Deunamist option \<Rightarrow> 'w \<Rightarrow> 'w"
  nx_ExecuteNexus :: "string \<Rightarrow> 'v \<Rightarrow> 'v \<Rightarrow> 'w \<Rightarrow> (err \<times> 'v) \<times> 'w"

record 'c nexusClient =
  nx_nexusClient :: 'c

definition NewNexus :: "'w \<Rightarrow> 'w" where
  "NewNexus w = w"

end
