(* ===== verification/Go_Time.thy ===== *)
theory Go_Time
  imports Go_Strconv Go_Float
begin

text \<open>
  \<open>time.ParseDuration\<close>, which the token lifetimes go through: signs, several number and
  unit pairs, fractions by floating point, and its checks for overflow. A duration is an
  integer number of nanoseconds.
\<close>

section \<open>Numbers\<close>

fun leadingInt :: "string \<Rightarrow> nat \<Rightarrow> (nat \<times> string) option" where
  "leadingInt [] x = Some (x, [])"
| "leadingInt (c # cs) x =
    (if \<not> is_digit c then Some (x, c # cs)
     else if 922337203685477580 < x then None
     else if 9223372036854775808 < x * 10 + digit c then None
     else leadingInt cs (x * 10 + digit c))"

text \<open>The digits of a fraction, with the power of ten they are over; digits that do not fit are dropped.\<close>

fun leadingFraction :: "string \<Rightarrow> nat \<Rightarrow> float64 \<Rightarrow> bool \<Rightarrow> nat \<times> float64 \<times> string" where
  "leadingFraction [] x scale overflow = (x, scale, [])"
| "leadingFraction (c # cs) x scale overflow =
    (if \<not> is_digit c then (x, scale, c # cs)
     else if overflow then leadingFraction cs x scale True
     else if 922337203685477580 < x then leadingFraction cs x scale True
     else if 9223372036854775808 < x * 10 + digit c then leadingFraction cs x scale True
     else leadingFraction cs (x * 10 + digit c) (float_mult scale (float_of_nat 10)) False)"

text \<open>The micro sign and the Greek letter are two bytes each.\<close>

definition unitMap :: "string \<rightharpoonup> nat" where
  "unitMap = map_of [(''ns'', 1), (''us'', 1000), ([CHR 0xC2, CHR 0xB5, CHR ''s''], 1000),
     ([CHR 0xCE, CHR 0xBC, CHR ''s''], 1000), (''ms'', 1000000), (''s'', 1000000000),
     (''m'', 60000000000), (''h'', 3600000000000)]"


section \<open>Error texts\<close>

definition time_quote_char :: "char \<Rightarrow> string" where
  "time_quote_char c =
    (let n = of_char c :: nat in
     if 128 \<le> n \<or> n < 32 then [char_of (92 :: nat), CHR ''x'', hex_digit (n div 16), hex_digit (n mod 16)]
     else if n = 34 \<or> n = 92 then [char_of (92 :: nat), c] else [c])"

definition time_quote :: "string \<Rightarrow> string" where
  "time_quote s = char_of (34 :: nat) # concat (map time_quote_char s) @ [char_of (34 :: nat)]"

definition invalid_duration :: "string \<Rightarrow> go_error" where
  "invalid_duration s = Errorf (''time: invalid duration '' @ time_quote s)"


section \<open>One number and its unit\<close>

definition in_number :: "char \<Rightarrow> bool" where
  "in_number c \<longleftrightarrow> c = CHR ''.'' \<or> is_digit c"

definition durationUnit :: "string \<Rightarrow> string \<Rightarrow> nat \<Rightarrow> nat \<Rightarrow> float64 \<Rightarrow> go_error + nat \<times> string" where
  "durationUnit orig s v f scale =
    (let u = takeWhile (\<lambda>c. \<not> in_number c) s; rest = dropWhile (\<lambda>c. \<not> in_number c) s
     in if u = [] then Inl (Errorf (''time: missing unit in duration '' @ time_quote orig))
        else (case unitMap u of
                None \<Rightarrow> Inl (Errorf (''time: unknown unit '' @ time_quote u @ '' in duration '' @ time_quote orig))
              | Some unit \<Rightarrow>
                  if 9223372036854775808 div unit < v then Inl (invalid_duration orig)
                  else (let w = v * unit + (if 0 < f then
                              float_trunc (float_mult (float_of_nat f) (float_divide (float_of_nat unit) scale)) else 0)
                        in if 0 < f \<and> 9223372036854775808 < w then Inl (invalid_duration orig)
                           else Inr (w, rest))))"

definition durationStep :: "string \<Rightarrow> string \<Rightarrow> go_error + nat \<times> string" where
  "durationStep orig s =
    (if s = [] \<or> \<not> in_number (hd s) then Inl (invalid_duration orig)
     else (case leadingInt s 0 of
             None \<Rightarrow> Inl (invalid_duration orig)
           | Some (v, s1) \<Rightarrow>
              (let pre = length s1 \<noteq> length s;
                   (f, scale, s2, post) =
                     (if s1 \<noteq> [] \<and> hd s1 = CHR ''.'' then
                        (let (f, scale, s2) = leadingFraction (tl s1) 0 (float_of_nat 1) False
                         in (f, scale, s2, length s2 \<noteq> length (tl s1)))
                      else (0, float_of_nat 1, s1, False))
               in if \<not> pre \<and> \<not> post then Inl (invalid_duration orig)
                  else durationUnit orig s2 v f scale)))"

lemma leadingInt_length: "leadingInt s x = Some (v, rest) \<Longrightarrow> length rest \<le> length s"
  by (induction s x rule: leadingInt.induct) (auto split: if_splits)

lemma leadingFraction_length:
  "leadingFraction s x scale b = (f, scale', rest) \<Longrightarrow> length rest \<le> length s"
  by (induction s x scale b rule: leadingFraction.induct) (auto split: if_splits)

lemma durationUnit_length:
  assumes "durationUnit orig s v f scale = Inr (w, rest)"
  shows "length rest < length s"
proof -
  have "takeWhile (\<lambda>c. \<not> in_number c) s \<noteq> []" "rest = dropWhile (\<lambda>c. \<not> in_number c) s"
    using assms by (auto simp: durationUnit_def Let_def split: if_splits option.splits)
  moreover have "length s = length (takeWhile (\<lambda>c. \<not> in_number c) s) + length (dropWhile (\<lambda>c. \<not> in_number c) s)"
    by (metis length_append takeWhile_dropWhile_id)
  ultimately show ?thesis by simp
qed

lemma durationStep_length:
  assumes "durationStep orig s = Inr (w, rest)"
  shows "length rest < length s"
proof -
  obtain v s1 where s1: "leadingInt s 0 = Some (v, s1)"
    using assms by (auto simp: durationStep_def split: if_splits option.splits)
  have le: "length s1 \<le> length s" by (rule leadingInt_length [OF s1])
  have "\<exists>f scale s2. durationUnit orig s2 v f scale = Inr (w, rest) \<and> length s2 \<le> length s1"
  proof (cases "s1 \<noteq> [] \<and> hd s1 = CHR ''.''")
    case True
    obtain f scale s2 where f: "leadingFraction (tl s1) 0 (float_of_nat 1) False = (f, scale, s2)"
      by (metis prod_cases3)
    from leadingFraction_length [OF f] have "length s2 \<le> length s1" by simp
    moreover have "durationUnit orig s2 v f scale = Inr (w, rest)"
      using assms s1 True f by (auto simp: durationStep_def Let_def split: if_splits)
    ultimately show ?thesis by blast
  next
    case False
    then have "durationUnit orig s1 v 0 (float_of_nat 1) = Inr (w, rest)"
      using assms s1 by (auto simp: durationStep_def Let_def split: if_splits)
    then show ?thesis by blast
  qed
  with le durationUnit_length show ?thesis by fastforce
qed


section \<open>ParseDuration\<close>

text \<open>The sum is kept in an unsigned 64-bit integer.\<close>

function durationLoop :: "string \<Rightarrow> string \<Rightarrow> nat \<Rightarrow> go_error + nat" where
  "durationLoop orig s d =
    (if s = [] then Inr d
     else (case durationStep orig s of
             Inl e \<Rightarrow> Inl e
           | Inr (v, rest) \<Rightarrow>
              (let d' = (d + v) mod 2 ^ 64
               in if 9223372036854775808 < d' then Inl (invalid_duration orig)
                  else durationLoop orig rest d')))"
  by pat_completeness auto
termination
  by (relation "measure (\<lambda>(orig, s, d). length s)") (auto dest: durationStep_length)

declare durationLoop.simps [simp del]

definition ParseDuration :: "string \<Rightarrow> go_error + int" where
  "ParseDuration orig =
    (let neg = (case orig of c # _ \<Rightarrow> c = CHR ''-'' | [] \<Rightarrow> False);
         s = (case orig of c # r \<Rightarrow> if c = CHR ''-'' \<or> c = CHR ''+'' then r else orig | [] \<Rightarrow> [])
     in if s = ''0'' then Inr 0
        else if s = [] then Inl (invalid_duration orig)
        else (case durationLoop orig s 0 of
                Inl e \<Rightarrow> Inl e
              | Inr d \<Rightarrow>
                  if neg then Inr (- int d)
                  else if 9223372036854775807 < d then Inl (invalid_duration orig)
                  else Inr (int d)))"


section \<open>Printed durations are read back\<close>

lemma leadingInt_text: "n \<le> 2 ^ 63 \<Longrightarrow> leadingInt (nat_text n @ r) 0 = leadingInt r n"
proof (induction n arbitrary: r rule: nat_text.induct)
  case (1 n)
  show ?case
  proof (cases "n < 10")
    case True
    then show ?thesis using digit_char [of n] by (simp add: nat_text.simps [of n])
  next
    case False
    let ?d = "char_of (48 + n mod 10) :: char"
    have "leadingInt (nat_text (n div 10) @ ?d # r) 0 = leadingInt (?d # r) (n div 10)"
      using 1 False by simp
    moreover have "n div 10 * 10 + n mod 10 = n" by simp
    moreover have "\<not> 922337203685477580 < n div 10" using "1.prems" by simp
    ultimately show ?thesis using False digit_char [of "n mod 10"] "1.prems"
      by (simp add: nat_text.simps [of n])
  qed
qed

lemma leadingInt_large: "2 ^ 63 < n \<Longrightarrow> leadingInt (nat_text n @ r) 0 = None"
proof (induction n arbitrary: r rule: nat_text.induct)
  case (1 n)
  let ?d = "char_of (48 + n mod 10) :: char"
  have big: "\<not> n < 10" using "1.prems" by simp
  have d: "is_digit ?d" "digit ?d = n mod 10" using digit_char [of "n mod 10"] by auto
  show ?case
  proof (cases "2 ^ 63 < n div 10")
    case True
    with 1 big show ?thesis by (simp add: nat_text.simps [of n])
  next
    case False
    then have "leadingInt (nat_text (n div 10) @ ?d # r) 0 = leadingInt (?d # r) (n div 10)"
      by (intro leadingInt_text) simp
    moreover have "n div 10 * 10 + n mod 10 = n" by simp
    ultimately show ?thesis using d big "1.prems" by (simp add: nat_text.simps [of n])
  qed
qed

text \<open>What follows a unit: the end, or the next number.\<close>

definition number_follows :: "string \<Rightarrow> bool" where
  "number_follows r \<longleftrightarrow> r = [] \<or> in_number (hd r)"

lemma unit_chars:
  assumes "unitMap u = Some k"
  shows "u \<noteq> []" and "\<forall>c \<in> set u. \<not> in_number c" and "0 < k"
  using assms by (auto simp: unitMap_def in_number_def is_digit_def split: if_splits)

lemma unit_split:
  assumes "unitMap u = Some k" and "number_follows r"
  shows "takeWhile (\<lambda>c. \<not> in_number c) (u @ r) = u \<and> dropWhile (\<lambda>c. \<not> in_number c) (u @ r) = r"
  using assms unit_chars [OF assms(1)]
  by (cases r) (auto simp: takeWhile_append dropWhile_append number_follows_def)

lemma text_starts: "\<exists>c cs. nat_text n = c # cs \<and> is_digit c"
  using nat_text_nonempty [of n] nat_text_digits [of _ n] by (cases "nat_text n") auto

lemma durationStep_text:
  assumes "unitMap u = Some k" and "number_follows r"
  shows "durationStep orig (nat_text n @ u @ r) =
    (if n * k \<le> 2 ^ 63 then Inr (n * k, r) else Inl (invalid_duration orig))"
proof -
  obtain c cs where c: "nat_text n = c # cs" "is_digit c" using text_starts by blast
  obtain x xs where u: "u = x # xs" "\<not> in_number x"
    using unit_chars [OF assms(1)] by (cases u) auto
  have start: "in_number (hd (nat_text n @ u @ r))" using c by (simp add: in_number_def)
  have x: "x \<noteq> CHR ''.''" "\<not> is_digit x" using u(2) by (auto simp: in_number_def)
  show ?thesis
  proof (cases "n \<le> 2 ^ 63")
    case True
    have int: "leadingInt (nat_text n @ u @ r) 0 = Some (n, u @ r)"
      using x(2) by (simp add: leadingInt_text [OF True] u(1))
    have "durationStep orig (nat_text n @ u @ r) = durationUnit orig (u @ r) n 0 (float_of_nat 1)"
      using start int x(1) c(1) by (simp add: durationStep_def Let_def u(1))
    moreover have "n \<le> 9223372036854775808 div k \<longleftrightarrow> n * k \<le> 9223372036854775808"
      by (rule less_eq_div_iff_mult_less_eq [OF unit_chars(3) [OF assms(1)]])
    then have "9223372036854775808 div k < n \<longleftrightarrow> \<not> n * k \<le> 2 ^ 63" by auto
    ultimately show ?thesis
      using assms(1) unit_split [OF assms] u(1) by (simp add: durationUnit_def Let_def)
  next
    case False
    then have "leadingInt (nat_text n @ u @ r) 0 = None" by (intro leadingInt_large) simp
    moreover have "\<not> n * k \<le> 2 ^ 63"
      using False unit_chars(3) [OF assms(1)] by (cases k) (auto simp: not_le intro: less_le_trans)
    ultimately show ?thesis using start by (simp add: durationStep_def)
  qed
qed

text \<open>A duration written as a list of numbers with their units.\<close>

fun duration_text :: "(nat \<times> string) list \<Rightarrow> string" where
  "duration_text [] = []"
| "duration_text ((n, u) # ps) = nat_text n @ u @ duration_text ps"

fun duration_value :: "(nat \<times> string) list \<Rightarrow> nat" where
  "duration_value [] = 0"
| "duration_value ((n, u) # ps) = n * the (unitMap u) + duration_value ps"

lemma duration_text_follows: "number_follows (duration_text ps)"
proof (cases ps)
  case (Cons p ps')
  then show ?thesis using text_starts [of "fst p"] by (cases p) (auto simp: number_follows_def in_number_def)
qed (simp add: number_follows_def)

lemma durationLoop_steps:
  "durationLoop orig [] d = Inr d"
  "s \<noteq> [] \<Longrightarrow> durationStep orig s = Inr (v, r) \<Longrightarrow> d + v \<le> 2 ^ 63 \<Longrightarrow>
     durationLoop orig s d = durationLoop orig r (d + v)"
  "s \<noteq> [] \<Longrightarrow> durationStep orig s = Inl e \<Longrightarrow> durationLoop orig s d = Inl e"
  by (simp_all add: durationLoop.simps [of orig s] durationLoop.simps [of orig "[]"])

lemma durationLoop_text:
  "\<forall>(n, u) \<in> set ps. unitMap u \<noteq> None \<Longrightarrow> d + duration_value ps \<le> 2 ^ 63 \<Longrightarrow>
   durationLoop orig (duration_text ps) d = Inr (d + duration_value ps)"
proof (induction ps arbitrary: d)
  case Nil
  then show ?case by (simp add: durationLoop_steps)
next
  case (Cons p ps)
  obtain n u where p: "p = (n, u)" by (cases p)
  from Cons.prems(1) p obtain k where k: "unitMap u = Some k" by auto
  have small: "n * k \<le> 2 ^ 63" "d + n * k \<le> 2 ^ 63" using Cons.prems(2) p k by auto
  have "nat_text n @ u @ duration_text ps \<noteq> []" using nat_text_nonempty by simp
  from durationLoop_steps(2) [OF this, of orig "n * k" "duration_text ps" d]
  have "durationLoop orig (duration_text (p # ps)) d = durationLoop orig (duration_text ps) (d + n * k)"
    using durationStep_text [OF k duration_text_follows [of ps], of orig n] p small by simp
  with Cons p k show ?case by (simp add: add.assoc)
qed

lemma ParseDuration_sign:
  assumes "s \<noteq> []" and "is_digit (hd s)" and "s \<noteq> ''0''" and "durationLoop s s 0 = Inr d" and "d < 2 ^ 63"
    and "durationLoop (CHR ''-'' # s) s 0 = Inr d"
  shows "ParseDuration s = Inr (int d)" and "ParseDuration (CHR ''-'' # s) = Inr (- int d)"
proof -
  obtain c r where s: "s = c # r" using assms(1) by (cases s) auto
  have "c \<noteq> CHR ''-''" "c \<noteq> CHR ''+''" using assms(2) s by (auto simp: is_digit_def)
  then show "ParseDuration s = Inr (int d)" "ParseDuration (CHR ''-'' # s) = Inr (- int d)"
    using assms s by (auto simp: ParseDuration_def Let_def)
qed

lemma duration_text_not_zero: "\<forall>(n, u) \<in> set ps. unitMap u \<noteq> None \<Longrightarrow> duration_text ps \<noteq> ''0''"
proof
  assume units: "\<forall>(n, u) \<in> set ps. unitMap u \<noteq> None" and zero: "duration_text ps = ''0''"
  then obtain n u ps' where ps: "ps = (n, u) # ps'" by (cases ps) auto
  with units obtain k where k: "unitMap u = Some k" by auto
  obtain c cs where "nat_text n = c # cs" using text_starts by blast
  with zero ps unit_chars(1) [OF k] show False by simp
qed

lemma ParseDuration_text:
  assumes "ps \<noteq> []" and "\<forall>(n, u) \<in> set ps. unitMap u \<noteq> None" and "duration_value ps < 2 ^ 63"
  shows "ParseDuration (duration_text ps) = Inr (int (duration_value ps))"
    and "ParseDuration (CHR ''-'' # duration_text ps) = Inr (- int (duration_value ps))"
proof -
  obtain n u ps' where ps: "ps = (n, u) # ps'" using assms(1) by (cases ps) auto
  have "duration_text ps \<noteq> []" "is_digit (hd (duration_text ps))"
    using ps text_starts [of n] by auto
  note sign = ParseDuration_sign [OF this duration_text_not_zero [OF assms(2)] _ assms(3)]
  have "durationLoop orig (duration_text ps) 0 = Inr (duration_value ps)" for orig
    using durationLoop_text [OF assms(2), of 0 orig] assms(3) by simp
  then show "ParseDuration (duration_text ps) = Inr (int (duration_value ps))"
    "ParseDuration (CHR ''-'' # duration_text ps) = Inr (- int (duration_value ps))"
    using sign by blast+
qed

text \<open>A single number that is too large is refused.\<close>

lemma ParseDuration_overflow:
  assumes "unitMap u = Some k" and "2 ^ 63 \<le> n * k"
  shows "ParseDuration (nat_text n @ u) = Inl (invalid_duration (nat_text n @ u))"
proof -
  let ?s = "nat_text n @ u"
  obtain c cs where c: "nat_text n = c # cs" "is_digit c" using text_starts by blast
  then have signs: "c \<noteq> CHR ''-''" "c \<noteq> CHR ''+''" by (auto simp: is_digit_def)
  have "?s \<noteq> ''0''" using c(1) unit_chars(1) [OF assms(1)] by (auto simp: append_eq_Cons_conv)
  moreover have "durationStep orig ?s = (if n * k \<le> 2 ^ 63 then Inr (n * k, []) else Inl (invalid_duration orig))" for orig
    using durationStep_text [OF assms(1), of "[]" orig n] by (simp add: number_follows_def)
  then have "durationLoop ?s ?s 0 = (if n * k \<le> 2 ^ 63 then Inr (n * k) else Inl (invalid_duration ?s))"
    using c(1) durationLoop_steps(1) [of ?s "n * k"] durationLoop_steps(2) [of ?s ?s "n * k" "[]" 0]
      durationLoop_steps(3) [of ?s ?s "invalid_duration ?s" 0] by auto
  ultimately show ?thesis
    using c(1) signs assms(2) by (auto simp: ParseDuration_def Let_def)
qed

text \<open>A number without a unit is refused, except zero.\<close>

lemma ParseDuration_no_unit:
  assumes "0 < n"
  shows "\<exists>e. ParseDuration (nat_text n) = Inl e"
proof -
  let ?s = "nat_text n"
  obtain c cs where c: "?s = c # cs" "is_digit c" using text_starts by blast
  then have signs: "c \<noteq> CHR ''-''" "c \<noteq> CHR ''+''" by (auto simp: is_digit_def)
  have "?s \<noteq> ''0''"
  proof
    assume "?s = ''0''"
    then have "parseUint ?s 0 = Inr 0" by (simp add: is_digit_def digit_def)
    with assms show False
      by (cases "n < 2 ^ 64") (auto simp: parseUint_text parseUint_large)
  qed
  moreover have "\<exists>e. durationStep ?s ?s = Inl e"
  proof (cases "n \<le> 2 ^ 63")
    case True
    have "leadingInt ?s 0 = Some (n, [])" using leadingInt_text [OF True, of "[]"] by simp
    then show ?thesis using c by (simp add: durationStep_def durationUnit_def in_number_def)
  next
    case False
    then have "leadingInt ?s 0 = None" using leadingInt_large [of n "[]"] by simp
    then show ?thesis using c by (simp add: durationStep_def)
  qed
  then obtain e where "durationLoop ?s ?s 0 = Inl e" using durationLoop_steps(3) [of ?s] c by auto
  ultimately show ?thesis using c(1) signs by (auto simp: ParseDuration_def Let_def)
qed

end
