(* ===== verification/Security_Tokens.thy ===== *)
theory Security_Tokens
  imports Go_Json Go_Time
begin

text \<open>
  Packages \<open>security\<close> (\<open>jwt.go\<close>) and \<open>security/v2\<close> (\<open>v2/jwt.go\<close>): the claim types of
  both versions, how they are written to and read from JSON, and \<open>GenerateTokens\<close>.
  The JWT library is a parameter: how its \<open>RegisteredClaims\<close> are written and read,
  its numeric dates, and the signing of a claims document.
\<close>

section \<open>Registered claims\<close>

text \<open>The fields of the library's struct that the code sets.\<close>

record RegisteredClaims =
  Issuer :: string
  Subject :: string
  IssuedAt :: "int option"
  ExpiresAt :: "int option"

definition zeroRegistered :: RegisteredClaims where
  "zeroRegistered = \<lparr>Issuer = '''', Subject = '''', IssuedAt = None, ExpiresAt = None\<rparr>"

record jwt_library =
  reg_members :: "RegisteredClaims \<Rightarrow> (string \<times> json) list"
  reg_readers :: "RegisteredClaims fields"
  NumericDate :: "int \<Rightarrow> int"
  SignedString :: "json \<Rightarrow> string \<Rightarrow> go_error + string"

text \<open>
  What the library documents: the registered claims are written under the names of
  RFC 7519, and what is written is read back.
\<close>

definition rfc_names :: "string list" where
  "rfc_names = [''iss'', ''sub'', ''aud'', ''exp'', ''nbf'', ''iat'', ''jti'']"

definition registered_ok :: "jwt_library \<Rightarrow> bool" where
  "registered_ok L \<longleftrightarrow>
     (\<forall>r. fst ` set (reg_members L r) \<subseteq> set rfc_names) \<and>
     fst ` set (reg_readers L) = set rfc_names \<and>
     (\<forall>r. read_members (reg_readers L) (reg_members L r) zeroRegistered = (None, r))"


section \<open>Version 1 (security/jwt.go)\<close>

record JWTAccessClaim =
  UserID :: uint64
  Username :: string
  RoleID :: "uint64 list option"
  IsVerify :: bool
  AccessRegistered :: RegisteredClaims

record JWTRefreshClaim =
  RefreshUserID :: uint64
  Email :: string
  RefreshRegistered :: RegisteredClaims

definition zeroAccess :: JWTAccessClaim where
  "zeroAccess = \<lparr>UserID = 0, Username = '''', RoleID = None, IsVerify = False,
     AccessRegistered = zeroRegistered\<rparr>"

definition zeroRefresh :: JWTRefreshClaim where
  "zeroRefresh = \<lparr>RefreshUserID = 0, Email = '''', RefreshRegistered = zeroRegistered\<rparr>"

definition json_uint64 :: "uint64 \<Rightarrow> json" where
  "json_uint64 w = JNum (uint w)"

definition marshalAccess :: "jwt_library \<Rightarrow> JWTAccessClaim \<Rightarrow> json" where
  "marshalAccess L c = JObj ([(''UserID'', json_uint64 (UserID c)), (''Username'', JStr (Username c)),
     (''RoleID'', case RoleID c of None \<Rightarrow> JNull | Some ws \<Rightarrow> JArr (map json_uint64 ws)),
     (''IsVerify'', JBool (IsVerify c))] @ reg_members L (AccessRegistered c))"

definition marshalRefresh :: "jwt_library \<Rightarrow> JWTRefreshClaim \<Rightarrow> json" where
  "marshalRefresh L c = JObj ([(''UserID'', json_uint64 (RefreshUserID c)), (''Email'', JStr (Email c))] @
     reg_members L (RefreshRegistered c))"

text \<open>The promoted fields of an embedded struct are read into it.\<close>

definition embed_fields :: "('a \<Rightarrow> 'b) \<Rightarrow> ('b \<Rightarrow> 'a \<Rightarrow> 'a) \<Rightarrow> 'b fields \<Rightarrow> 'a fields" where
  "embed_fields getf setf fs = map (\<lambda>(n, r). (n, into r getf setf)) fs"

definition accessOwn :: "JWTAccessClaim fields" where
  "accessOwn = [(''UserID'', into read_uint64 UserID (\<lambda>v c. c\<lparr>UserID := v\<rparr>)),
     (''Username'', into read_string Username (\<lambda>v c. c\<lparr>Username := v\<rparr>)),
     (''RoleID'', into read_uint64s RoleID (\<lambda>v c. c\<lparr>RoleID := v\<rparr>)),
     (''IsVerify'', into read_bool IsVerify (\<lambda>v c. c\<lparr>IsVerify := v\<rparr>))]"

definition accessFields :: "jwt_library \<Rightarrow> JWTAccessClaim fields" where
  "accessFields L = accessOwn @
     embed_fields AccessRegistered (\<lambda>v c. c\<lparr>AccessRegistered := v\<rparr>) (reg_readers L)"

definition refreshOwn :: "JWTRefreshClaim fields" where
  "refreshOwn = [(''UserID'', into read_uint64 RefreshUserID (\<lambda>v c. c\<lparr>RefreshUserID := v\<rparr>)),
     (''Email'', into read_string Email (\<lambda>v c. c\<lparr>Email := v\<rparr>))]"

definition refreshFields :: "jwt_library \<Rightarrow> JWTRefreshClaim fields" where
  "refreshFields L = refreshOwn @
     embed_fields RefreshRegistered (\<lambda>v c. c\<lparr>RefreshRegistered := v\<rparr>) (reg_readers L)"

text \<open>
  \<open>GenerateTokens\<close>: \<open>now i\<close> is the \<open>i\<close>-th reading of the clock, in nanoseconds.
\<close>

definition time_Hour :: int where
  "time_Hour = 3600 * 1000000000"

definition accessClaims :: "jwt_library \<Rightarrow> (nat \<Rightarrow> int) \<Rightarrow> uint64 \<Rightarrow> JWTAccessClaim" where
  "accessClaims L now userID = zeroAccess\<lparr>UserID := userID, AccessRegistered :=
     \<lparr>Issuer = ''Applications'', Subject = '''', IssuedAt = Some (NumericDate L (now 0)),
      ExpiresAt = Some (NumericDate L (now 1 + time_Hour * 1))\<rparr>\<rparr>"

definition refreshClaims :: "jwt_library \<Rightarrow> (nat \<Rightarrow> int) \<Rightarrow> uint64 \<Rightarrow> string \<Rightarrow> JWTRefreshClaim" where
  "refreshClaims L now userID email = \<lparr>RefreshUserID = userID, Email = email, RefreshRegistered =
     \<lparr>Issuer = ''Applications'', Subject = '''', IssuedAt = Some (NumericDate L (now 2)),
      ExpiresAt = Some (NumericDate L (now 3 + time_Hour * 10))\<rparr>\<rparr>"

definition GenerateTokens ::
    "jwt_library \<Rightarrow> string \<Rightarrow> (nat \<Rightarrow> int) \<Rightarrow> uint64 \<Rightarrow> string \<Rightarrow> string \<times> string" where
  "GenerateTokens L JwtKey now userID email =
    (case SignedString L (marshalAccess L (accessClaims L now userID)) JwtKey of
       Inl _ \<Rightarrow> ('''', '''')
     | Inr accessToken \<Rightarrow>
        (case SignedString L (marshalRefresh L (refreshClaims L now userID email)) JwtKey of
           Inl _ \<Rightarrow> ('''', '''')
         | Inr refreshToken \<Rightarrow> (accessToken, refreshToken)))"


section \<open>Version 2 (security/v2/jwt.go)\<close>

record JWTAccessClaim_v2 =
  AID :: uint64
  OnboardingID :: uint64
  AEmail :: string
  ARole :: string
  AIsVerify :: bool
  ARegistered :: RegisteredClaims

record JWTRefreshClaim_v2 =
  RID :: uint64
  REmail :: string
  RRegistered :: RegisteredClaims

record accessWire =
  wID :: uint64
  wOnboardingID :: uint64
  wEmail :: string
  wRole :: string
  wIsVerify :: bool
  wUserID :: uint64
  wLegacyVerify :: bool
  wRegistered :: RegisteredClaims

record refreshWire =
  vID :: uint64
  vEmail :: string
  vUserID :: uint64
  vRegistered :: RegisteredClaims

definition zeroAccessWire :: accessWire where
  "zeroAccessWire = \<lparr>wID = 0, wOnboardingID = 0, wEmail = '''', wRole = '''', wIsVerify = False,
     wUserID = 0, wLegacyVerify = False, wRegistered = zeroRegistered\<rparr>"

definition zeroRefreshWire :: refreshWire where
  "zeroRefreshWire = \<lparr>vID = 0, vEmail = '''', vUserID = 0, vRegistered = zeroRegistered\<rparr>"

text \<open>\<open>omitempty\<close>: a zero value is not written.\<close>

definition omitempty :: "bool \<Rightarrow> string \<Rightarrow> json \<Rightarrow> (string \<times> json) list" where
  "omitempty zero n j = (if zero then [] else [(n, j)])"

definition marshalAccessWire :: "jwt_library \<Rightarrow> accessWire \<Rightarrow> json" where
  "marshalAccessWire L w = JObj ([(''id'', json_uint64 (wID w))] @
     omitempty (wOnboardingID w = 0) ''onboarding_id'' (json_uint64 (wOnboardingID w)) @
     omitempty (wEmail w = '''') ''email'' (JStr (wEmail w)) @
     omitempty (wRole w = '''') ''role'' (JStr (wRole w)) @
     [(''is_verify'', JBool (wIsVerify w)), (''UserID'', json_uint64 (wUserID w)),
      (''IsVerify'', JBool (wLegacyVerify w))] @ reg_members L (wRegistered w))"

definition marshalRefreshWire :: "jwt_library \<Rightarrow> refreshWire \<Rightarrow> json" where
  "marshalRefreshWire L w = JObj ([(''id'', json_uint64 (vID w)), (''email'', JStr (vEmail w)),
     (''UserID'', json_uint64 (vUserID w))] @ reg_members L (vRegistered w))"

definition accessWireOwn :: "accessWire fields" where
  "accessWireOwn = [(''id'', into read_uint64 wID (\<lambda>v c. c\<lparr>wID := v\<rparr>)),
     (''onboarding_id'', into read_uint64 wOnboardingID (\<lambda>v c. c\<lparr>wOnboardingID := v\<rparr>)),
     (''email'', into read_string wEmail (\<lambda>v c. c\<lparr>wEmail := v\<rparr>)),
     (''role'', into read_string wRole (\<lambda>v c. c\<lparr>wRole := v\<rparr>)),
     (''is_verify'', into read_bool wIsVerify (\<lambda>v c. c\<lparr>wIsVerify := v\<rparr>)),
     (''UserID'', into read_uint64 wUserID (\<lambda>v c. c\<lparr>wUserID := v\<rparr>)),
     (''IsVerify'', into read_bool wLegacyVerify (\<lambda>v c. c\<lparr>wLegacyVerify := v\<rparr>))]"

definition accessWireFields :: "jwt_library \<Rightarrow> accessWire fields" where
  "accessWireFields L = accessWireOwn @
     embed_fields wRegistered (\<lambda>v c. c\<lparr>wRegistered := v\<rparr>) (reg_readers L)"

definition refreshWireOwn :: "refreshWire fields" where
  "refreshWireOwn = [(''id'', into read_uint64 vID (\<lambda>v c. c\<lparr>vID := v\<rparr>)),
     (''email'', into read_string vEmail (\<lambda>v c. c\<lparr>vEmail := v\<rparr>)),
     (''UserID'', into read_uint64 vUserID (\<lambda>v c. c\<lparr>vUserID := v\<rparr>))]"

definition refreshWireFields :: "jwt_library \<Rightarrow> refreshWire fields" where
  "refreshWireFields L = refreshWireOwn @
     embed_fields vRegistered (\<lambda>v c. c\<lparr>vRegistered := v\<rparr>) (reg_readers L)"

definition MarshalJSON_access :: "jwt_library \<Rightarrow> JWTAccessClaim_v2 \<Rightarrow> json" where
  "MarshalJSON_access L c = marshalAccessWire L \<lparr>wID = AID c, wOnboardingID = OnboardingID c,
     wEmail = AEmail c, wRole = ARole c, wIsVerify = AIsVerify c, wUserID = AID c,
     wLegacyVerify = AIsVerify c, wRegistered = ARegistered c\<rparr>"

definition UnmarshalJSON_access ::
    "jwt_library \<Rightarrow> json \<Rightarrow> JWTAccessClaim_v2 \<Rightarrow> err \<times> JWTAccessClaim_v2" where
  "UnmarshalJSON_access L data c =
    (case read_struct (accessWireFields L) data zeroAccessWire of
       (Some e, _) \<Rightarrow> (Some e, c)
     | (None, raw) \<Rightarrow>
        (let cid = (if wID raw = 0 then wUserID raw else wID raw)
         in (None, \<lparr>AID = cid, OnboardingID = wOnboardingID raw, AEmail = wEmail raw,
               ARole = wRole raw, AIsVerify = (wIsVerify raw \<or> wLegacyVerify raw),
               ARegistered = wRegistered raw\<rparr>)))"

definition MarshalJSON_refresh :: "jwt_library \<Rightarrow> JWTRefreshClaim_v2 \<Rightarrow> json" where
  "MarshalJSON_refresh L c = marshalRefreshWire L \<lparr>vID = RID c, vEmail = REmail c,
     vUserID = RID c, vRegistered = RRegistered c\<rparr>"

definition UnmarshalJSON_refresh ::
    "jwt_library \<Rightarrow> json \<Rightarrow> JWTRefreshClaim_v2 \<Rightarrow> err \<times> JWTRefreshClaim_v2" where
  "UnmarshalJSON_refresh L data c =
    (case read_struct (refreshWireFields L) data zeroRefreshWire of
       (Some e, _) \<Rightarrow> (Some e, c)
     | (None, raw) \<Rightarrow>
        (let cid = (if vID raw = 0 then vUserID raw else vID raw)
         in (None, \<lparr>RID = cid, REmail = vEmail raw, RRegistered = vRegistered raw\<rparr>)))"

definition accessClaims_v2 ::
    "jwt_library \<Rightarrow> (nat \<Rightarrow> int) \<Rightarrow> int \<Rightarrow> uint64 \<Rightarrow> string \<Rightarrow> uint64 \<Rightarrow> string \<Rightarrow> bool \<Rightarrow> JWTAccessClaim_v2" where
  "accessClaims_v2 L now accessTokenExpire cid email onboardingID role isVerify =
     \<lparr>AID = cid, OnboardingID = onboardingID, AEmail = email, ARole = role, AIsVerify = isVerify,
      ARegistered = \<lparr>Issuer = ''auth-service'', Subject = ''access-token'',
        IssuedAt = Some (NumericDate L (now 1)),
        ExpiresAt = Some (NumericDate L (now 0 + accessTokenExpire))\<rparr>\<rparr>"

definition refreshClaims_v2 ::
    "jwt_library \<Rightarrow> (nat \<Rightarrow> int) \<Rightarrow> int \<Rightarrow> uint64 \<Rightarrow> string \<Rightarrow> JWTRefreshClaim_v2" where
  "refreshClaims_v2 L now refreshTokenExpire cid email =
     \<lparr>RID = cid, REmail = email,
      RRegistered = \<lparr>Issuer = ''auth-service'', Subject = ''refresh-token'',
        IssuedAt = Some (NumericDate L (now 3)),
        ExpiresAt = Some (NumericDate L (now 2 + refreshTokenExpire))\<rparr>\<rparr>"

definition GenerateTokens_v2 ::
    "jwt_library \<Rightarrow> string \<Rightarrow> string \<Rightarrow> string \<Rightarrow> (nat \<Rightarrow> int)
       \<Rightarrow> uint64 \<Rightarrow> string \<Rightarrow> uint64 \<Rightarrow> string \<Rightarrow> bool \<Rightarrow> string \<times> string" where
  "GenerateTokens_v2 L JwtKey JwtExpire JwtRefreshExpire now cid email onboardingID role isVerify =
    (let jwtExpire = (if JwtExpire = '''' then ''1h'' else JwtExpire);
         jwtRefreshExpire = (if JwtRefreshExpire = '''' then ''10h'' else JwtRefreshExpire)
     in (case ParseDuration jwtExpire of
           Inl _ \<Rightarrow> ('''', '''')
         | Inr accessTokenExpire \<Rightarrow>
            (case ParseDuration jwtRefreshExpire of
               Inl _ \<Rightarrow> ('''', '''')
             | Inr refreshTokenExpire \<Rightarrow>
                (case SignedString L (MarshalJSON_access L
                     (accessClaims_v2 L now accessTokenExpire cid email onboardingID role isVerify)) JwtKey of
                   Inl _ \<Rightarrow> ('''', '''')
                 | Inr accessTokenStr \<Rightarrow>
                    (case SignedString L (MarshalJSON_refresh L
                         (refreshClaims_v2 L now refreshTokenExpire cid email)) JwtKey of
                       Inl _ \<Rightarrow> ('''', '''')
                     | Inr refreshTokenStr \<Rightarrow> (accessTokenStr, refreshTokenStr))))))"



section \<open>Reading an object whose last members are the registered claims\<close>

lemma map_of_map_snd: "map_of (map (\<lambda>(n, r). (n, f r)) fs) k = map_option f (map_of fs k)"
  by (induction fs) auto

lemma fold_rfc: "n \<in> set rfc_names \<Longrightarrow> fold_name n = n"
  unfolding rfc_names_def by (simp, elim disjE; simp add: fold_name_def lower_char_def char_of_def Let_def)

lemma registered_ok_reads:
  "registered_ok L \<Longrightarrow> read_members (reg_readers L) (reg_members L r) zeroRegistered = (None, r)"
  by (simp add: registered_ok_def)

lemma embed_exact:
  assumes "registered_ok L" and "key \<notin> set rfc_names"
  shows "map_of (embed_fields getf setf (reg_readers L)) key = None"
proof -
  have "key \<notin> fst ` set (reg_readers L)" using assms by (auto simp: registered_ok_def)
  then have "map_of (reg_readers L) key = None" by (simp add: map_of_eq_None_iff)
  then show ?thesis by (simp add: embed_fields_def map_of_map_snd)
qed

lemma embed_folded:
  assumes "registered_ok L" and "fold_name key \<notin> set rfc_names"
  shows "map_of (map (\<lambda>(n, r). (fold_name n, r)) (embed_fields getf setf (reg_readers L))) (fold_name key) = None"
proof -
  have "fold_name key \<notin> (\<lambda>(n, r). fold_name n) ` set (reg_readers L)"
  proof
    assume "fold_name key \<in> (\<lambda>(n, r). fold_name n) ` set (reg_readers L)"
    then obtain n r where n: "(n, r) \<in> set (reg_readers L)" "fold_name key = fold_name n" by auto
    from n(1) have "n \<in> set rfc_names" using assms(1) by (force simp: registered_ok_def)
    with n(2) assms(2) show False by (simp add: fold_rfc)
  qed
  then show ?thesis
    by (auto simp: map_of_eq_None_iff embed_fields_def image_iff)
qed

lemma find_own:
  assumes "registered_ok L" and "key \<notin> set rfc_names" and "fold_name key \<notin> set rfc_names"
  shows "find_field (own @ embed_fields getf setf (reg_readers L)) key = find_field own key"
  using embed_exact [OF assms(1,2), of getf setf] embed_folded [OF assms(1,3), of getf setf]
  by (cases "map_of own key"; cases "map_of (map (\<lambda>(n, r). (fold_name n, r)) own) (fold_name key)")
    (simp_all add: find_field_def map_add_def)

text \<open>The readers of the struct's own fields leave the registered names alone.\<close>

lemma read_registered:
  assumes L: "registered_ok L"
    and own: "fst ` set own \<inter> set rfc_names = {}"
    and lens: "\<And>v a. getf (setf v a) = v" "\<And>v w a. setf v (setf w a) = setf v a" "\<And>a. setf (getf a) a = a"
    and zero: "getf a = zeroRegistered"
  shows "read_members (own @ embed_fields getf setf (reg_readers L)) (reg_members L r) a = (None, setf r a)"
proof -
  have lift: "read_members (own @ embed_fields getf setf (reg_readers L)) kvs b =
      (let (e, v) = read_members (reg_readers L) kvs (getf b) in (e, setf v b))"
    if "fst ` set kvs \<subseteq> set rfc_names" for kvs b
    using that
  proof (induction kvs arbitrary: b)
    case Nil
    then show ?case by (simp add: lens)
  next
    case (Cons kv kvs)
    obtain key j where kv: "kv = (key, j)" by (cases kv)
    from Cons.prems kv have key: "key \<in> set rfc_names" by simp
    then have "key \<in> fst ` set (reg_readers L)" using L by (auto simp: registered_ok_def)
    then obtain rd where rd: "map_of (reg_readers L) key = Some rd"
      by (meson map_of_eq_None_iff not_None_eq)
    have "map_of own key = None" using own key by (auto simp: map_of_eq_None_iff)
    then have "find_field (own @ embed_fields getf setf (reg_readers L)) key = Some (into rd getf setf)"
      by (simp add: find_field_def map_add_def embed_fields_def map_of_map_snd rd)
    moreover have "find_field (reg_readers L) key = Some rd" by (simp add: find_field_def rd)
    ultimately show ?case using Cons kv
      by (auto simp: into_def lens Let_def split: prod.splits option.splits)
  qed
  have "fst ` set (reg_members L r) \<subseteq> set rfc_names" using L by (simp add: registered_ok_def)
  from lift [OF this] show ?thesis by (simp add: zero registered_ok_reads [OF L])
qed

end
