(* ===== verification/Security_Properties.thy ===== *)
theory Security_Properties
  imports Security_Tokens Go_Json_Text
begin

text \<open>
  The wire format of the tokens: every claim type reads back what it wrote, and each
  version reads the other's tokens.
\<close>

section \<open>How each field is found\<close>

lemmas fold_defs = fold_name_def lower_char_def char_of_def bit_0

lemma foreign_keys:
  "key \<in> {''UserID'', ''Username'', ''RoleID'', ''IsVerify'', ''Email'', ''id'', ''onboarding_id'',
     ''email'', ''role'', ''is_verify''} \<Longrightarrow>
   key \<notin> set rfc_names \<and> fold_name key \<notin> set rfc_names"
  by (elim insertE emptyE; simp add: rfc_names_def fold_defs)

lemma access_keys:
  assumes "registered_ok L"
  shows
    "find_field (accessFields L) ''UserID'' = Some (into read_uint64 UserID (\<lambda>v c. c\<lparr>UserID := v\<rparr>))"
    "find_field (accessFields L) ''Username'' = Some (into read_string Username (\<lambda>v c. c\<lparr>Username := v\<rparr>))"
    "find_field (accessFields L) ''RoleID'' = Some (into read_uint64s RoleID (\<lambda>v c. c\<lparr>RoleID := v\<rparr>))"
    "find_field (accessFields L) ''IsVerify'' = Some (into read_bool IsVerify (\<lambda>v c. c\<lparr>IsVerify := v\<rparr>))"
    "find_field (accessFields L) ''id'' = None"
    "find_field (accessFields L) ''onboarding_id'' = None"
    "find_field (accessFields L) ''email'' = None"
    "find_field (accessFields L) ''role'' = None"
    "find_field (accessFields L) ''is_verify'' = None"
  unfolding accessFields_def
  by (simp_all add: find_own [OF assms] foreign_keys)
    (simp_all add: accessOwn_def find_field_def fold_defs)


lemma refresh_keys:
  assumes "registered_ok L"
  shows
    "find_field (refreshFields L) ''UserID'' = Some (into read_uint64 RefreshUserID (\<lambda>v c. c\<lparr>RefreshUserID := v\<rparr>))"
    "find_field (refreshFields L) ''Email'' = Some (into read_string Email (\<lambda>v c. c\<lparr>Email := v\<rparr>))"
    "find_field (refreshFields L) ''email'' = Some (into read_string Email (\<lambda>v c. c\<lparr>Email := v\<rparr>))"
    "find_field (refreshFields L) ''id'' = None"
  unfolding refreshFields_def
  by (simp_all add: find_own [OF assms] foreign_keys)
    (simp_all add: refreshOwn_def find_field_def fold_defs)

lemma access_wire_keys:
  assumes "registered_ok L"
  shows
    "find_field (accessWireFields L) ''id'' = Some (into read_uint64 wID (\<lambda>v c. c\<lparr>wID := v\<rparr>))"
    "find_field (accessWireFields L) ''onboarding_id'' =
       Some (into read_uint64 wOnboardingID (\<lambda>v c. c\<lparr>wOnboardingID := v\<rparr>))"
    "find_field (accessWireFields L) ''email'' = Some (into read_string wEmail (\<lambda>v c. c\<lparr>wEmail := v\<rparr>))"
    "find_field (accessWireFields L) ''role'' = Some (into read_string wRole (\<lambda>v c. c\<lparr>wRole := v\<rparr>))"
    "find_field (accessWireFields L) ''is_verify'' = Some (into read_bool wIsVerify (\<lambda>v c. c\<lparr>wIsVerify := v\<rparr>))"
    "find_field (accessWireFields L) ''UserID'' = Some (into read_uint64 wUserID (\<lambda>v c. c\<lparr>wUserID := v\<rparr>))"
    "find_field (accessWireFields L) ''IsVerify'' =
       Some (into read_bool wLegacyVerify (\<lambda>v c. c\<lparr>wLegacyVerify := v\<rparr>))"
    "find_field (accessWireFields L) ''Username'' = None"
    "find_field (accessWireFields L) ''RoleID'' = None"
  unfolding accessWireFields_def
  by (simp_all add: find_own [OF assms] foreign_keys)
    (simp_all add: accessWireOwn_def find_field_def fold_defs)

lemma refresh_wire_keys:
  assumes "registered_ok L"
  shows
    "find_field (refreshWireFields L) ''id'' = Some (into read_uint64 vID (\<lambda>v c. c\<lparr>vID := v\<rparr>))"
    "find_field (refreshWireFields L) ''email'' = Some (into read_string vEmail (\<lambda>v c. c\<lparr>vEmail := v\<rparr>))"
    "find_field (refreshWireFields L) ''Email'' = Some (into read_string vEmail (\<lambda>v c. c\<lparr>vEmail := v\<rparr>))"
    "find_field (refreshWireFields L) ''UserID'' = Some (into read_uint64 vUserID (\<lambda>v c. c\<lparr>vUserID := v\<rparr>))"
  unfolding refreshWireFields_def
  by (simp_all add: find_own [OF assms] foreign_keys)
    (simp_all add: refreshWireOwn_def find_field_def fold_defs)


section \<open>The registered claims at the end of an object\<close>

lemma read_registered_tails:
  assumes "registered_ok L"
  shows
    "AccessRegistered a = zeroRegistered \<Longrightarrow> read_members (accessFields L) (reg_members L r) a =
      (None, a\<lparr>AccessRegistered := r\<rparr>)"
    "RefreshRegistered b = zeroRegistered \<Longrightarrow> read_members (refreshFields L) (reg_members L r) b =
      (None, b\<lparr>RefreshRegistered := r\<rparr>)"
    "wRegistered c = zeroRegistered \<Longrightarrow> read_members (accessWireFields L) (reg_members L r) c =
      (None, c\<lparr>wRegistered := r\<rparr>)"
    "vRegistered d = zeroRegistered \<Longrightarrow> read_members (refreshWireFields L) (reg_members L r) d =
      (None, d\<lparr>vRegistered := r\<rparr>)"
  unfolding accessFields_def refreshFields_def accessWireFields_def refreshWireFields_def
  by (subst read_registered [OF assms]; simp add: rfc_names_def accessOwn_def refreshOwn_def
      accessWireOwn_def refreshWireOwn_def)+

lemmas read_simps = access_keys refresh_keys access_wire_keys refresh_wire_keys
  read_registered_tails

lemmas wire_defs = UnmarshalJSON_access_def MarshalJSON_access_def marshalAccessWire_def
  UnmarshalJSON_refresh_def MarshalJSON_refresh_def marshalRefreshWire_def
  marshalAccess_def marshalRefresh_def omitempty_def zeroAccessWire_def zeroRefreshWire_def
  zeroAccess_def zeroRefresh_def into_def json_uint64_def Let_def


section \<open>The default lifetimes\<close>

lemma default_lifetimes:
  "ParseDuration ''1h'' = Inr time_Hour" "ParseDuration ''10h'' = Inr (10 * time_Hour)"
proof -
  have printed: "duration_text [(1, ''h'')] = ''1h''" "duration_text [(10, ''h'')] = ''10h''" by code_simp+
  have "duration_value [(1, ''h'')] = 3600000000000" "duration_value [(10, ''h'')] = 36000000000000"
    by (simp_all add: unitMap_def)
  with ParseDuration_text(1) [of "[(1, ''h'')]"] ParseDuration_text(1) [of "[(10, ''h'')]"]
  show "ParseDuration ''1h'' = Inr time_Hour" "ParseDuration ''10h'' = Inr (10 * time_Hour)"
    unfolding printed by (simp_all add: unitMap_def time_Hour_def)
qed


section \<open>A JWT library for the witnesses\<close>

text \<open>The registered claims as RFC 7519 describes them; signing prefixes the key.\<close>

fun read_date :: "int option reader" where
  "read_date (JNum n) old = (None, Some n)"
| "read_date JNull old = (None, None)"
| "read_date _ old = (Some type_error, old)"

definition date_member :: "string \<Rightarrow> int option \<Rightarrow> (string \<times> json) list" where
  "date_member n d = (case d of None \<Rightarrow> [] | Some t \<Rightarrow> [(n, JNum t)])"

definition skip_claim :: "RegisteredClaims reader" where
  "skip_claim j r = (None, r)"

definition demo_jwt :: jwt_library where
  "demo_jwt = \<lparr>reg_members = (\<lambda>r. omitempty (Issuer r = '''') ''iss'' (JStr (Issuer r)) @
       omitempty (Subject r = '''') ''sub'' (JStr (Subject r)) @
       date_member ''exp'' (ExpiresAt r) @ date_member ''iat'' (IssuedAt r)),
     reg_readers = [(''iss'', into read_string Issuer (\<lambda>v r. r\<lparr>Issuer := v\<rparr>)),
       (''sub'', into read_string Subject (\<lambda>v r. r\<lparr>Subject := v\<rparr>)), (''aud'', skip_claim),
       (''exp'', into read_date ExpiresAt (\<lambda>v r. r\<lparr>ExpiresAt := v\<rparr>)), (''nbf'', skip_claim),
       (''iat'', into read_date IssuedAt (\<lambda>v r. r\<lparr>IssuedAt := v\<rparr>)), (''jti'', skip_claim)],
     NumericDate = (\<lambda>t. t div 1000000000),
     SignedString = (\<lambda>doc key. Inr (key @ ''.signed''))\<rparr>"

lemma demo_jwt_ok: "registered_ok demo_jwt"
proof -
  have names: "fst ` set (reg_members demo_jwt r) \<subseteq> set rfc_names" for r
    by (auto simp: demo_jwt_def omitempty_def date_member_def rfc_names_def split: option.splits if_splits)
  have "read_members (reg_readers demo_jwt) (reg_members demo_jwt r) zeroRegistered = (None, r)" for r
    by (cases r; cases "IssuedAt r"; cases "ExpiresAt r")
      (simp_all add: demo_jwt_def omitempty_def date_member_def zeroRegistered_def find_field_def
        into_def Let_def)
  with names show ?thesis by (auto simp: registered_ok_def) (auto simp: demo_jwt_def rfc_names_def)
qed


text \<open>Receivers with something in them before they are read into.\<close>

definition old_access :: JWTAccessClaim_v2 where
  "old_access = \<lparr>AID = 1, OnboardingID = 2, AEmail = ''old'', ARole = ''old'', AIsVerify = True,
     ARegistered = zeroRegistered\<rparr>"

definition old_refresh :: JWTRefreshClaim_v2 where
  "old_refresh = \<lparr>RID = 1, REmail = ''old'', RRegistered = zeroRegistered\<rparr>"


section \<open>Properties\<close>

text \<open>
  C23: Version 2 access and refresh tokens read back as the claims that were written:
  no field is lost, zero values included, and the duplicated v1 members do not
  interfere.
\<close>

theorem v2_roundtrip:
  assumes "registered_ok L"
  shows "UnmarshalJSON_access L (MarshalJSON_access L a) old = (None, a) \<and>
    UnmarshalJSON_refresh L (MarshalJSON_refresh L r) old' = (None, r)"
  by (cases a, cases r) (simp add: wire_defs read_simps [OF assms])

theorem v2_roundtrip_witness:
  "UnmarshalJSON_access demo_jwt (MarshalJSON_access demo_jwt
      \<lparr>AID = 7, OnboardingID = 0, AEmail = ''a'', ARole = '''', AIsVerify = True,
       ARegistered = zeroRegistered\<rparr>) old_access =
     (None, \<lparr>AID = 7, OnboardingID = 0, AEmail = ''a'', ARole = '''', AIsVerify = True,
       ARegistered = zeroRegistered\<rparr>) \<and>
   UnmarshalJSON_refresh demo_jwt (MarshalJSON_refresh demo_jwt
      \<lparr>RID = 7, REmail = ''a'', RRegistered = zeroRegistered\<rparr>) old_refresh =
     (None, \<lparr>RID = 7, REmail = ''a'', RRegistered = zeroRegistered\<rparr>)"
  by (rule v2_roundtrip [OF demo_jwt_ok])

text \<open>
  C24: A version 1 service reads a version 2 token: the v1 claim type finds the user
  id, the verification flag, the email of a refresh token and the registered claims;
  username and roles, which v2 has not, are empty.
\<close>

theorem v1_reads_v2:
  assumes "registered_ok L"
  shows "read_struct (accessFields L) (MarshalJSON_access L a) zeroAccess =
      (None, \<lparr>UserID = AID a, Username = '''', RoleID = None, IsVerify = AIsVerify a,
        AccessRegistered = ARegistered a\<rparr>) \<and>
    read_struct (refreshFields L) (MarshalJSON_refresh L r) zeroRefresh =
      (None, \<lparr>RefreshUserID = RID r, Email = REmail r, RefreshRegistered = RRegistered r\<rparr>)"
  by (cases a, cases r) (simp add: wire_defs read_simps [OF assms])

theorem v1_reads_v2_witness:
  "read_struct (accessFields demo_jwt) (MarshalJSON_access demo_jwt
      \<lparr>AID = 7, OnboardingID = 3, AEmail = ''a'', ARole = ''admin'', AIsVerify = True,
       ARegistered = zeroRegistered\<rparr>) zeroAccess =
     (None, \<lparr>UserID = 7, Username = '''', RoleID = None, IsVerify = True,
        AccessRegistered = zeroRegistered\<rparr>) \<and>
   read_struct (refreshFields demo_jwt) (MarshalJSON_refresh demo_jwt
      \<lparr>RID = 7, REmail = ''a'', RRegistered = zeroRegistered\<rparr>) zeroRefresh =
     (None, \<lparr>RefreshUserID = 7, Email = ''a'', RefreshRegistered = zeroRegistered\<rparr>)"
  using v1_reads_v2 [OF demo_jwt_ok, of "\<lparr>AID = 7, OnboardingID = 3, AEmail = ''a'', ARole = ''admin'',
      AIsVerify = True, ARegistered = zeroRegistered\<rparr>"
      "\<lparr>RID = 7, REmail = ''a'', RRegistered = zeroRegistered\<rparr>"] by simp

text \<open>
  C25: A version 2 service reads a version 1 token: the id comes from the v1 member
  \<open>UserID\<close>, the flag from \<open>IsVerify\<close>, the email from \<open>Email\<close>; username and roles are dropped.
\<close>

theorem v2_reads_v1:
  assumes "registered_ok L"
  shows "UnmarshalJSON_access L (marshalAccess L a) old =
      (None, \<lparr>AID = UserID a, OnboardingID = 0, AEmail = '''', ARole = '''', AIsVerify = IsVerify a,
        ARegistered = AccessRegistered a\<rparr>) \<and>
    UnmarshalJSON_refresh L (marshalRefresh L r) old' =
      (None, \<lparr>RID = RefreshUserID r, REmail = Email r, RRegistered = RefreshRegistered r\<rparr>)"
  by (cases a, cases r) (simp add: wire_defs read_simps [OF assms])

theorem v2_reads_v1_witness:
  "UnmarshalJSON_access demo_jwt (marshalAccess demo_jwt
      \<lparr>UserID = 9, Username = ''u'', RoleID = Some [1], IsVerify = False,
       AccessRegistered = zeroRegistered\<rparr>) old_access =
     (None, \<lparr>AID = 9, OnboardingID = 0, AEmail = '''', ARole = '''', AIsVerify = False,
        ARegistered = zeroRegistered\<rparr>) \<and>
   UnmarshalJSON_refresh demo_jwt (marshalRefresh demo_jwt
      \<lparr>RefreshUserID = 9, Email = ''e'', RefreshRegistered = zeroRegistered\<rparr>) old_refresh =
     (None, \<lparr>RID = 9, REmail = ''e'', RRegistered = zeroRegistered\<rparr>)"
  using v2_reads_v1 [OF demo_jwt_ok, of "\<lparr>UserID = 9, Username = ''u'', RoleID = Some [1],
      IsVerify = False, AccessRegistered = zeroRegistered\<rparr>" old_access
      "\<lparr>RefreshUserID = 9, Email = ''e'', RefreshRegistered = zeroRegistered\<rparr>" old_refresh] by simp

text \<open>
  Version 1 claims read back as they were written, the list of roles included.
\<close>

theorem v1_roundtrip:
  assumes "registered_ok L"
  shows "read_struct (accessFields L) (marshalAccess L a) zeroAccess = (None, a) \<and>
    read_struct (refreshFields L) (marshalRefresh L r) zeroRefresh = (None, r)"
proof -
  have roles: "map json_uint64 ws = map (\<lambda>w. JNum (uint w)) ws" for ws
    by (simp add: json_uint64_def)
  show ?thesis
    by (cases a, cases r, cases "RoleID a")
      (simp_all add: wire_defs roles read_simps [OF assms] read_elements_map)
qed

theorem v1_roundtrip_witness:
  "read_struct (accessFields demo_jwt) (marshalAccess demo_jwt
      \<lparr>UserID = 9, Username = ''u'', RoleID = Some [1, 2], IsVerify = True,
       AccessRegistered = zeroRegistered\<rparr>) zeroAccess =
     (None, \<lparr>UserID = 9, Username = ''u'', RoleID = Some [1, 2], IsVerify = True,
       AccessRegistered = zeroRegistered\<rparr>) \<and>
   read_struct (refreshFields demo_jwt) (marshalRefresh demo_jwt
      \<lparr>RefreshUserID = 9, Email = ''e'', RefreshRegistered = zeroRegistered\<rparr>) zeroRefresh =
     (None, \<lparr>RefreshUserID = 9, Email = ''e'', RefreshRegistered = zeroRegistered\<rparr>)"
  by (rule v1_roundtrip [OF demo_jwt_ok])

text \<open>
  C26: The tokens \<open>GenerateTokens\<close> of version 2 issues are both empty or both signed
  over documents that a version 1 service reads as the same user, verification flag
  and email, issued by \<open>auth-service\<close>.
\<close>

theorem v2_tokens_serve_v1:
  assumes "registered_ok L"
    and "GenerateTokens_v2 L key exp rexp now cid email onb role verified = (at, rt)"
    and "at \<noteq> '''' \<or> rt \<noteq> ''''"
  shows "\<exists>adoc rdoc ac rc. SignedString L adoc key = Inr at \<and> SignedString L rdoc key = Inr rt \<and>
    read_struct (accessFields L) adoc zeroAccess = (None, ac) \<and>
    read_struct (refreshFields L) rdoc zeroRefresh = (None, rc) \<and>
    UserID ac = cid \<and> IsVerify ac = verified \<and> RefreshUserID rc = cid \<and> Email rc = email \<and>
    Issuer (AccessRegistered ac) = ''auth-service'' \<and> Subject (RefreshRegistered rc) = ''refresh-token''"
proof -
  let ?a = "\<lambda>d. accessClaims_v2 L now d cid email onb role verified"
  let ?r = "\<lambda>d. refreshClaims_v2 L now d cid email"
  from assms(2,3) obtain d d' where
    signed: "SignedString L (MarshalJSON_access L (?a d)) key = Inr at"
      "SignedString L (MarshalJSON_refresh L (?r d')) key = Inr rt"
    unfolding GenerateTokens_v2_def Let_def by (auto split: sum.splits)
  let ?ac = "\<lparr>UserID = AID (?a d), Username = '''', RoleID = None, IsVerify = AIsVerify (?a d),
      AccessRegistered = ARegistered (?a d)\<rparr>"
  let ?rc = "\<lparr>RefreshUserID = RID (?r d'), Email = REmail (?r d'), RefreshRegistered = RRegistered (?r d')\<rparr>"
  have reads: "read_struct (accessFields L) (MarshalJSON_access L (?a d)) zeroAccess = (None, ?ac)"
    "read_struct (refreshFields L) (MarshalJSON_refresh L (?r d')) zeroRefresh = (None, ?rc)"
    by (cases "?a d", cases "?r d'", simp add: wire_defs read_simps [OF assms(1)])+
  have "UserID ?ac = cid \<and> IsVerify ?ac = verified \<and> RefreshUserID ?rc = cid \<and> Email ?rc = email \<and>
      Issuer (AccessRegistered ?ac) = ''auth-service'' \<and>
      Subject (RefreshRegistered ?rc) = ''refresh-token''"
    by (simp add: accessClaims_v2_def refreshClaims_v2_def)
  with signed reads show ?thesis by blast
qed

theorem v2_tokens_serve_v1_witness:
  "\<exists>adoc rdoc ac rc. SignedString demo_jwt adoc ''k'' = Inr ''k.signed'' \<and>
    SignedString demo_jwt rdoc ''k'' = Inr ''k.signed'' \<and>
    read_struct (accessFields demo_jwt) adoc zeroAccess = (None, ac) \<and>
    read_struct (refreshFields demo_jwt) rdoc zeroRefresh = (None, rc) \<and>
    UserID ac = 5 \<and> IsVerify ac = True \<and> RefreshUserID rc = 5 \<and> Email rc = ''e'' \<and>
    Issuer (AccessRegistered ac) = ''auth-service'' \<and> Subject (RefreshRegistered rc) = ''refresh-token''"
  by (rule v2_tokens_serve_v1 [OF demo_jwt_ok, where exp = "''''" and rexp = "''''" and now = "\<lambda>i. 0" and onb = 0 and role = "''''"])
    (simp_all add: GenerateTokens_v2_def default_lifetimes demo_jwt_def)










end
