(* ===== verification/Db_Repository.thy ===== *)
theory Db_Repository
  imports Go_Fmt
begin

text \<open>
  \<open>db/repository.go\<close>: the generic repository functions. \<open>database/sql\<close> is the record
  \<open>Trigger\<close> of functions on a world; a row is the list of its column values, a struct
  the list of its field values, and \<open>scan\<close> stores a row through a list of pointers.
  The state counts the statements and result sets the code holds open.
\<close>

section \<open>Constants (repository.go)\<close>

definition selectQuery :: string where "selectQuery = ''SELECT''"
definition insertQuery :: string where "insertQuery = ''INSERT''"
definition updateQuery :: string where "updateQuery = ''UPDATE''"
definition deleteQuery :: string where "deleteQuery = ''DELETE''"

definition MySQL :: int where "MySQL = 1"
definition PostgreSQL :: int where "PostgreSQL = 2"

lemmas query_defs = selectQuery_def insertQuery_def updateQuery_def deleteQuery_def

definition ErrConnDone :: go_error where
  "ErrConnDone = External ''sql: connection is already closed''"
definition ErrNoRows :: go_error where
  "ErrNoRows = External ''sql: no rows in result set''"


section \<open>The interface Trigger\<close>

record ('v, 'st, 'w) Trigger =
  PrepareContext :: "string \<Rightarrow> 'w \<Rightarrow> (go_error + 'st) \<times> 'w"
  ExecContext :: "string \<Rightarrow> 'v list \<Rightarrow> 'w \<Rightarrow> err \<times> 'w"
  QueryContext :: "string \<Rightarrow> 'v list \<Rightarrow> 'w \<Rightarrow> (go_error + ('v list list \<times> err)) \<times> 'w"
  QueryRowContext :: "string \<Rightarrow> 'v list \<Rightarrow> 'w \<Rightarrow> (go_error + 'v list) \<times> 'w"
  stmt_ExecContext :: "'st \<Rightarrow> 'v list \<Rightarrow> 'w \<Rightarrow> (go_error + (go_error + int64)) \<times> 'w"
  stmt_QueryRowContext :: "'st \<Rightarrow> 'v list \<Rightarrow> 'w \<Rightarrow> (go_error + 'v list) \<times> 'w"
  scan :: "'v list \<Rightarrow> 'v list \<Rightarrow> err \<times> 'v list"
  scan_uint64 :: "'v list \<Rightarrow> go_error + uint64"
  of_uint64 :: "uint64 \<Rightarrow> 'v"

text \<open>
  The other interfaces of the file, which the package declares for its users and does not
  implement; \<^typ>\<open>'t\<close> is the entity, a nil pointer \<^term>\<open>None\<close>.
\<close>

record ('t, 'w) Many2ManyRepository =
  mm_Save :: "'t option list \<Rightarrow> 'w \<Rightarrow> ('t option \<times> err) \<times> 'w"

record ('t, 'w) Saver =
  sv_Save :: "'t option \<Rightarrow> 'w \<Rightarrow> ('t option \<times> err) \<times> 'w"

record ('t, 'w) Finder =
  fd_FindByID :: "uint64 \<Rightarrow> 'w \<Rightarrow> ('t option \<times> err) \<times> 'w"
  fd_FindAll :: "uint64 \<Rightarrow> uint64 \<Rightarrow> 'w \<Rightarrow> ('t option list \<times> err) \<times> 'w"

record ('t, 'w) Updater =
  up_Update :: "'t option \<Rightarrow> 'w \<Rightarrow> ('t option \<times> err) \<times> 'w"

record 'w Deleter =
  dl_DeleteByID :: "uint64 \<Rightarrow> 'w \<Rightarrow> err \<times> 'w"

record 'w Transaction =
  tx_RunInTx :: "('w \<Rightarrow> err \<times> 'w) \<Rightarrow> 'w \<Rightarrow> err \<times> 'w"

record 'w Index =
  ix_CreateIndex :: "'w \<Rightarrow> err \<times> 'w"
  ix_DropIndex :: "'w \<Rightarrow> err \<times> 'w"

record 'w dbstate =
  db_world :: 'w
  open_stmts :: nat
  open_rows :: nat

text \<open>A prepared statement is open until \<open>Close\<close>.\<close>

definition prepare ::
    "('v, 'st, 'w) Trigger \<Rightarrow> string \<Rightarrow> 'w dbstate \<Rightarrow> (go_error + 'st) \<times> 'w dbstate" where
  "prepare T query s =
    (case PrepareContext T query (db_world s) of
       (Inl e, w) \<Rightarrow> (Inl e, s\<lparr>db_world := w\<rparr>)
     | (Inr st, w) \<Rightarrow> (Inr st, s\<lparr>db_world := w, open_stmts := open_stmts s + 1\<rparr>))"

definition stmt_Close :: "'w dbstate \<Rightarrow> 'w dbstate" where
  "stmt_Close s = s\<lparr>open_stmts := open_stmts s - 1\<rparr>"

text \<open>Some function of the interface on the world, without a statement of its own.\<close>

definition on_world :: "('w \<Rightarrow> 'a \<times> 'w) \<Rightarrow> 'w dbstate \<Rightarrow> 'a \<times> 'w dbstate" where
  "on_world f s = (let (a, w) = f (db_world s) in (a, s\<lparr>db_world := w\<rparr>))"


section \<open>Validation\<close>

definition QueryValidation :: "string \<Rightarrow> string \<Rightarrow> err" where
  "QueryValidation query command =
    (if \<not> strings_contains query command then Some (Errorf ''the query command is not valid'') else None)"

definition CheckDriverBasedExpression :: "string \<Rightarrow> int" where
  "CheckDriverBasedExpression query =
    (if strings_contains query ''?'' then MySQL
     else if strings_contains query ''$'' then PostgreSQL
     else 0)"


section \<open>Save\<close>

definition saveMySQL ::
    "('v, 'st, 'w) Trigger \<Rightarrow> string \<Rightarrow> 'v list \<Rightarrow> 'w dbstate \<Rightarrow> (go_error + uint64) \<times> 'w dbstate" where
  "saveMySQL db query requests s =
    (case QueryValidation query insertQuery of
       Some e \<Rightarrow> (Inl e, s)
     | None \<Rightarrow>
        (case prepare db query s of
           (Inl e, s1) \<Rightarrow> (Inl e, s1)
         | (Inr stmt, s1) \<Rightarrow>
            (case on_world (stmt_ExecContext db stmt requests) s1 of
               (Inl e, s2) \<Rightarrow> (Inl e, stmt_Close s2)
             | (Inr lastInsertId, s2) \<Rightarrow>
                (case lastInsertId of
                   Inl e \<Rightarrow> (Inl e, stmt_Close s2)
                 | Inr rid \<Rightarrow> (Inr rid, stmt_Close s2)))))"

definition savePostgres ::
    "('v, 'st, 'w) Trigger \<Rightarrow> string \<Rightarrow> 'v list \<Rightarrow> 'w dbstate \<Rightarrow> (go_error + uint64) \<times> 'w dbstate" where
  "savePostgres db query requests s =
    (case QueryValidation query insertQuery of
       Some e \<Rightarrow> (Inl e, s)
     | None \<Rightarrow>
        (case on_world (QueryRowContext db query requests) s of
           (Inl e, s1) \<Rightarrow> (Inl e, s1)
         | (Inr row, s1) \<Rightarrow>
            (case scan_uint64 db row of
               Inl e \<Rightarrow> (Inl e, s1)
             | Inr rid \<Rightarrow> (Inr rid, s1))))"

definition Save ::
    "('v, 'st, 'w) Trigger \<Rightarrow> string \<Rightarrow> 'v list \<Rightarrow> 'w dbstate \<Rightarrow> (go_error + uint64) \<times> 'w dbstate" where
  "Save db query requests s =
    (if CheckDriverBasedExpression query = MySQL then saveMySQL db query requests s
     else if CheckDriverBasedExpression query = PostgreSQL then savePostgres db query requests s
     else (Inl ErrConnDone, s))"


section \<open>FindAll\<close>

text \<open>
  The loop over the rows scans each of them through the same pointers \<open>ptrs\<close> and
  copies what they point to. It ends by \<open>Next\<close> returning false, which closes the
  result set and whose error \<open>rows.Err\<close> is not read, or by a scan error.
\<close>

fun scanRows ::
    "('v, 'st, 'w) Trigger \<Rightarrow> 'v list list \<Rightarrow> 'v list \<Rightarrow> 'v list list \<Rightarrow> go_error + 'v list list" where
  "scanRows db [] ptrs result = Inr result"
| "scanRows db (row # rows) ptrs result =
    (case scan db row ptrs of
       (Some e, ptrs') \<Rightarrow> Inl e
     | (None, ptrs') \<Rightarrow> scanRows db rows ptrs' (result @ [ptrs']))"

definition FindAll ::
    "('v, 'st, 'w) Trigger \<Rightarrow> 'v list \<Rightarrow> string \<Rightarrow> 'w dbstate \<Rightarrow> (go_error + 'v list list) \<times> 'w dbstate" where
  "FindAll db zero query s =
    (case QueryValidation query selectQuery of
       Some e \<Rightarrow> (Inl e, s)
     | None \<Rightarrow>
        (case on_world (QueryContext db query []) s of
           (Inl e, s1) \<Rightarrow> (Inl e, s1)
         | (Inr (rows, rowsErr), s1) \<Rightarrow>
            (case scanRows db rows zero [] of
               Inl e \<Rightarrow> (Inl e, s1\<lparr>open_rows := open_rows s1 + 1\<rparr>)
             | Inr result \<Rightarrow> (Inr result, s1))))"


section \<open>Delete, FindByID, Update\<close>

definition deleteText :: "string \<Rightarrow> uint64 \<Rightarrow> string" where
  "deleteText table rid = Sprintf ''DELETE FROM %s WHERE id = ?'' [FString table, FUint64 rid]"

definition Delete ::
    "('v, 'st, 'w) Trigger \<Rightarrow> string \<Rightarrow> uint64 \<Rightarrow> 'w dbstate \<Rightarrow> err \<times> 'w dbstate" where
  "Delete db table rid s = on_world (ExecContext db (deleteText table rid) [of_uint64 db rid]) s"

text \<open>The error \<open>FindByID\<close> makes of a scan error.\<close>

definition findError :: "uint64 \<Rightarrow> go_error \<Rightarrow> go_error" where
  "findError rid e =
    (if errors_is e ErrNoRows then Wrapf (''no rows found for ID '' @ uint64_text rid @ '': '') e
     else Wrapf (''failed to scan result for ID '' @ uint64_text rid @ '': '') e)"

text \<open>
  \<open>FindByID\<close>: the result is a pointer, nil or to a struct with the given fields; it
  is returned with what the call left in it.
\<close>

definition FindByID ::
    "('v, 'st, 'w) Trigger \<Rightarrow> string \<Rightarrow> uint64 \<Rightarrow> 'v list option \<Rightarrow> 'w dbstate
       \<Rightarrow> (err \<times> 'v list option) \<times> 'w dbstate" where
  "FindByID db query rid result s =
    (case QueryValidation query selectQuery of
       Some e \<Rightarrow> ((Some (Wrapf ''query validation failed: '' e), result), s)
     | None \<Rightarrow>
        (case prepare db query s of
           (Inl e, s1) \<Rightarrow> ((Some (Wrapf ''failed to prepare context: '' e), result), s1)
         | (Inr stmt, s1) \<Rightarrow>
            (case result of
               None \<Rightarrow> ((Some (Errorf ''result argument must be a non-nil pointer''), None), stmt_Close s1)
             | Some cur \<Rightarrow>
                (let (row, s2) = on_world (stmt_QueryRowContext db stmt [of_uint64 db rid]) s1;
                     (e, cur') = (case row of Inl e \<Rightarrow> (Some e, cur) | Inr vs \<Rightarrow> scan db vs cur)
                 in ((map_option (findError rid) e, Some cur'), stmt_Close s2)))))"

definition Update ::
    "('v, 'st, 'w) Trigger \<Rightarrow> string \<Rightarrow> 'v list \<Rightarrow> 'w dbstate \<Rightarrow> err \<times> 'w dbstate" where
  "Update db query requests s =
    (case QueryValidation query updateQuery of
       Some e \<Rightarrow> (Some e, s)
     | None \<Rightarrow> on_world (ExecContext db query requests) s)"

end
