(* ===== verification/Db_Client.thy ===== *)
theory Db_Client
  imports Go_Fmt
begin

text \<open>
  \<open>db/db.go\<close> and \<open>db/migration.go\<close>: opening a pooled connection from a configuration,
  and running the registered migrations. \<open>database/sql\<close> is the record \<open>sql_pkg\<close>.
\<close>

section \<open>Configuration (db.go)\<close>

record DBConfig =
  Db :: string
  DbUser :: string
  DbPass :: string
  DbName :: string
  DbHost :: string
  SSLMode :: string
  MaxIdleConns :: int
  MaxOpenConns :: int
  ConnMaxLifeTime :: int64
  ConnMaxIdleTime :: int64

text \<open>
  A \<open>*sql.DB\<close> is known by the number of its opening, and carries its settings;
  durations are 64-bit nanoseconds.
\<close>

record pool =
  pool_id :: nat
  pool_driver :: string
  pool_dsn :: string
  pool_MaxIdleConns :: int
  pool_MaxOpenConns :: int
  pool_ConnMaxLifetime :: int64
  pool_ConnMaxIdleTime :: int64

definition time_Minute :: int64 where
  "time_Minute = 60 * 1000000000"

text \<open>
  \<open>sql.Open\<close> makes a pool or fails; \<open>Ping\<close> returns an error or nil. The state records, for
  each pool made so far, whether it is open; closing one that is closed does nothing.
\<close>

record 'w sql_pkg =
  sql_Open :: "string \<Rightarrow> string \<Rightarrow> 'w \<Rightarrow> err \<times> 'w"
  sql_Ping :: "pool \<Rightarrow> 'w \<Rightarrow> err \<times> 'w"

record 'w pools =
  pools_world :: 'w
  opened :: "bool list"

definition open_pools :: "'w pools \<Rightarrow> nat set" where
  "open_pools s = {i. i < length (opened s) \<and> opened s ! i}"

definition Close :: "pool \<Rightarrow> 'w pools \<Rightarrow> 'w pools" where
  "Close db s = s\<lparr>opened := (opened s)[pool_id db := False]\<rparr>"

definition openDriver :: "string \<Rightarrow> string option" where
  "openDriver d = (if d = ''mysql'' then Some ''mysql''
     else if d = ''postgresql'' then Some ''postgres'' else None)"

definition sslModes :: "string list" where
  "sslModes = [''disable'', ''allow'', ''prefer'', ''require'', ''verify-ca'', ''verify-full'']"

definition dsn :: "DBConfig \<Rightarrow> string \<Rightarrow> string" where
  "dsn config sslMode = Sprintf ''%s://%s:%s@%s/%s?sslmode=%s''
     [FString (Db config), FString (DbUser config), FString (DbPass config),
      FString (DbHost config), FString (DbName config), FString sslMode]"

definition NewMYSQLClient ::
    "'w sql_pkg \<Rightarrow> DBConfig \<Rightarrow> 'w pools \<Rightarrow> (go_error + pool) \<times> 'w pools" where
  "NewMYSQLClient P config s =
    (case openDriver (Db config) of
       None \<Rightarrow> (Inl (Errorf ''invalid db''), s)
     | Some openConnectDB \<Rightarrow>
        (let sslMode = (if SSLMode config = '''' then ''require'' else SSLMode config)
         in if sslMode \<notin> set sslModes then (Inl (Errorf ''invalid sslmode''), s)
            else
              (let conn = dsn config sslMode
               in (case sql_Open P openConnectDB conn (pools_world s) of
                     (Some e, w) \<Rightarrow> (Inl e, s\<lparr>pools_world := w\<rparr>)
                   | (None, w) \<Rightarrow>
                      (let db = \<lparr>pool_id = length (opened s), pool_driver = openConnectDB, pool_dsn = conn,
                             pool_MaxIdleConns = MaxIdleConns config,
                             pool_MaxOpenConns = MaxOpenConns config,
                             pool_ConnMaxLifetime = ConnMaxLifeTime config * time_Minute,
                             pool_ConnMaxIdleTime = ConnMaxIdleTime config * time_Minute\<rparr>;
                           s1 = s\<lparr>pools_world := w, opened := opened s @ [True]\<rparr>
                       in (case sql_Ping P db (pools_world s1) of
                             (Some e, w') \<Rightarrow> (Inl e, Close db (s1\<lparr>pools_world := w'\<rparr>))
                           | (None, w') \<Rightarrow> (Inr db, s1\<lparr>pools_world := w'\<rparr>)))))))"

definition Ping :: "'w sql_pkg \<Rightarrow> pool \<Rightarrow> 'w pools \<Rightarrow> err \<times> 'w pools" where
  "Ping P db s = (let (e, w) = sql_Ping P db (pools_world s) in (e, s\<lparr>pools_world := w\<rparr>))"


text \<open>The \<open>*sql.DB\<close> of a client.\<close>

definition Client :: "pool \<Rightarrow> pool" where
  "Client db = db"

text \<open>The interface \<open>DBClient\<close>, and a \<open>*dbClient\<close> as a value of it.\<close>

record 'w DBClient =
  dc_Close :: "'w pools \<Rightarrow> 'w pools"
  dc_Ping :: "'w pools \<Rightarrow> err \<times> 'w pools"
  dc_Client :: pool

definition dbClient_DBClient :: "'w sql_pkg \<Rightarrow> pool \<Rightarrow> 'w DBClient" where
  "dbClient_DBClient P db = \<lparr>dc_Close = Close db, dc_Ping = Ping P db, dc_Client = Client db\<rparr>"


section \<open>Migrations (migration.go)\<close>

record 'w MigrationWorker =
  DBClient :: "'w DBClient"
  Tables :: "string list"

definition InitMigrationWorker :: "'w DBClient \<Rightarrow> 'w MigrationWorker" where
  "InitMigrationWorker dbClient = \<lparr>DBClient = dbClient, Tables = []\<rparr>"

fun registerLoop :: "string list \<Rightarrow> 'w MigrationWorker \<Rightarrow> 'w MigrationWorker" where
  "registerLoop [] m = m"
| "registerLoop (query # queries) m = registerLoop queries (m\<lparr>Tables := Tables m @ [query]\<rparr>)"

definition RegisterMigration :: "string list \<Rightarrow> 'w MigrationWorker \<Rightarrow> 'w MigrationWorker" where
  "RegisterMigration queries m = registerLoop queries m"

text \<open>\<open>exec\<close> is \<open>ExecContext\<close> of a \<open>*sql.DB\<close>.\<close>

fun migrationLoop :: "(string \<Rightarrow> 'w \<Rightarrow> err \<times> 'w) \<Rightarrow> string list \<Rightarrow> 'w \<Rightarrow> err \<times> 'w" where
  "migrationLoop exec [] w = (None, w)"
| "migrationLoop exec (migration # rest) w =
    (case exec migration w of
       (Some e, w') \<Rightarrow> (Some e, w')
     | (None, w') \<Rightarrow> migrationLoop exec rest w')"

definition Migration :: "(pool \<Rightarrow> string \<Rightarrow> 'w \<Rightarrow> err \<times> 'w) \<Rightarrow> 'w MigrationWorker \<Rightarrow> 'w \<Rightarrow> err \<times> 'w" where
  "Migration exec m w = migrationLoop (exec (dc_Client (DBClient m))) (Tables m) w"

end
