(* ===== verification/Db_Properties.thy ===== *)
theory Db_Properties
  imports Db_Repository Db_Client
begin

text \<open>
  Properties of the database package: statements are closed on every path, invalid
  queries are not sent, what \<open>FindAll\<close> returns and leaves open, the text \<open>Delete\<close>
  sends, the errors of \<open>FindByID\<close>, and the life of a connection pool.
\<close>

section \<open>Statements and result sets\<close>

lemma on_world_open [simp]:
  "open_stmts (snd (on_world f s)) = open_stmts s" "open_rows (snd (on_world f s)) = open_rows s"
  by (simp_all add: on_world_def split: prod.splits)

lemma on_world_pair:
  assumes "on_world f s = (a, s')"
  shows "open_stmts s' = open_stmts s" "open_rows s' = open_rows s"
  using on_world_open [of f s] assms by simp_all

lemma prepare_open:
  assumes "prepare T q s = (r, s')"
  shows "open_stmts s' = (case r of Inl _ \<Rightarrow> open_stmts s | Inr _ \<Rightarrow> open_stmts s + 1)"
    and "open_rows s' = open_rows s"
  using assms by (auto simp: prepare_def split: prod.splits sum.splits)

lemma stmt_Close_open [simp]:
  "open_stmts (stmt_Close s) = open_stmts s - 1" "open_rows (stmt_Close s) = open_rows s"
  by (simp_all add: stmt_Close_def)

lemmas open_splits = prod.splits sum.splits option.splits

lemma saveMySQL_open: "open_stmts (snd (saveMySQL db q rs s)) = open_stmts s"
  by (auto simp: saveMySQL_def split: open_splits dest!: on_world_pair(1) prepare_open(1))

lemma savePostgres_open: "open_stmts (snd (savePostgres db q rs s)) = open_stmts s"
  by (auto simp: savePostgres_def split: open_splits dest!: on_world_pair(1))

lemma FindAll_open: "open_stmts (snd (FindAll db z q s)) = open_stmts s"
  by (auto simp: FindAll_def split: open_splits dest!: on_world_pair(1))

lemma FindByID_open: "open_stmts (snd (FindByID db q rid res s)) = open_stmts s"
  by (auto simp: FindByID_def Let_def split: open_splits dest!: on_world_pair(1) prepare_open(1))

text \<open>
  C32: Every statement the repository prepares is closed again, on every path of
  every function, errors included.
\<close>

theorem statements_closed:
  "open_stmts (snd (Save db q rs s)) = open_stmts s \<and>
   open_stmts (snd (FindAll db z q s)) = open_stmts s \<and>
   open_stmts (snd (FindByID db q rid res s)) = open_stmts s \<and>
   open_stmts (snd (Delete db q rid s)) = open_stmts s \<and>
   open_stmts (snd (Update db q rs s)) = open_stmts s"
  by (simp add: Save_def saveMySQL_open savePostgres_open FindAll_open FindByID_open Delete_def
      Update_def split: option.splits)

text \<open>
  A query that does not contain the command its function expects is refused
  before the database is touched: the error is returned and the state is unchanged.
\<close>

theorem invalid_query_not_sent:
  "(strings_contains q ''INSERT'' \<or> (\<exists>e. Save db q rs s = (Inl e, s))) \<and>
   (strings_contains q ''SELECT'' \<or> (\<exists>e. FindAll db z q s = (Inl e, s))) \<and>
   (strings_contains q ''SELECT'' \<or> (\<exists>e. FindByID db q rid res s = ((Some e, res), s))) \<and>
   (strings_contains q ''UPDATE'' \<or> (\<exists>e. Update db q rs s = (Some e, s)))"
  by (simp add: Save_def saveMySQL_def savePostgres_def FindAll_def FindByID_def Update_def
      QueryValidation_def query_defs)

text \<open>
  \<open>Save\<close> chooses the driver by the first kind of placeholder: a query with a
  question mark anywhere is prepared as MySQL, even beside dollar placeholders; only
  without one is it sent as PostgreSQL; without placeholders it is refused with
  \<open>ErrConnDone\<close>.
\<close>

theorem Save_routing:
  "Save db q rs s =
    (if CHR ''?'' \<in> set q then saveMySQL db q rs s
     else if CHR ''$'' \<in> set q then savePostgres db q rs s
     else (Inl ErrConnDone, s))"
  by (simp add: Save_def CheckDriverBasedExpression_def strings_contains_char MySQL_def PostgreSQL_def)


section \<open>Rows\<close>

lemma scanRows_map:
  assumes "\<And>row ptrs. scan db row ptrs = (None, conv row)"
  shows "scanRows db rows ptrs acc = Inr (acc @ map conv rows)"
  by (induction rows arbitrary: ptrs acc) (simp_all add: assms)

text \<open>
  Although every row is scanned through the same pointers, \<open>FindAll\<close> returns
  each row's own values, in order, with no result set left open; an error that ended
  the iteration early is not reported: the rows read so far are returned as success.
\<close>

theorem FindAll_rows:
  assumes "strings_contains q ''SELECT''"
    and "QueryContext db q [] (db_world s) = (Inr (rows, rowsErr), w)"
    and "\<And>row ptrs. scan db row ptrs = (None, conv row)"
  shows "FindAll db z q s = (Inr (map conv rows), s\<lparr>db_world := w\<rparr>)"
  using assms(1,2)
  by (simp add: FindAll_def QueryValidation_def query_defs on_world_def scanRows_map [OF assms(3)])

text \<open>A database for the witnesses: two rows, and a connection that breaks after them.\<close>

definition demo_db :: "(nat, unit, nat) Trigger" where
  "demo_db = \<lparr>PrepareContext = (\<lambda>q w. (Inr (), w + 1)), ExecContext = (\<lambda>q vs w. (None, w + 1)),
     QueryContext = (\<lambda>q vs w. (Inr ([[1, 2], [3, 4]], Some (External ''bad connection'')), w + 1)),
     QueryRowContext = (\<lambda>q vs w. (Inr [1], w + 1)),
     stmt_ExecContext = (\<lambda>st vs w. (Inr (Inr 1), w + 1)),
     stmt_QueryRowContext = (\<lambda>st vs w. (Inl ErrNoRows, w + 1)),
     scan = (\<lambda>row ptrs. (None, row)), scan_uint64 = (\<lambda>row. Inr 1), of_uint64 = unat\<rparr>"

definition demo_dbstate :: "nat dbstate" where
  "demo_dbstate = \<lparr>db_world = 0, open_stmts = 0, open_rows = 0\<rparr>"

theorem FindAll_rows_witness:
  "FindAll demo_db [0, 0] ''SELECT a, b FROM t'' demo_dbstate =
     (Inr (map (\<lambda>row. row) [[1, 2], [3, 4]]), demo_dbstate\<lparr>db_world := 1\<rparr>)"
  by (rule FindAll_rows [where rowsErr = "Some (External ''bad connection'')"])
    (simp_all add: demo_db_def demo_dbstate_def)

lemma scanRows_error:
  assumes "\<And>r p. r \<in> set before \<Longrightarrow> scan db r p = (None, conv r)"
    and "\<And>p. \<exists>p'. scan db row p = (Some e, p')"
  shows "scanRows db (before @ row # rest) ptrs acc = Inl e"
  using assms(1)
proof (induction before arbitrary: ptrs acc)
  case Nil
  then show ?case using assms(2) [of ptrs] by auto
qed simp

text \<open>
  If a row cannot be scanned, \<open>FindAll\<close> returns that error and no rows, and the
  result set stays open: nothing closes it, so its connection is not given back.
\<close>

theorem FindAll_scan_error_leaks:
  assumes "strings_contains q ''SELECT''"
    and "QueryContext db q [] (db_world s) = (Inr (before @ row # rest, rowsErr), w)"
    and "\<And>r p. r \<in> set before \<Longrightarrow> scan db r p = (None, conv r)"
    and "\<And>p. \<exists>p'. scan db row p = (Some e, p')"
  shows "FindAll db z q s = (Inl e, s\<lparr>db_world := w, open_rows := open_rows s + 1\<rparr>)"
  using assms(1,2) scanRows_error [OF assms(3,4)]
  by (simp add: FindAll_def QueryValidation_def query_defs on_world_def)

theorem FindAll_scan_error_leaks_witness:
  "FindAll (demo_db\<lparr>scan := (\<lambda>row ptrs. if row = [3, 4]
        then (Some (External ''converting NULL to int''), ptrs) else (None, row))\<rparr>)
      [0, 0] ''SELECT a, b FROM t'' demo_dbstate =
   (Inl (External ''converting NULL to int''),
    demo_dbstate\<lparr>db_world := 1, open_rows := open_rows demo_dbstate + 1\<rparr>)"
  by (rule FindAll_scan_error_leaks [where before = "[[1, 2]]" and row = "[3, 4]" and rest = "[]"
        and conv = "\<lambda>row. row" and rowsErr = "Some (External ''bad connection'')"])
    (simp_all add: demo_db_def demo_dbstate_def)


section \<open>Delete and FindByID\<close>

lemma deleteText_eq:
  "deleteText table rid = ''DELETE FROM '' @ table @ '' WHERE id = ?%!(EXTRA uint64='' @ uint64_text rid @ '')''"
proof -
  have pre: "Sprintf (''DELETE FROM '' @ x) as = ''DELETE FROM '' @ Sprintf x as" for x as
    by (rule Sprintf_plain) simp
  have post: "Sprintf ('' WHERE id = ?'' @ []) as = '' WHERE id = ?'' @ Sprintf [] as" for as
    by (rule Sprintf_plain) simp
  have "deleteText table rid = Sprintf (''DELETE FROM '' @ ''%s'' @ '' WHERE id = ?'')
      [FString table, FUint64 rid]"
    by (simp add: deleteText_def)
  also have "\<dots> = ''DELETE FROM '' @ table @ '' WHERE id = ?'' @ fmt_extra [FUint64 rid]"
    unfolding pre using post [of "[FUint64 rid]"] by simp
  finally show ?thesis by (simp add: fmt_extra_def)
qed

text \<open>
  The statement \<open>Delete\<close> sends is not the one its format shows: the id is also
  passed to \<open>Sprintf\<close>, which has no verb for it and appends it as an error text, so
  every statement ends in \<open>%!(EXTRA uint64=<id>)\<close>.
\<close>

theorem Delete_text:
  "Delete db table rid s =
     on_world (ExecContext db (''DELETE FROM '' @ table @ '' WHERE id = ?%!(EXTRA uint64='' @
       uint64_text rid @ '')'') [of_uint64 db rid]) s"
  by (simp add: Delete_def deleteText_eq)

text \<open>
  A missing row is reported as such: the error of \<open>FindByID\<close> names the id and
  still satisfies \<open>errors.Is(err, sql.ErrNoRows)\<close>, the result is untouched and the
  statement is closed.
\<close>

theorem FindByID_no_rows:
  assumes "strings_contains q ''SELECT''" and "prepare db q s = (Inr st, s1)"
    and "stmt_QueryRowContext db st [of_uint64 db rid] (db_world s1) = (Inl ErrNoRows, w)"
  shows "\<exists>e. FindByID db q rid (Some cur) s = ((Some e, Some cur), stmt_Close (s1\<lparr>db_world := w\<rparr>)) \<and>
    errors_is e ErrNoRows \<and>
    error_text e = ''no rows found for ID '' @ uint64_text rid @ '': sql: no rows in result set''"
  using assms
  by (simp add: FindByID_def QueryValidation_def query_defs on_world_def findError_def)
    (simp add: ErrNoRows_def)

theorem FindByID_no_rows_witness:
  "\<exists>e. FindByID demo_db ''SELECT * FROM t WHERE id = ?'' 7 (Some [0]) demo_dbstate =
      ((Some e, Some [0]), stmt_Close ((demo_dbstate\<lparr>db_world := 1, open_stmts := 1\<rparr>)\<lparr>db_world := 2\<rparr>)) \<and>
    errors_is e ErrNoRows \<and>
    error_text e = ''no rows found for ID '' @ uint64_text 7 @ '': sql: no rows in result set''"
  by (rule FindByID_no_rows [where st = "()"])
    (simp_all add: prepare_def demo_db_def demo_dbstate_def)


section \<open>Pools and migrations\<close>

text \<open>Which pools are open after a step.\<close>

lemma open_pools_Close: "open_pools (Close db s) = open_pools s - {pool_id db}"
  proof (intro set_eqI)
  show "i \<in> open_pools (Close db s) \<longleftrightarrow> i \<in> open_pools s - {pool_id db}" for i
    by (cases "i = pool_id db") (auto simp: open_pools_def Close_def)
qed

lemma open_pools_new:
  "open_pools (s\<lparr>opened := opened s @ [True]\<rparr>)
     = insert (length (opened s)) (open_pools s)"
  by (auto simp: open_pools_def nth_append)

lemma open_pools_world [simp]: "open_pools (s\<lparr>pools_world := w\<rparr>) = open_pools s"
  by (simp add: open_pools_def)

lemma open_pools_fresh [simp]: "length (opened s) \<notin> open_pools s"
  by (simp add: open_pools_def)

lemma NewMYSQLClient_failed:
  assumes "NewMYSQLClient P config s = (Inl e, s')"
  shows "open_pools s' = open_pools s"
  using assms
  by (auto simp: NewMYSQLClient_def Let_def open_pools_Close open_pools_new
      split: option.splits prod.splits if_splits)

lemma NewMYSQLClient_opened:
  assumes "NewMYSQLClient P config s = (Inr db, s')"
  shows "pool_id db \<notin> open_pools s" and "open_pools s' = insert (pool_id db) (open_pools s)"
    and "openDriver (Db config) = Some (pool_driver db)"
    and "pool_dsn db = dsn config (if SSLMode config = '''' then ''require'' else SSLMode config)"
    and "(if SSLMode config = '''' then ''require'' else SSLMode config) \<in> set sslModes"
    and "pool_MaxIdleConns db = MaxIdleConns config \<and> pool_MaxOpenConns db = MaxOpenConns config"
    and "pool_ConnMaxLifetime db = ConnMaxLifeTime config * 60000000000 \<and>
      pool_ConnMaxIdleTime db = ConnMaxIdleTime config * 60000000000"
  using assms
  by (auto simp: NewMYSQLClient_def Let_def time_Minute_def open_pools_new
      split: option.splits prod.splits if_splits)

text \<open>What a run of migrations executes, with the error that stopped it.\<close>

lemma migrationLoop_append:
  "migrationLoop exec (xs @ ys) w =
    (case migrationLoop exec xs w of
       (Some e, w') \<Rightarrow> (Some e, w')
     | (None, w') \<Rightarrow> migrationLoop exec ys w')"
  by (induction xs arbitrary: w) (auto split: prod.splits option.splits)

lemma registerLoop_Tables: "registerLoop qs m = m\<lparr>Tables := Tables m @ qs\<rparr>"
  by (induction qs arbitrary: m) simp_all

text \<open>
  Migrations run in the order they were registered, over several registrations,
  and a failing one stops the run: those after it are not executed.
\<close>

theorem Migration_order:
  "Migration exec (RegisterMigration rs (RegisterMigration qs (InitMigrationWorker c))) w =
    (case Migration exec (RegisterMigration qs (InitMigrationWorker c)) w of
       (Some e, w') \<Rightarrow> (Some e, w')
     | (None, w') \<Rightarrow> Migration exec (RegisterMigration rs (InitMigrationWorker c)) w')"
  by (simp add: Migration_def RegisterMigration_def InitMigrationWorker_def registerLoop_Tables
      migrationLoop_append split: prod.splits option.splits)

text \<open>A run executes the migrations up to the first that fails, and none after it.\<close>

lemma migrationLoop_prefix:
  "\<exists>k w1. migrationLoop exec (take k ts) w = (None, w1) \<and>
     (case migrationLoop exec ts w of
        (None, w') \<Rightarrow> k = length ts \<and> w' = w1
      | (Some e, w') \<Rightarrow> k < length ts \<and> exec (ts ! k) w1 = (Some e, w'))"
proof (induction ts arbitrary: w)
  case (Cons t ts)
  obtain e v where t: "exec t w = (e, v)" by (cases "exec t w")
  show ?case
  proof (cases e)
    case None
    obtain k w1 where "migrationLoop exec (take k ts) v = (None, w1)"
      and "case migrationLoop exec ts v of (None, w') \<Rightarrow> k = length ts \<and> w' = w1
         | (Some e, w') \<Rightarrow> k < length ts \<and> exec (ts ! k) w1 = (Some e, w')"
      using Cons.IH [of v] by (elim exE conjE) (rule that)
    then show ?thesis using t None
      by (intro exI [of _ "Suc k"] exI [of _ w1]) (simp split: prod.splits option.splits)
  next
    case (Some a)
    with t show ?thesis by (intro exI [of _ 0] exI [of _ w]) simp
  qed
qed simp

lemma Migration_registered:
  "Migration exec (RegisterMigration rs (RegisterMigration qs (InitMigrationWorker c))) =
     migrationLoop (exec (dc_Client c)) (qs @ rs)"
  by (simp add: fun_eq_iff Migration_def RegisterMigration_def InitMigrationWorker_def registerLoop_Tables)

text \<open>
  C35: The life of a database client. When opening fails, a failed ping included, the
  same pools are open as before. When it succeeds exactly one new pool is open, with a
  known driver, a legal SSL mode (\<open>require\<close> by default) and the configured settings, the
  times in minutes; the migrations registered with it, over several registrations, run
  in their order on this pool up to the first that fails, whose error is returned, and
  none after it; and its \<open>Close\<close>, called once or twice and whatever else was opened or
  closed in the meantime, closes this pool and no other.
\<close>

theorem client_lifecycle:
  "case NewMYSQLClient P config s of
     (Inl e, s') \<Rightarrow> open_pools s' = open_pools s
   | (Inr db, s') \<Rightarrow>
       let c = dbClient_DBClient P db; mode = if SSLMode config = '''' then ''require'' else SSLMode config;
           m = RegisterMigration rs (RegisterMigration qs (InitMigrationWorker c)) in
       pool_id db \<notin> open_pools s \<and> open_pools s' = insert (pool_id db) (open_pools s) \<and>
       openDriver (Db config) = Some (pool_driver db) \<and> mode \<in> set sslModes \<and>
       pool_dsn db = dsn config mode \<and>
       pool_MaxIdleConns db = MaxIdleConns config \<and> pool_MaxOpenConns db = MaxOpenConns config \<and>
       pool_ConnMaxLifetime db = ConnMaxLifeTime config * 60000000000 \<and>
       pool_ConnMaxIdleTime db = ConnMaxIdleTime config * 60000000000 \<and>
       (\<exists>k w1. migrationLoop (exec db) (take k (qs @ rs)) w = (None, w1) \<and>
          (case Migration exec m w of
             (None, w') \<Rightarrow> k = length (qs @ rs) \<and> w' = w1
           | (Some e, w') \<Rightarrow> k < length (qs @ rs) \<and> exec db ((qs @ rs) ! k) w1 = (Some e, w'))) \<and>
       (\<forall>t. open_pools (dc_Close c t) = open_pools t - {pool_id db} \<and>
          dc_Close c (dc_Close c t) = dc_Close c t)"
proof (cases "NewMYSQLClient P config s")
  case (Pair r s')
  show ?thesis
  proof (cases r)
    case (Inl e)
    with Pair NewMYSQLClient_failed show ?thesis by fastforce
  next
    case (Inr db)
    have o: "NewMYSQLClient P config s = (Inr db, s')" using Pair Inr by simp
    have c: "dc_Client (dbClient_DBClient P db) = db" "dc_Close (dbClient_DBClient P db) = Close db"
      by (simp_all add: dbClient_DBClient_def Client_def)
    have twice: "Close db (Close db t) = Close db t" for t by (simp add: Close_def)
    show ?thesis
      unfolding o Let_def prod.case sum.case Migration_registered c
      by (intro conjI allI NewMYSQLClient_opened [OF o] conjunct1 [OF NewMYSQLClient_opened(6) [OF o]]
          conjunct2 [OF NewMYSQLClient_opened(6) [OF o]] conjunct1 [OF NewMYSQLClient_opened(7) [OF o]]
          conjunct2 [OF NewMYSQLClient_opened(7) [OF o]] migrationLoop_prefix open_pools_Close twice)
  qed
qed

end
