(* ===== verification/Db_Table.thy ===== *)
theory Db_Table
  imports Db_Properties "HOL-Library.Multiset"
begin

text \<open>
  The repository functions over one table of a database: whatever sequence of calls a
  program makes, the answers are those of a table of rows keyed by their id, on which the
  calls insert, list, look up and update. A call that fails may have done its work.
\<close>

section \<open>A table of rows\<close>

text \<open>A row is its id and the values of its other columns; \<open>row\<close> puts them in one list.\<close>

type_synonym 'v table = "(uint64 \<times> 'v list) list"

datatype 'v request = Saving "'v list" | Listing | Finding uint64 | Updating uint64 "'v list" | Deleting uint64

datatype 'v answer = Saved uint64 | Rows "'v list list" | Found "'v list" | Missing | Done | Failed

definition rewrite :: "uint64 \<Rightarrow> 'v list \<Rightarrow> 'v table \<Rightarrow> 'v table" where
  "rewrite i vs tb = map (\<lambda>(j, us). (j, if j = i then vs else us)) tb"

text \<open>
  The calls as they are meant. A list has rows of the table, each at most once and in any
  order; it may be cut short, as \<open>FindAll\<close> does not report an error that ends the iteration.
  A call that answers with a failure has changed nothing, or has done its work before the
  answer was lost.
\<close>

definition added :: "'v table \<Rightarrow> 'v list \<Rightarrow> uint64 \<Rightarrow> 'v table \<Rightarrow> bool" where
  "added tb vs i tb' \<longleftrightarrow> i \<notin> fst ` set tb \<and> tb' = tb @ [(i, vs)]"

definition delete_row :: "uint64 \<Rightarrow> 'v table \<Rightarrow> 'v table" where
  "delete_row i tb = filter (\<lambda>r. fst r \<noteq> i) tb"

definition listing :: "(uint64 \<Rightarrow> 'v list \<Rightarrow> 'v list) \<Rightarrow> 'v table \<Rightarrow> 'v list list" where
  "listing row tb = map (\<lambda>(i, vs). row i vs) tb"

inductive table_step ::
    "(uint64 \<Rightarrow> 'v list \<Rightarrow> 'v list) \<Rightarrow> 'v table \<Rightarrow> 'v request \<Rightarrow> 'v answer \<Rightarrow> 'v table \<Rightarrow> bool" for row where
  saved: "added tb vs i tb' \<Longrightarrow> table_step row tb (Saving vs) (Saved i) tb'"
| saved_unheard: "added tb vs i tb' \<Longrightarrow> table_step row tb (Saving vs) Failed tb'"
| listed: "mset rs \<subseteq># mset (listing row tb) \<Longrightarrow> table_step row tb Listing (Rows rs) tb"
| found: "map_of tb i = Some vs \<Longrightarrow> table_step row tb (Finding i) (Found (row i vs)) tb"
| missing: "map_of tb i = None \<Longrightarrow> table_step row tb (Finding i) Missing tb"
| updated: "a = Done \<or> a = Failed \<Longrightarrow> table_step row tb (Updating i vs) a (rewrite i vs tb)"
| deleted: "a = Done \<or> a = Failed \<Longrightarrow> table_step row tb (Deleting i) a (delete_row i tb)"
| failed: "table_step row tb req Failed tb"

inductive table_run ::
    "(uint64 \<Rightarrow> 'v list \<Rightarrow> 'v list) \<Rightarrow> 'v table \<Rightarrow> 'v request list \<Rightarrow> 'v answer list \<Rightarrow> 'v table \<Rightarrow> bool" for row where
  run_nil: "table_run row tb [] [] tb"
| run_cons: "table_step row tb r a tb1 \<Longrightarrow> table_run row tb1 rs as tb2 \<Longrightarrow> table_run row tb (r # rs) (a # as) tb2"

inductive_cases table_step_FindingE: "table_step row tb (Finding i) a tb'"
inductive_cases table_step_SavedE: "table_step row tb r (Saved i) tb'"
inductive_cases table_run_ConsE: "table_run row tb (r # rs) (a # as) tb'"

lemma map_of_rewrite:
  "map_of (rewrite i vs tb) j = (if j = i then map_option (\<lambda>_. vs) (map_of tb i) else map_of tb j)"
  by (induction tb) (auto simp: rewrite_def)

lemma map_of_added: "added tb vs i tb' \<Longrightarrow> map_of tb' j = (if j = i then Some vs else map_of tb j)"
  by (induction tb arbitrary: tb') (auto simp: added_def)

lemma added_keeps: "added tb us j tb' \<Longrightarrow> map_of tb i = Some vs \<Longrightarrow> map_of tb' i = Some vs"
  by (auto simp: map_of_added added_def dest: map_of_SomeD)

lemma map_of_delete_row: "map_of (delete_row j tb) i = (if i = j then None else map_of tb i)"
  by (induction tb) (auto simp: delete_row_def)

text \<open>
  The values a row may have after some calls, when it had one of \<open>V\<close> before: those of the last
  update that was answered, or of one after it whose answer was a failure.
\<close>

definition one_written :: "uint64 \<Rightarrow> 'v request \<Rightarrow> 'v answer \<Rightarrow> 'v list set \<Rightarrow> 'v list set" where
  "one_written i r a V =
    (case r of Updating j us \<Rightarrow> if j = i then (if a = Done then {us} else insert us V) else V | _ \<Rightarrow> V)"

fun written :: "uint64 \<Rightarrow> 'v list set \<Rightarrow> 'v request list \<Rightarrow> 'v answer list \<Rightarrow> 'v list set" where
  "written i V (r # rs) (a # as) = written i (one_written i r a V) rs as"
| "written i V _ _ = V"

lemma table_step_keeps:
  assumes "table_step row tb r a tb'" and "map_of tb i = Some vs" and "vs \<in> V" and "r \<noteq> Deleting i"
  obtains us where "map_of tb' i = Some us" and "us \<in> one_written i r a V"
proof -
  have "\<exists>us. map_of tb' i = Some us \<and> us \<in> one_written i r a V"
    using assms
  proof (cases rule: table_step.cases)
    case (failed)
    then show ?thesis using assms by (auto simp: one_written_def split: request.splits)
  next
    case (updated j us)
    then show ?thesis using assms by (auto simp: one_written_def map_of_rewrite)
  qed (use assms in \<open>auto simp: one_written_def map_of_delete_row dest: added_keeps\<close>)
  with that show thesis by blast
qed

lemma table_run_keeps:
  assumes "table_run row tb rs as tb'" and "map_of tb i = Some vs" and "vs \<in> V" and "Deleting i \<notin> set rs"
  shows "\<exists>us\<in>written i V rs as. map_of tb' i = Some us"
  using assms
proof (induction arbitrary: vs V rule: table_run.induct)
  case (run_cons tb r a tb1 rs as tb2)
  obtain us where "map_of tb1 i = Some us" "us \<in> one_written i r a V"
    by (rule table_step_keeps [OF run_cons.hyps(1) run_cons.prems(1,2)]) (use run_cons.prems(3) in auto)
  from run_cons.IH [OF this] run_cons.prems(3) show ?case by simp
qed simp


section \<open>A store of rows\<close>

text \<open>
  What a caller may rely on: each call does what it does on the table, under the laws of its
  provider; \<open>tbl\<close> is the table in a state.
\<close>

fun call_all :: "('r \<Rightarrow> 's \<Rightarrow> 'a \<times> 's) \<Rightarrow> 'r list \<Rightarrow> 's \<Rightarrow> 'a list \<times> 's" where
  "call_all f [] s = ([], s)"
| "call_all f (r # rs) s = (let (a, s1) = f r s; (as, s2) = call_all f rs s1 in (a # as, s2))"

lemma length_call_all: "length (fst (call_all f rs s)) = length rs"
  by (induction rs arbitrary: s) (auto simp: case_prod_beta Let_def)

lemma call_all_ConsE:
  assumes "call_all f (r # rs) s = (as, s2)"
  obtains a as' s1 where "f r s = (a, s1)" and "call_all f rs s1 = (as', s2)" and "as = a # as'"
  using assms by (auto simp: Let_def split: prod.splits)

locale row_store =
  fixes call :: "'k \<Rightarrow> 'v request \<Rightarrow> 's \<Rightarrow> 'v answer \<times> 's"
    and laws :: "'k \<Rightarrow> (uint64 \<Rightarrow> 'v list \<Rightarrow> 'v list) \<Rightarrow> ('s \<Rightarrow> 'v table) \<Rightarrow> bool"
  assumes call_step: "laws K row tbl \<Longrightarrow> call K r s = (a, s') \<Longrightarrow> table_step row (tbl s) r a (tbl s')"
begin

lemma calls_run:
  assumes "laws K row tbl"
  shows "call_all (call K) rs s = (as, s') \<Longrightarrow> table_run row (tbl s) rs as (tbl s')"
proof (induction rs arbitrary: s as)
  case (Cons r rs)
  from Cons.prems obtain a as' s1 where "call K r s = (a, s1)" "call_all (call K) rs s1 = (as', s')" "as = a # as'"
    by (rule call_all_ConsE)
  with run_cons [OF call_step [OF assms] Cons.IH] show ?case by blast
qed (auto intro: run_nil)

text \<open>A saved row that no call was to delete is found again, with what was written to it.\<close>

lemma saved_found:
  assumes "laws K row tbl" and "call_all (call K) (Saving vs # rs) s = (Saved i # as, s1)"
    and "Deleting i \<notin> set rs" and "call K (Finding i) s1 = (a, s2)"
  shows "(\<exists>us\<in>written i {vs} rs as. a = Found (row i us)) \<or> a = Failed"
proof -
  from calls_run [OF assms(1,2)] obtain tb1 where first: "table_step row (tbl s) (Saving vs) (Saved i) tb1"
    and rest: "table_run row tb1 rs as (tbl s1)"
    by (rule table_run_ConsE)
  from first have "map_of tb1 i = Some vs" by (rule table_step_SavedE) (auto simp: map_of_added)
  from table_run_keeps [OF rest this _ assms(3), of "{vs}"] obtain us where
    "us \<in> written i {vs} rs as" "map_of (tbl s1) i = Some us" by blast
  moreover from call_step [OF assms(1,4)] have "table_step row (tbl s1) (Finding i) a (tbl s2)" .
  ultimately show ?thesis by (elim table_step_FindingE) auto
qed

end


section \<open>The repository over one table\<close>

text \<open>The texts a program uses for its table.\<close>

record texts =
  ins_text :: string
  all_text :: string
  one_text :: string
  upd_text :: string
  table_name :: string

text \<open>
  One call of the repository, with \<open>zero\<close> the zero value of the row's struct. The arguments
  of an update are the new values and the id, as the placeholders of its text ask.
\<close>

definition repository_call ::
    "('v, 'st, 'w) Trigger \<times> texts \<times> 'v list \<Rightarrow> 'v request \<Rightarrow> 'w dbstate \<Rightarrow> 'v answer \<times> 'w dbstate" where
  "repository_call K req s =
    (case K of (T, x, zero) \<Rightarrow>
      (case req of
         Saving vs \<Rightarrow> (case Save T (ins_text x) vs s of (Inl e, s') \<Rightarrow> (Failed, s') | (Inr i, s') \<Rightarrow> (Saved i, s'))
       | Listing \<Rightarrow> (case FindAll T zero (all_text x) s of (Inl e, s') \<Rightarrow> (Failed, s') | (Inr rs, s') \<Rightarrow> (Rows rs, s'))
       | Finding i \<Rightarrow>
          (case FindByID T (one_text x) i (Some zero) s of
             ((None, Some r), s') \<Rightarrow> (Found r, s')
           | ((None, None), s') \<Rightarrow> (Failed, s')
           | ((Some e, _), s') \<Rightarrow> (if errors_is e ErrNoRows then Missing else Failed, s'))
       | Updating i vs \<Rightarrow>
          (case Update T (upd_text x) (vs @ [of_uint64 T i]) s of (None, s') \<Rightarrow> (Done, s') | (Some e, s') \<Rightarrow> (Failed, s'))
       | Deleting i \<Rightarrow>
          (case Delete T (table_name x) i s of (None, s') \<Rightarrow> (Done, s') | (Some e, s') \<Rightarrow> (Failed, s'))))"

text \<open>
  Documented behaviour of \<open>database/sql\<close>, a driver and a server with the table \<open>view w\<close> and
  an id it generates, that no one else writes to. Only the way is asked for that \<open>Save\<close> takes
  with the text: with \<open>?\<close> a statement whose \<open>LastInsertId\<close> is the id of the row, with \<open>$\<close> a
  query that returns it. A call that reports an error has changed nothing or done its work: the
  connection may break after that, \<open>lib/pq\<close> answers \<open>LastInsertId\<close> with an error after
  every insertion, and a MySQL server returns no row for an insertion sent as a query.
\<close>

definition maybe_added :: "'v table \<Rightarrow> 'v list \<Rightarrow> 'v table \<Rightarrow> bool" where
  "maybe_added tb vs tb' \<longleftrightarrow> tb' = tb \<or> (\<exists>i. added tb vs i tb')"

definition inserts ::
    "('v, 'st, 'w) Trigger \<Rightarrow> texts \<Rightarrow> ('w \<Rightarrow> 'v table) \<Rightarrow> bool" where
  "inserts T x view \<longleftrightarrow>
     (CheckDriverBasedExpression (ins_text x) = MySQL \<longrightarrow>
       (\<forall>w st w1 vs u r u'. PrepareContext T (ins_text x) w = (Inr st, w1) \<longrightarrow> stmt_ExecContext T st vs u = (r, u') \<longrightarrow>
          (case r of Inr (Inr i) \<Rightarrow> added (view u) vs i (view u') | _ \<Rightarrow> maybe_added (view u) vs (view u')))) \<and>
     (CheckDriverBasedExpression (ins_text x) = PostgreSQL \<longrightarrow>
       (\<forall>vs w r w'. QueryRowContext T (ins_text x) vs w = (r, w') \<longrightarrow>
          (case r of Inl e \<Rightarrow> maybe_added (view w) vs (view w')
           | Inr cols \<Rightarrow> (case scan_uint64 T cols of
               Inl e \<Rightarrow> maybe_added (view w) vs (view w') | Inr i \<Rightarrow> added (view w) vs i (view w')))))"

text \<open>
  Reading changes nothing; \<open>sql.ErrNoRows\<close> is only reported when there is no such row; a
  \<open>Scan\<close> copies the columns of a row or reports another error.
\<close>

definition selects ::
    "('v, 'st, 'w) Trigger \<Rightarrow> texts \<Rightarrow> (uint64 \<Rightarrow> 'v list \<Rightarrow> 'v list) \<Rightarrow> ('w \<Rightarrow> 'v table) \<Rightarrow> bool" where
  "selects T x row view \<longleftrightarrow>
     (\<forall>w st w1 i u r u'. PrepareContext T (one_text x) w = (Inr st, w1) \<longrightarrow>
        stmt_QueryRowContext T st [of_uint64 T i] u = (r, u') \<longrightarrow> view u' = view u \<and>
        (case r of Inl e \<Rightarrow> errors_is e ErrNoRows \<longrightarrow> map_of (view u) i = None
         | Inr cols \<Rightarrow> \<exists>vs. map_of (view u) i = Some vs \<and> cols = row i vs)) \<and>
     (\<forall>w r w'. QueryContext T (all_text x) [] w = (r, w') \<longrightarrow> view w' = view w \<and>
        (\<forall>rs e. r = Inr (rs, e) \<longrightarrow> mset rs \<subseteq># mset (listing row (view w)))) \<and>
     (\<forall>w i vs ptrs e ptrs'. (i, vs) \<in> set (view w) \<longrightarrow> scan T (row i vs) ptrs = (e, ptrs') \<longrightarrow>
        (case e of None \<Rightarrow> ptrs' = row i vs | Some err \<Rightarrow> \<not> errors_is err ErrNoRows))"

text \<open>What a text that changes rows does: its work when it succeeds, perhaps when it fails.\<close>

definition changes :: "('w \<Rightarrow> err \<times> 'w) \<Rightarrow> ('w \<Rightarrow> 'v table) \<Rightarrow> ('v table \<Rightarrow> 'v table) \<Rightarrow> bool" where
  "changes exec view g \<longleftrightarrow>
     (\<forall>w e w'. exec w = (e, w') \<longrightarrow> view w' = g (view w) \<or> e \<noteq> None \<and> view w' = view w)"

definition table_server ::
    "('v, 'st, 'w) Trigger \<Rightarrow> texts \<Rightarrow> (uint64 \<Rightarrow> 'v list \<Rightarrow> 'v list) \<Rightarrow> ('w \<Rightarrow> 'v table) \<Rightarrow> bool" where
  "table_server T x row view \<longleftrightarrow> inserts T x view \<and> selects T x row view \<and>
     (\<forall>q w r w'. PrepareContext T q w = (r, w') \<longrightarrow> view w' = view w \<and> (\<forall>e. r = Inl e \<longrightarrow> \<not> errors_is e ErrNoRows)) \<and>
     (\<forall>i vs. changes (ExecContext T (upd_text x) (vs @ [of_uint64 T i])) view (rewrite i vs)) \<and>
     (\<forall>i. changes (ExecContext T (deleteText (table_name x) i) [of_uint64 T i]) view (delete_row i))"


section \<open>Each call does what it does on the table\<close>

lemma on_world_world: "on_world f s = (a, s') \<Longrightarrow> f (db_world s) = (a, db_world s')"
  by (auto simp: on_world_def split: prod.splits)

lemma db_world_stmt_Close [simp]: "db_world (stmt_Close s) = db_world s"
  by (simp add: stmt_Close_def)

lemma prepare_world:
  assumes "prepare T q s = (r, s')"
  obtains w where "PrepareContext T q (db_world s) = (r, w)" and "db_world s' = w"
  using assms by (auto simp: prepare_def split: prod.splits sum.splits)

lemma Save_table:
  assumes "table_server T x row view" and "Save T (ins_text x) vs s = (r, s')"
  shows "case r of Inl e \<Rightarrow> maybe_added (view (db_world s)) vs (view (db_world s'))
    | Inr i \<Rightarrow> added (view (db_world s)) vs i (view (db_world s'))"
proof -
  have ins: "inserts T x view" and prep: "\<And>q w r w'. PrepareContext T q w = (r, w') \<Longrightarrow> view w' = view w"
    using assms(1) unfolding table_server_def by blast+
  have my: ?thesis if "saveMySQL T (ins_text x) vs s = (r, s')" and kind: "CheckDriverBasedExpression (ins_text x) = MySQL"
  proof -
    obtain r1 s1 where p: "prepare T (ins_text x) s = (r1, s1)" by fastforce
    then have v1: "view (db_world s1) = view (db_world s)" by (metis prep prepare_world)
    obtain r2 s2 where e: "on_world (stmt_ExecContext T (projr r1) vs) s1 = (r2, s2)" by fastforce
    have "case r2 of Inr (Inr i) \<Rightarrow> added (view (db_world s1)) vs i (view (db_world s2))
        | _ \<Rightarrow> maybe_added (view (db_world s1)) vs (view (db_world s2))" if st: "r1 = Inr st" for st
    proof -
      have "PrepareContext T (ins_text x) (db_world s) = (Inr st, db_world s1)"
        using prepare_world [OF p] st by metis
      moreover have "stmt_ExecContext T st vs (db_world s1) = (r2, db_world s2)"
        using on_world_world [OF e] st by simp
      ultimately show ?thesis using ins kind unfolding inserts_def by blast
    qed
    with that p e v1 show ?thesis
      by (auto simp: saveMySQL_def maybe_added_def split: option.splits sum.splits)
  qed
  have pg: ?thesis if "savePostgres T (ins_text x) vs s = (r, s')" and kind: "CheckDriverBasedExpression (ins_text x) = PostgreSQL"
  proof -
    obtain r1 s1 where q: "on_world (QueryRowContext T (ins_text x) vs) s = (r1, s1)" by fastforce
    have "case r1 of Inl e \<Rightarrow> maybe_added (view (db_world s)) vs (view (db_world s1))
         | Inr cols \<Rightarrow> (case scan_uint64 T cols of Inl e \<Rightarrow> maybe_added (view (db_world s)) vs (view (db_world s1))
             | Inr i \<Rightarrow> added (view (db_world s)) vs i (view (db_world s1)))"
      using ins on_world_world [OF q] kind unfolding inserts_def by blast
    with that q show ?thesis by (auto simp: savePostgres_def maybe_added_def split: option.splits sum.splits)
  qed
  show ?thesis
    using assms(2) my pg by (auto simp: Save_def maybe_added_def split: if_splits)
qed

lemma scanRows_copies:
  assumes "\<And>r ptrs e ptrs'. r \<in> set rs \<Longrightarrow> scan T r ptrs = (e, ptrs') \<Longrightarrow> e = None \<Longrightarrow> ptrs' = r"
    and "scanRows T rs ptrs acc = Inr result"
  shows "result = acc @ rs"
  using assms
proof (induction rs arbitrary: ptrs acc)
  case (Cons r rs)
  obtain e ptrs' where sc: "scan T r ptrs = (e, ptrs')" by fastforce
  with Cons.prems(2) have "e = None" by (cases e) auto
  with Cons.prems(1) [of r ptrs e ptrs'] sc have "ptrs' = r" by simp
  with Cons.prems(2) sc \<open>e = None\<close> have rest: "scanRows T rs r (acc @ [r]) = Inr result" by simp
  have "result = (acc @ [r]) @ rs"
    by (rule Cons.IH [OF _ rest]) (rule Cons.prems(1) [OF list.set_intros(2)])
  then show ?case by simp
qed simp

lemma scan_row:
  assumes "table_server T x row view" and "(i, vs) \<in> set (view w)" and "scan T (row i vs) ptrs = (e, ptrs')"
  shows "e = None \<Longrightarrow> ptrs' = row i vs" and "e = Some err \<Longrightarrow> \<not> errors_is err ErrNoRows"
proof -
  have "case e of None \<Rightarrow> ptrs' = row i vs | Some err \<Rightarrow> \<not> errors_is err ErrNoRows"
    using assms(1) [unfolded table_server_def selects_def, THEN conjunct2, THEN conjunct1, THEN conjunct2, THEN conjunct2,
        rule_format, OF assms(2,3)] .
  then show "e = None \<Longrightarrow> ptrs' = row i vs" and "e = Some err \<Longrightarrow> \<not> errors_is err ErrNoRows" by simp_all
qed

lemma in_listing:
  assumes "mset rs \<subseteq># mset (listing row tb)" and "r \<in> set rs"
  obtains i vs where "(i, vs) \<in> set tb" and "r = row i vs"
proof -
  from assms have "r \<in> set (listing row tb)" using mset_subset_eqD by fastforce
  with that show thesis by (auto simp: listing_def)
qed

lemma FindAll_table:
  assumes "table_server T x row view" and "FindAll T zero (all_text x) s = (r, s')"
  shows "view (db_world s') = view (db_world s) \<and>
    (\<forall>rs. r = Inr rs \<longrightarrow> mset rs \<subseteq># mset (listing row (view (db_world s))))"
proof -
  have sel: "selects T x row view" using assms(1) unfolding table_server_def by blast
  obtain r1 s1 where q: "on_world (QueryContext T (all_text x) []) s = (r1, s1)" by fastforce
  note w = on_world_world [OF q]
  have v: "view (db_world s1) = view (db_world s)"
    and pre: "\<And>rs e. r1 = Inr (rs, e) \<Longrightarrow> mset rs \<subseteq># mset (listing row (view (db_world s)))"
    using sel w unfolding selects_def by blast+
  have scan: "result = rs" if r1: "r1 = Inr (rs, e)" and "scanRows T rs zero [] = Inr result" for rs e result
  proof -
    have "ptrs' = r" if r: "r \<in> set rs" and sc: "scan T r ptrs = (e', ptrs')" and "e' = None" for r ptrs e' ptrs'
      using in_listing [OF pre [OF r1] r] scan_row(1) [OF assms(1)] sc \<open>e' = None\<close> by metis
    from scanRows_copies [OF this that(2)] show ?thesis by simp
  qed
  show ?thesis
  proof (cases "QueryValidation (all_text x) selectQuery")
    case None
    note qv = None
    show ?thesis
    proof (cases r1)
      case (Inr p)
      obtain rs e where p: "r1 = Inr (rs, e)" using Inr by (metis surj_pair)
      show ?thesis
      proof (cases "scanRows T rs zero []")
        case (Inr result)
        with scan [OF p Inr] pre [OF p] qv q p v assms(2) show ?thesis by (auto simp: FindAll_def)
      qed (use qv q p v assms(2) in \<open>auto simp: FindAll_def\<close>)
    qed (use qv q v assms(2) in \<open>auto simp: FindAll_def\<close>)
  qed (use assms(2) in \<open>auto simp: FindAll_def\<close>)
qed

lemma findError_is: "errors_is (findError i e) ErrNoRows \<longleftrightarrow> errors_is e ErrNoRows"
  by (simp add: findError_def ErrNoRows_def)


lemma FindByID_table:
  assumes "table_server T x row view" and "FindByID T (one_text x) i (Some zero) s = ((e, r), s')"
  shows "view (db_world s') = view (db_world s) \<and>
    (case e of
       None \<Rightarrow> \<exists>vs. map_of (view (db_world s)) i = Some vs \<and> r = Some (row i vs)
     | Some err \<Rightarrow> errors_is err ErrNoRows \<longrightarrow> map_of (view (db_world s)) i = None)"
proof (cases "QueryValidation (one_text x) selectQuery")
  case (Some err)
  with assms(2) show ?thesis by (auto simp: FindByID_def QueryValidation_def ErrNoRows_def split: if_splits)
next
  case None
  have sel: "selects T x row view"
    and prep: "\<And>q w r w'. PrepareContext T q w = (r, w') \<Longrightarrow> view w' = view w \<and> (\<forall>e. r = Inl e \<longrightarrow> \<not> errors_is e ErrNoRows)"
    using assms(1) unfolding table_server_def by blast+
  obtain r1 s1 where p: "prepare T (one_text x) s = (r1, s1)" by fastforce
  then have p': "PrepareContext T (one_text x) (db_world s) = (r1, db_world s1)" by (metis prepare_world)
  note v1 = prep [OF p']
  show ?thesis
  proof (cases r1)
    case (Inl err)
    with None p v1 assms(2) show ?thesis by (auto simp: FindByID_def ErrNoRows_def)
  next
    case (Inr st)
    obtain r2 s2 where q: "on_world (stmt_QueryRowContext T st [of_uint64 T i]) s1 = (r2, s2)" by fastforce
    have "view (db_world s2) = view (db_world s1) \<and>
        (case r2 of Inl e \<Rightarrow> errors_is e ErrNoRows \<longrightarrow> map_of (view (db_world s1)) i = None
         | Inr cols \<Rightarrow> \<exists>vs. map_of (view (db_world s1)) i = Some vs \<and> cols = row i vs)"
      using sel [unfolded selects_def, THEN conjunct1, rule_format, OF p' [unfolded Inr] on_world_world [OF q]] .
    moreover have "(e = None \<longrightarrow> cur = row i vs) \<and> (\<forall>err. e = Some err \<longrightarrow> \<not> errors_is err ErrNoRows)"
      if "map_of (view (db_world s1)) i = Some vs" and "scan T (row i vs) zero = (e, cur)" for vs e cur
      using scan_row [OF assms(1) map_of_SomeD [OF that(1)] that(2)] by blast
    moreover have "FindByID T (one_text x) i (Some zero) s =
        (let (e, cur) = (case r2 of Inl e \<Rightarrow> (Some e, zero) | Inr cols \<Rightarrow> scan T cols zero)
         in ((map_option (findError i) e, Some cur), stmt_Close s2))"
      using None p Inr q by (simp add: FindByID_def)
    ultimately show ?thesis
      using v1 assms(2) by (cases r2) (auto simp: findError_is split: prod.splits option.splits)
  qed
qed

lemma Update_table:
  assumes "table_server T x row view" and "Update T (upd_text x) (vs @ [of_uint64 T i]) s = (e, s')"
  shows "view (db_world s') = rewrite i vs (view (db_world s)) \<or> e \<noteq> None \<and> view (db_world s') = view (db_world s)"
proof (cases "QueryValidation (upd_text x) updateQuery")
  case None
  with assms(2) have "ExecContext T (upd_text x) (vs @ [of_uint64 T i]) (db_world s) = (e, db_world s')"
    by (auto simp: Update_def dest: on_world_world)
  with assms(1) show ?thesis unfolding table_server_def changes_def by blast
qed (use assms(2) in \<open>auto simp: Update_def\<close>)

lemma Delete_table:
  assumes "table_server T x row view" and "Delete T (table_name x) i s = (e, s')"
  shows "view (db_world s') = delete_row i (view (db_world s)) \<or> e \<noteq> None \<and> view (db_world s') = view (db_world s)"
proof -
  have "ExecContext T (deleteText (table_name x) i) [of_uint64 T i] (db_world s) = (e, db_world s')"
    using assms(2) by (auto simp: Delete_def dest: on_world_world)
  with assms(1) show ?thesis unfolding table_server_def changes_def by blast
qed

lemma repository_call_step:
  assumes "table_server T x row view" and "repository_call (T, x, zero) r s = (a, s')"
  shows "table_step row (view (db_world s)) r a (view (db_world s'))"
proof (cases r)
  case (Saving vs)
  obtain q s1 where "Save T (ins_text x) vs s = (q, s1)" by fastforce
  with Save_table [OF assms(1) this] assms(2) Saving show ?thesis
    by (auto simp: repository_call_def maybe_added_def split: sum.splits intro: saved saved_unheard failed)
next
  case Listing
  obtain q s1 where "FindAll T zero (all_text x) s = (q, s1)" by fastforce
  with FindAll_table [OF assms(1) this] assms(2) Listing show ?thesis
    by (auto simp: repository_call_def split: sum.splits intro: listed failed)
next
  case (Finding i)
  obtain e q s1 where "FindByID T (one_text x) i (Some zero) s = ((e, q), s1)" by (metis prod.exhaust)
  with FindByID_table [OF assms(1) this] assms(2) Finding show ?thesis
    by (auto simp: repository_call_def split: option.splits if_splits intro: found missing failed)
next
  case (Updating i vs)
  obtain e s1 where "Update T (upd_text x) (vs @ [of_uint64 T i]) s = (e, s1)" by fastforce
  with Update_table [OF assms(1) this] assms(2) Updating show ?thesis
    by (auto simp: repository_call_def split: option.splits intro: updated failed)
next
  case (Deleting i)
  obtain e s1 where "Delete T (table_name x) i s = (e, s1)" by fastforce
  with Delete_table [OF assms(1) this] assms(2) Deleting show ?thesis
    by (auto simp: repository_call_def split: option.splits intro: deleted failed)
qed

interpretation repository: row_store repository_call
    "\<lambda>(T, x, zero) row tbl. \<exists>view. tbl = (\<lambda>s. view (db_world s)) \<and> table_server T x row view"
  by unfold_locales (auto dest: repository_call_step)



section \<open>Properties\<close>

text \<open>
  C33: The repository refines a table of rows. Over a MySQL or a PostgreSQL server with the
  table, the answers to any sequence of calls are those of a run of the table, from the rows
  before to the rows after: a row that is saved gets a fresh id, a list has rows of the table,
  a lookup finds the row or says there is none and only says so then, an update or a deletion
  leaves all other rows alone, and a call that fails has done its work or nothing. Whether the
  server takes the text of \<open>Delete\<close>, which ends in an error of \<open>Sprintf\<close>, is left open.
\<close>

theorem repository_refines_table:
  assumes "table_server T x row view"
    and "call_all (repository_call (T, x, zero)) rs s = (as, s')"
  shows "table_run row (view (db_world s)) rs as (view (db_world s'))"
proof -
  have "\<exists>v. (\<lambda>s. view (db_world s)) = (\<lambda>s. v (db_world s)) \<and> table_server T x row v" using assms(1) by blast
  with repository.calls_run [of "(T, x, zero)" row "\<lambda>s. view (db_world s)" rs s as s'] assms(2)
  show ?thesis by simp
qed

text \<open>
  C34: A saved row is read back. After \<open>Save\<close> answered with an id, and any calls but a
  \<open>Delete\<close> of that id, failed ones included, a \<open>FindByID\<close> of the id gives the values of the
  last successful update of the row, of a failed one after it, or those saved when there was
  none; or it fails, but it never says that the row is missing.
\<close>

theorem saved_row_read_back:
  assumes "table_server T x row view"
    and "call_all (repository_call (T, x, zero)) (Saving vs # rs) s = (Saved i # as, s1)"
    and "Deleting i \<notin> set rs"
    and "repository_call (T, x, zero) (Finding i) s1 = (a, s2)"
  shows "(\<exists>us\<in>written i {vs} rs as. a = Found (row i us)) \<or> a = Failed"
proof -
  have "\<exists>v. (\<lambda>s. view (db_world s)) = (\<lambda>s. v (db_world s)) \<and> table_server T x row v" using assms(1) by blast
  then show ?thesis
    using repository.saved_found [of "(T, x, zero)" row "\<lambda>s. view (db_world s)", OF _ assms(2-4)] by simp
qed

text \<open>
  A MySQL server and, with \<open>pg\<close>, a PostgreSQL one, with a table of two columns whose ids are
  natural numbers. An insertion that is executed has no \<open>LastInsertId\<close> on the second; one that
  is queried returns no row on the first. Both refuse the text of \<open>Delete\<close>, and lose the
  connection after an update that writes 13.
\<close>

definition demo_view :: "(uint64 \<times> nat) list \<Rightarrow> nat table" where
  "demo_view w = map (\<lambda>(i, n). (i, [n])) w"

definition demo_row :: "uint64 \<Rightarrow> nat list \<Rightarrow> nat list" where
  "demo_row i vs = unat i # vs"

definition demo_insert :: "nat list \<Rightarrow> (uint64 \<times> nat) list \<Rightarrow> (go_error + uint64) \<times> (uint64 \<times> nat) list" where
  "demo_insert vs w =
    (let i = of_nat (length w + 1)
     in if length vs = 1 \<and> i \<notin> fst ` set w then (Inr i, w @ [(i, hd vs)]) else (Inl (External ''rejected''), w))"

definition demo_exec :: "string \<Rightarrow> nat list \<Rightarrow> (uint64 \<times> nat) list \<Rightarrow> err \<times> (uint64 \<times> nat) list" where
  "demo_exec q vs w =
    (if length vs = 2 \<and> \<not> strings_contains q ''%!(EXTRA''
     then (if vs ! 0 = 13 then Some (External ''EOF'') else None,
       map (\<lambda>(i, n). (i, if i = of_nat (vs ! 1) then vs ! 0 else n)) w)
     else (Some (External ''syntax error''), w))"

definition demo_table_db :: "bool \<Rightarrow> (nat, string, (uint64 \<times> nat) list) Trigger" where
  "demo_table_db pg = \<lparr>
     PrepareContext = (\<lambda>q w. (if pg \<and> strings_contains q ''?'' then Inl (External ''syntax error'') else Inr q, w)),
     ExecContext = demo_exec,
     QueryContext = (\<lambda>q vs w. (Inr (rev (map (\<lambda>(i, n). [unat i, n]) w), None), w)),
     QueryRowContext = (\<lambda>q vs w. case demo_insert vs w of
         (Inl e, w') \<Rightarrow> (Inl e, w') | (Inr i, w') \<Rightarrow> (if pg then Inr [unat i] else Inl ErrNoRows, w')),
     stmt_ExecContext = (\<lambda>st vs w. case demo_insert vs w of
         (Inl e, w') \<Rightarrow> (Inl e, w')
       | (Inr i, w') \<Rightarrow> (Inr (if pg then Inl (External ''LastInsertId is not supported'') else Inr i), w')),
     stmt_QueryRowContext = (\<lambda>st vs w.
       (case map_of w (of_nat (hd vs)) of None \<Rightarrow> Inl ErrNoRows | Some n \<Rightarrow> Inr [hd vs, n], w)),
     scan = (\<lambda>row ptrs. if length row = length ptrs then (None, row) else (Some (External ''destination arguments''), ptrs)),
     scan_uint64 = (\<lambda>row. Inr (of_nat (hd row))), of_uint64 = unat\<rparr>"

definition demo_texts :: "bool \<Rightarrow> texts" where
  "demo_texts pg = (if pg
     then \<lparr>ins_text = ''INSERT INTO t (n) VALUES ($1) RETURNING id'', all_text = ''SELECT id, n FROM t'',
       one_text = ''SELECT id, n FROM t WHERE id = $1'', upd_text = ''UPDATE t SET n = $1 WHERE id = $2'',
       table_name = ''t''\<rparr>
     else \<lparr>ins_text = ''INSERT INTO t (n) VALUES (?)'', all_text = ''SELECT id, n FROM t'',
       one_text = ''SELECT id, n FROM t WHERE id = ?'', upd_text = ''UPDATE t SET n = ? WHERE id = ?'',
       table_name = ''t''\<rparr>)"

lemma demo_insert_view:
  assumes "demo_insert vs w = (r, w')"
  shows "case r of Inl e \<Rightarrow> w' = w | Inr i \<Rightarrow> added (demo_view w) vs i (demo_view w')"
proof -
  have "fst ` set (demo_view w) = fst ` set w" by (force simp: demo_view_def)
  with assms show ?thesis
    by (cases vs) (auto simp: demo_insert_def added_def Let_def demo_view_def split: if_splits)
qed

lemma map_of_demo_view: "map_of (demo_view w) i = map_option (\<lambda>n. [n]) (map_of w i)"
  by (induction w) (auto simp: demo_view_def)

lemma demo_update_view:
  assumes "\<not> strings_contains q ''%!(EXTRA''"
  shows "changes (demo_exec q (vs @ [unat i])) demo_view (rewrite i vs)"
  unfolding changes_def
proof (intro allI impI)
  fix w e w'
  assume "demo_exec q (vs @ [unat i]) w = (e, w')"
  with assms show "demo_view w' = rewrite i vs (demo_view w) \<or> e \<noteq> None \<and> demo_view w' = demo_view w"
    by (cases vs) (auto simp: demo_exec_def demo_view_def rewrite_def split: if_splits)
qed

lemma demo_inserts: "inserts (demo_table_db pg) x demo_view"
  unfolding inserts_def
proof (intro conjI impI allI)
  fix st vs u r u'
  assume "stmt_ExecContext (demo_table_db pg) st vs u = (r, u')"
  moreover obtain r1 w1 where "demo_insert vs u = (r1, w1)" by fastforce
  ultimately show "case r of Inr (Inr i) \<Rightarrow> added (demo_view u) vs i (demo_view u')
      | _ \<Rightarrow> maybe_added (demo_view u) vs (demo_view u')"
    using demo_insert_view [of vs u r1 w1] by (cases r1) (auto simp: demo_table_db_def maybe_added_def)
next
  fix vs w r w'
  assume "QueryRowContext (demo_table_db pg) (ins_text x) vs w = (r, w')"
  moreover obtain r1 w1 where "demo_insert vs w = (r1, w1)" by fastforce
  ultimately show "case r of Inl e \<Rightarrow> maybe_added (demo_view w) vs (demo_view w')
      | Inr cols \<Rightarrow> (case scan_uint64 (demo_table_db pg) cols of
          Inl e \<Rightarrow> maybe_added (demo_view w) vs (demo_view w') | Inr i \<Rightarrow> added (demo_view w) vs i (demo_view w'))"
    using demo_insert_view [of vs w r1 w1] by (cases r1) (auto simp: demo_table_db_def maybe_added_def)
qed

lemma demo_selects: "selects (demo_table_db pg) x demo_row demo_view"
proof -
  have rows: "listing demo_row (demo_view w) = map (\<lambda>(i, n). [unat i, n]) w" for w
    by (auto simp: listing_def demo_view_def demo_row_def)
  show ?thesis
    unfolding selects_def demo_table_db_def
    by (auto simp: map_of_demo_view rows demo_row_def ErrNoRows_def split: option.splits if_splits)
qed

lemma demo_delete_view: "changes (demo_exec (deleteText t i) vs) demo_view g"
proof -
  have "deleteText t i = (''DELETE FROM '' @ t @ '' WHERE id = ?'') @ ''%!(EXTRA'' @ '' uint64='' @ uint64_text i @ '')''"
    by (simp add: deleteText_eq)
  then have "strings_contains (deleteText t i) ''%!(EXTRA''" unfolding strings_contains_iff sublist_def by blast
  then show ?thesis by (auto simp: changes_def demo_exec_def)
qed

text \<open>Both servers keep the table, whichever texts a program uses.\<close>

lemma demo_table_db_table: "table_server (demo_table_db pg) (demo_texts pg') demo_row demo_view"
proof -
  have "\<not> strings_contains (upd_text (demo_texts pg')) ''%!(EXTRA''"
    by (cases pg') (simp_all add: demo_texts_def)
  from demo_update_view [OF this] show ?thesis
    using demo_inserts demo_selects demo_delete_view unfolding table_server_def
    by (simp add: demo_table_db_def ErrNoRows_def)
qed

definition demo_rows :: "(uint64 \<times> nat) list dbstate" where
  "demo_rows = \<lparr>db_world = [], open_stmts = 0, open_rows = 0\<rparr>"

lemma demo_calls:
  "call_all (repository_call (demo_table_db pg, demo_texts pg, [0, 0]))
      [Saving [7], Updating 1 [8], Updating 1 [13], Listing, Deleting 2] demo_rows =
    ([Saved 1, Done, Failed, Rows [[1, 13]], Failed], demo_rows\<lparr>db_world := [(1, 13)]\<rparr>)"
  by (cases pg) (simp_all add: repository_call_def demo_table_db_def demo_texts_def demo_rows_def Save_routing saveMySQL_def
      savePostgres_def QueryValidation_def query_defs prepare_def on_world_def stmt_Close_def demo_insert_def Update_def
      demo_exec_def FindAll_def Delete_def deleteText_eq Let_def)

theorem repository_refines_table_witness:
  "table_run demo_row [] [Saving [7], Updating 1 [8], Updating 1 [13], Listing, Deleting 2] [Saved 1, Done, Failed, Rows [[1, 13]], Failed]
     [(1, [13])]"
  using repository_refines_table [OF demo_table_db_table demo_calls]
  by (simp add: demo_rows_def demo_view_def)

theorem saved_row_read_back_witness:
  "repository_call (demo_table_db True, demo_texts True, [0, 0]) (Finding 1) (demo_rows\<lparr>db_world := [(1, 13)]\<rparr>) =
     (Found [1, 13], demo_rows\<lparr>db_world := [(1, 13)]\<rparr>) \<and>
   (\<exists>us\<in>written 1 {[7]} [Updating 1 [8], Updating 1 [13], Listing, Deleting 2] [Done, Failed, Rows [[1, 13]], Failed].
     Found [1, 13] = Found (demo_row 1 us))"
proof -
  have c: "repository_call (demo_table_db True, demo_texts True, [0, 0]) (Finding 1) (demo_rows\<lparr>db_world := [(1, 13)]\<rparr>) =
     (Found [1, 13], demo_rows\<lparr>db_world := [(1, 13)]\<rparr>)"
    by (simp add: repository_call_def demo_table_db_def demo_texts_def demo_rows_def FindByID_def QueryValidation_def
        query_defs prepare_def on_world_def stmt_Close_def Let_def)
  from saved_row_read_back [OF demo_table_db_table demo_calls _ c] have
    "\<exists>us\<in>written 1 {[7]} [Updating 1 [8], Updating 1 [13], Listing, Deleting 2] [Done, Failed, Rows [[1, 13]], Failed].
      Found [1, 13] = Found (demo_row 1 us)" by simp
  with c show ?thesis by blast
qed

end
