(* ===== verification/Redis_Client.thy ===== *)
theory Redis_Client
  imports Go_Fmt Go_Strconv
begin

text \<open>
  Package \<open>redis_client\<close> (\<open>redis.go\<close>): the client options with their 64-bit durations,
  the package-level client and limiter, and rate limiting. The go-redis client and the
  rate limiter are parameters.
\<close>

section \<open>Configuration and options (redis.go)\<close>

definition time_Second :: int64 where "time_Second = 1000000000"
definition time_Millisecond :: int64 where "time_Millisecond = 1000000"
definition time_Minute64 :: int64 where "time_Minute64 = 60000000000"

record 'tls RedisConfig =
  cfg_Username :: string
  cfg_Host :: string
  cfg_Port :: string
  cfg_Password :: string
  cfg_DB :: int
  cfg_Protocol :: int
  cfg_TLSConfig :: "'tls option"
  cfg_DisableIdentity :: bool
  cfg_MaintNotifications :: bool
  cfg_PoolSize :: int
  cfg_MinIdleConn :: int
  cfg_MaxIdleConn :: int
  cfg_PoolTimeout :: int64
  cfg_DialTimeout :: int64
  cfg_ReadTimeout :: int64
  cfg_WriteTimeout :: int64
  cfg_MaxRetries :: int
  cfg_MinRetryBackoff :: int64
  cfg_MaxRetryBackoff :: int64
  cfg_ConnMaxIdleTime :: int64
  cfg_ConnMaxLifeTime :: int64

datatype maint_mode = ModeDisabled | ModeAuto

record 'tls redis_Options =
  Addr :: string
  Password :: string
  opt_DB :: int
  opt_Username :: string
  Protocol :: int
  PoolSize :: int
  opt_MinIdleConns :: int
  opt_MaxIdleConns :: int
  PoolTimeout :: int64
  DialTimeout :: int64
  ReadTimeout :: int64
  WriteTimeout :: int64
  MaxRetries :: int
  MinRetryBackoff :: int64
  MaxRetryBackoff :: int64
  ConnMaxIdleTime64 :: int64
  ConnMaxLifetime64 :: int64
  TLSConfig :: "'tls option"
  DisableIdentity :: bool
  MaintNotificationsConfig :: maint_mode

definition clientOptions :: "'tls RedisConfig \<Rightarrow> go_error + 'tls redis_Options" where
  "clientOptions cfg =
    (if cfg_Protocol cfg \<notin> {0, 2, 3} then
       Inl (Errorf (''redis protocol must be 2 or 3, got '' @ int_text (cfg_Protocol cfg)))
     else
       (let protocol = (if cfg_Protocol cfg = 0 then 3 else cfg_Protocol cfg);
            maint = (if cfg_MaintNotifications cfg then ModeAuto else ModeDisabled)
        in Inr \<lparr>Addr = Sprintf ''%s:%s'' [FString (cfg_Host cfg), FString (cfg_Port cfg)],
             Password = cfg_Password cfg, opt_DB = cfg_DB cfg, opt_Username = cfg_Username cfg,
             Protocol = protocol, PoolSize = cfg_PoolSize cfg,
             opt_MinIdleConns = cfg_MinIdleConn cfg, opt_MaxIdleConns = cfg_MaxIdleConn cfg,
             PoolTimeout = cfg_PoolTimeout cfg * time_Second,
             DialTimeout = cfg_DialTimeout cfg * time_Second,
             ReadTimeout = cfg_ReadTimeout cfg * time_Millisecond,
             WriteTimeout = cfg_WriteTimeout cfg * time_Millisecond,
             MaxRetries = cfg_MaxRetries cfg,
             MinRetryBackoff = cfg_MinRetryBackoff cfg * time_Millisecond,
             MaxRetryBackoff = cfg_MaxRetryBackoff cfg * time_Millisecond,
             ConnMaxIdleTime64 = cfg_ConnMaxIdleTime cfg * time_Minute64,
             ConnMaxLifetime64 = cfg_ConnMaxLifeTime cfg * time_Minute64,
             TLSConfig = cfg_TLSConfig cfg, DisableIdentity = cfg_DisableIdentity cfg,
             MaintNotificationsConfig = maint\<rparr>))"


section \<open>Clients, and the package-level client and limiter\<close>

text \<open>
  A go-redis client is known by the number of its creation; a limiter by its client.
  \<open>redisClient\<close> holds both, and so do the package variables.
\<close>

record redisClient =
  rc_client :: nat
  rc_limiter :: nat

record ('tls, 'w) redis_state =
  g_client :: "nat option"
  g_limiter :: "nat option"
  clients :: "'tls redis_Options list"
  redis_world :: 'w

definition newClient ::
    "'tls RedisConfig option \<Rightarrow> ('tls, 'w) redis_state \<Rightarrow> (go_error + redisClient) \<times> ('tls, 'w) redis_state" where
  "newClient cfg s =
    (case cfg of
       None \<Rightarrow> (Inl (Errorf ''redis config is nil''), s)
     | Some c \<Rightarrow>
        (case clientOptions c of
           Inl e \<Rightarrow> (Inl e, s)
         | Inr opt \<Rightarrow>
            (let n = length (clients s)
             in (Inr \<lparr>rc_client = n, rc_limiter = n\<rparr>,
                 s\<lparr>g_client := Some n, g_limiter := Some n, clients := clients s @ [opt]\<rparr>))))"

definition NewRedisClient ::
    "'tls RedisConfig option \<Rightarrow> ('tls, 'w) redis_state \<Rightarrow> (go_error + redisClient) \<times> ('tls, 'w) redis_state" where
  "NewRedisClient redisCfg s = newClient redisCfg s"

definition NewValkeyClient ::
    "'tls RedisConfig option \<Rightarrow> ('tls, 'w) redis_state \<Rightarrow> (go_error + redisClient) \<times> ('tls, 'w) redis_state" where
  "NewValkeyClient cfg s = newClient cfg s"


section \<open>Rate limiting (redis.go)\<close>

text \<open>
  A call panics on a nil limiter, or when the context has no string under
  \<open>X-Client-IP\<close>. \<open>lim_Allow\<close> answers with the number of requests allowed now.
\<close>

record 'w limiter_ops =
  lim_Allow :: "nat \<Rightarrow> string \<Rightarrow> int \<Rightarrow> 'w \<Rightarrow> (go_error + int) \<times> 'w"

definition allow ::
    "'w limiter_ops \<Rightarrow> string \<Rightarrow> string option \<Rightarrow> nat option \<Rightarrow> ('tls, 'w) redis_state
       \<Rightarrow> err call \<times> ('tls, 'w) redis_state" where
  "allow L rateLimiter clientIP lim s =
    (let rateLimiterInt = fst (Atoi rateLimiter)
     in (case clientIP of
           None \<Rightarrow> (Panics, s)
         | Some ip \<Rightarrow>
            (case lim of
               None \<Rightarrow> (Panics, s)
             | Some l \<Rightarrow>
                (case lim_Allow L l ip rateLimiterInt (redis_world s) of
                   (Inl e, w) \<Rightarrow> (Returns (Some e), s\<lparr>redis_world := w\<rparr>)
                 | (Inr allowed, w) \<Rightarrow>
                     (Returns (if allowed = 0 then Some (Errorf ''Rate limit exceeded'') else None),
                      s\<lparr>redis_world := w\<rparr>)))))"

definition RateLimiter ::
    "'w limiter_ops \<Rightarrow> string \<Rightarrow> string option \<Rightarrow> ('tls, 'w) redis_state
       \<Rightarrow> err call \<times> ('tls, 'w) redis_state" where
  "RateLimiter L rateLimiter clientIP s = allow L rateLimiter clientIP (g_limiter s) s"

definition client_RateLimiter ::
    "'w limiter_ops \<Rightarrow> string \<Rightarrow> string option \<Rightarrow> redisClient \<Rightarrow> ('tls, 'w) redis_state
       \<Rightarrow> err call \<times> ('tls, 'w) redis_state" where
  "client_RateLimiter L rateLimiter clientIP c s = allow L rateLimiter clientIP (Some (rc_limiter c)) s"


section \<open>Access to the library's client (redis.go)\<close>

definition Client :: "redisClient \<Rightarrow> nat" where
  "Client c = rc_client c"

end
