(* ===== verification/Redis_Cache.thy ===== *)
theory Redis_Cache
  imports Redis_Client Go_Any
begin

text \<open>
  The operations of package \<open>redis_client\<close> on the server (\<open>cache.go\<close>, \<open>redis.go\<close>) and
  the interface \<open>Redis\<close> (\<open>interface.go\<close>) they implement. The commands of go-redis are a
  parameter; values are written as JSON text and read into an empty interface.
\<close>

section \<open>The commands\<close>

definition getRedisTimeout :: "string \<Rightarrow> int64" where
  "getRedisTimeout redisTimeout = (word_of_int (fst (Atoi redisTimeout)) :: int64) * time_Second"

text \<open>
  The commands sent through go-redis, on a world; \<open>to_json\<close> is the document of a Go
  value, or the error of a value that has none. \<^typ>\<open>'g\<close> are geo locations, \<^typ>\<open>'q\<close>
  geo queries.
\<close>

record ('v, 'g, 'q, 'w) redis_cmds =
  cmd_Set :: "string \<Rightarrow> string \<Rightarrow> int64 \<Rightarrow> 'w \<Rightarrow> err \<times> 'w"
  cmd_Get :: "string \<Rightarrow> 'w \<Rightarrow> (go_error + string) \<times> 'w"
  cmd_Del :: "string \<Rightarrow> 'w \<Rightarrow> err \<times> 'w"
  cmd_SetNX :: "string \<Rightarrow> 'v \<Rightarrow> int64 \<Rightarrow> 'w \<Rightarrow> (bool \<times> err) \<times> 'w"
  cmd_FlushDB :: "'w \<Rightarrow> err \<times> 'w"
  cmd_Ping :: "'w \<Rightarrow> err \<times> 'w"
  cmd_Publish :: "string \<Rightarrow> 'v \<Rightarrow> 'w \<Rightarrow> err \<times> 'w"
  cmd_GeoAdd :: "string \<Rightarrow> 'g \<Rightarrow> 'w \<Rightarrow> err \<times> 'w"
  cmd_GeoRadiusByMember :: "string \<Rightarrow> string \<Rightarrow> 'q \<Rightarrow> 'w \<Rightarrow> (err \<times> 'g list) \<times> 'w"
  to_json :: "'v \<Rightarrow> go_error + json"


section \<open>The operations\<close>

definition cache_Set ::
    "('v, 'g, 'q, 'w) redis_cmds \<Rightarrow> string \<Rightarrow> 'v \<Rightarrow> int64 \<Rightarrow> 'w \<Rightarrow> (bool \<times> err) \<times> 'w" where
  "cache_Set R key v timeExpire w =
    (case to_json R v of
       Inl e \<Rightarrow> ((False, Some e), w)
     | Inr j \<Rightarrow>
        (case cmd_Set R key (json_text j) timeExpire w of
           (Some e, w') \<Rightarrow> ((False, Some e), w')
         | (None, w') \<Rightarrow> ((True, None), w')))"

definition cache_Get :: "('v, 'g, 'q, 'w) redis_cmds \<Rightarrow> string \<Rightarrow> 'w \<Rightarrow> (go_error + any) \<times> 'w" where
  "cache_Get R key w =
    (case cmd_Get R key w of
       (Inl e, w') \<Rightarrow> (Inl e, w')
     | (Inr b, w') \<Rightarrow>
        (case json_Unmarshal_any b of
           Inl e \<Rightarrow> (Inl (Errorf (''json unmarshal err: '' @ error_text e)), w')
         | Inr v \<Rightarrow> (Inr v, w')))"

definition cache_Del :: "('v, 'g, 'q, 'w) redis_cmds \<Rightarrow> string \<Rightarrow> 'w \<Rightarrow> err \<times> 'w" where
  "cache_Del R key w = cmd_Del R key w"

text \<open>The two hash operations are not implemented.\<close>

definition cache_HDel :: "string \<Rightarrow> 'w \<Rightarrow> (bool \<times> err) call \<times> 'w" where
  "cache_HDel key w = (Panics, w)"

definition cache_HGet :: "string \<Rightarrow> 'w \<Rightarrow> (go_error + any) call \<times> 'w" where
  "cache_HGet key w = (Panics, w)"

definition cache_SetNX ::
    "('v, 'g, 'q, 'w) redis_cmds \<Rightarrow> string \<Rightarrow> 'v \<Rightarrow> int64 \<Rightarrow> 'w \<Rightarrow> (bool \<times> err) \<times> 'w" where
  "cache_SetNX R key v timeExpire w = cmd_SetNX R key v timeExpire w"

definition cache_GeoAdd :: "('v, 'g, 'q, 'w) redis_cmds \<Rightarrow> string \<Rightarrow> 'g \<Rightarrow> 'w \<Rightarrow> (bool \<times> err) \<times> 'w" where
  "cache_GeoAdd R key geoLoc w =
    (case cmd_GeoAdd R key geoLoc w of
       (Some e, w') \<Rightarrow> ((False, Some e), w')
     | (None, w') \<Rightarrow> ((True, None), w'))"

definition cache_GeoRadiusByMember ::
    "('v, 'g, 'q, 'w) redis_cmds \<Rightarrow> string \<Rightarrow> string \<Rightarrow> 'q \<Rightarrow> 'w \<Rightarrow> (go_error + 'g list) \<times> 'w" where
  "cache_GeoRadiusByMember R key member query w =
    (case cmd_GeoRadiusByMember R key member query w of
       ((Some e, _), w') \<Rightarrow> (Inl e, w')
     | ((None, val), w') \<Rightarrow> (Inr val, w'))"

definition Publish :: "('v, 'g, 'q, 'w) redis_cmds \<Rightarrow> string \<Rightarrow> 'v \<Rightarrow> 'w \<Rightarrow> (bool \<times> err) \<times> 'w" where
  "Publish R channel message w =
    (case cmd_Publish R channel message w of
       (Some e, w') \<Rightarrow> ((False, Some e), w')
     | (None, w') \<Rightarrow> ((True, None), w'))"

definition Ping :: "('v, 'g, 'q, 'w) redis_cmds \<Rightarrow> 'w \<Rightarrow> err \<times> 'w" where
  "Ping R w = cmd_Ping R w"

definition ClearCache :: "('v, 'g, 'q, 'w) redis_cmds \<Rightarrow> 'w \<Rightarrow> err \<times> 'w" where
  "ClearCache R w = cmd_FlushDB R w"


section \<open>The interface Redis (interface.go)\<close>

record ('v, 'g, 'q, 'w) Redis =
  m_Ping :: "'w \<Rightarrow> err \<times> 'w"
  m_Client :: nat
  m_ClearCache :: "'w \<Rightarrow> err \<times> 'w"
  m_Set :: "string \<Rightarrow> 'v \<Rightarrow> int64 \<Rightarrow> 'w \<Rightarrow> (bool \<times> err) \<times> 'w"
  m_Get :: "string \<Rightarrow> 'w \<Rightarrow> (go_error + any) \<times> 'w"
  m_SetNX :: "string \<Rightarrow> 'v \<Rightarrow> int64 \<Rightarrow> 'w \<Rightarrow> (bool \<times> err) \<times> 'w"
  m_HDel :: "string \<Rightarrow> 'w \<Rightarrow> (bool \<times> err) call \<times> 'w"
  m_HGet :: "string \<Rightarrow> 'w \<Rightarrow> (go_error + any) call \<times> 'w"
  m_Del :: "string \<Rightarrow> 'w \<Rightarrow> err \<times> 'w"
  m_Publish :: "string \<Rightarrow> 'v \<Rightarrow> 'w \<Rightarrow> (bool \<times> err) \<times> 'w"
  m_GeoAdd :: "string \<Rightarrow> 'g \<Rightarrow> 'w \<Rightarrow> (bool \<times> err) \<times> 'w"
  m_GeoRadiusByMember :: "string \<Rightarrow> string \<Rightarrow> 'q \<Rightarrow> 'w \<Rightarrow> (go_error + 'g list) \<times> 'w"

text \<open>\<open>var _ Redis = &redisClient{}\<close>: the methods of a client, \<open>R\<close> the commands of its own library client.\<close>

definition redisClient_Redis ::
    "(nat \<Rightarrow> ('v, 'g, 'q, 'w) redis_cmds) \<Rightarrow> redisClient \<Rightarrow> ('v, 'g, 'q, 'w) Redis" where
  "redisClient_Redis cmds c =
    (let R = cmds (rc_client c)
     in \<lparr>m_Ping = Ping R, m_Client = Client c, m_ClearCache = ClearCache R, m_Set = cache_Set R,
         m_Get = cache_Get R, m_SetNX = cache_SetNX R, m_HDel = cache_HDel, m_HGet = cache_HGet,
         m_Del = cache_Del R, m_Publish = Publish R, m_GeoAdd = cache_GeoAdd R,
         m_GeoRadiusByMember = cache_GeoRadiusByMember R\<rparr>)"


section \<open>What a server keeps\<close>

text \<open>
  Documented behaviour of go-redis and the server. An expiry is sent in whole
  milliseconds, at least one; zero is none. A key answers a read with the bytes stored
  until it expires, and with \<open>redis.Nil\<close> from then on; a set key is seen by no other key.
  \<open>wait n\<close> is the server \<open>n\<close> nanoseconds later, with no command in between. Negative
  expiries (such as \<open>KeepTTL\<close>) are left open.
\<close>

definition expiry_ns :: "int64 \<Rightarrow> int" where
  "expiry_ns t = max 1 (sint t div 1000000) * 1000000"

definition redis_Nil :: go_error where
  "redis_Nil = External ''redis: nil''"

definition keeps :: "('v, 'g, 'q, 'w) redis_cmds \<Rightarrow> (nat \<Rightarrow> 'w \<Rightarrow> 'w) \<Rightarrow> bool" where
  "keeps R wait \<longleftrightarrow>
     (\<forall>key b t w w'. 0 \<le> sint t \<longrightarrow> cmd_Set R key b t w = (None, w') \<longrightarrow>
        (\<forall>n. fst (cmd_Get R key (wait n w')) =
           (if t = 0 \<or> int n < expiry_ns t then Inr b else Inl redis_Nil)) \<and>
        (\<forall>other. other \<noteq> key \<longrightarrow> fst (cmd_Get R other w') = fst (cmd_Get R other w)))"

lemma cache_Set_sent:
  "cache_Set R key v t w = ((ok, e), w') \<Longrightarrow>
     (ok \<longleftrightarrow> e = None) \<and> (ok \<longrightarrow> (\<exists>j. to_json R v = Inr j \<and> cmd_Set R key (json_text j) t w = (None, w')))"
  by (auto simp: cache_Set_def split: sum.splits prod.splits option.splits)

lemma cache_Get_bytes:
  "fst (cmd_Get R key w) = Inr b \<Longrightarrow>
     fst (cache_Get R key w) =
       (case json_Unmarshal_any b of
          Inl e \<Rightarrow> Inl (Errorf (''json unmarshal err: '' @ error_text e)) | Inr v \<Rightarrow> Inr v)"
  by (auto simp: cache_Get_def split: sum.splits prod.splits)

lemma cache_Get_error: "fst (cmd_Get R key w) = Inl e \<Longrightarrow> fst (cache_Get R key w) = Inl e"
  by (auto simp: cache_Get_def split: sum.splits prod.splits)

lemma json_Unmarshal_any_text:
  "printable j \<Longrightarrow> json_Unmarshal_any (json_text j) =
     (case any_of_json j of None \<Rightarrow> Inl range_error | Some v \<Rightarrow> Inr v)"
  by (simp add: json_Unmarshal_any_def json_parse_text)

end
