(* ===== verification/Redis_Properties.thy ===== *)
theory Redis_Properties
  imports Redis_Cache
begin

text \<open>
  Properties of the Redis package: the expiry read from the environment, the client
  options, the two rate limiters, and what the cache gives back.
\<close>

section \<open>Durations\<close>

lemma sint_scaled:
  assumes "- (2 ^ 63) \<le> x * c" and "x * c < 2 ^ 63"
  shows "sint (word_of_int x * word_of_int c :: int64) = x * c"
  using assms unfolding wi_hom_mult sint_sbintrunc' by (simp add: signed_take_bit_int_eq_self)

lemma second_word: "time_Second = word_of_int 1000000000"
  by (simp add: time_Second_def)

text \<open>
  C30: The expiry read from the environment is exact for every number of seconds that
  fits (up to 9223372036), and zero when the variable is not set; but a number too
  large for an \<open>int\<close> is clamped by \<open>Atoi\<close>, its error ignored, and the product wraps
  around to minus one second, where the comment promises zero.
\<close>

theorem getRedisTimeout_values:
  assumes "n \<le> 9223372036" and "2 ^ 63 \<le> m"
  shows "sint (getRedisTimeout (nat_text n)) = int n * 1000000000 \<and>
    getRedisTimeout '''' = 0 \<and>
    sint (getRedisTimeout (nat_text m)) = - 1000000000"
proof (intro conjI)
  have "fst (Atoi (nat_text n)) = int n" using assms(1) by (simp add: Atoi_text maxInt_def)
  then show "sint (getRedisTimeout (nat_text n)) = int n * 1000000000"
    unfolding getRedisTimeout_def second_word using assms(1) by (subst sint_scaled) simp_all
  show "getRedisTimeout '''' = 0" by (simp add: getRedisTimeout_def Atoi_def Let_def)
  have "fst (Atoi (nat_text m)) = maxInt" using assms(2) by (simp add: Atoi_text maxInt_def)
  then show "sint (getRedisTimeout (nat_text m)) = - 1000000000"
    by (simp add: getRedisTimeout_def time_Second_def maxInt_def)
qed

theorem getRedisTimeout_values_witness:
  "sint (getRedisTimeout (nat_text 3600)) = int 3600 * 1000000000 \<and>
    getRedisTimeout '''' = 0 \<and>
    sint (getRedisTimeout (nat_text 99999999999999999999)) = - 1000000000"
  by (rule getRedisTimeout_values) simp_all

text \<open>
  The options of a configuration exist exactly for protocol 0 (then 3), 2 and 3;
  the address is host and port; pool and dial timeouts in seconds, read and write
  timeouts and back-offs in milliseconds and idle and life times in minutes are exact
  as long as they fit in 64 bits.
\<close>

theorem clientOptions_values:
  assumes "clientOptions cfg = Inr opt"
    and "\<bar>sint (cfg_PoolTimeout cfg)\<bar> \<le> 9223372036" and "\<bar>sint (cfg_ReadTimeout cfg)\<bar> \<le> 9223372036854"
    and "\<bar>sint (cfg_ConnMaxIdleTime cfg)\<bar> \<le> 153722867"
  shows "Protocol opt \<in> {2, 3} \<and> (cfg_Protocol cfg = 0 \<or> Protocol opt = cfg_Protocol cfg) \<and>
    Addr opt = cfg_Host cfg @ '':'' @ cfg_Port cfg \<and>
    sint (PoolTimeout opt) = sint (cfg_PoolTimeout cfg) * 1000000000 \<and>
    sint (ReadTimeout opt) = sint (cfg_ReadTimeout cfg) * 1000000 \<and>
    sint (ConnMaxIdleTime64 opt) = sint (cfg_ConnMaxIdleTime cfg) * 60000000000"
proof -
  have scaled: "sint (w * word_of_int c) = sint w * c"
    if "- (2 ^ 63) \<le> sint w * c" "sint w * c < 2 ^ 63" for w :: int64 and c
    using sint_scaled [OF that] by simp
  have "sint (cfg_PoolTimeout cfg * word_of_int 1000000000) = sint (cfg_PoolTimeout cfg) * 1000000000"
    by (rule scaled) (use assms(2) in simp_all)
  moreover have "sint (cfg_ReadTimeout cfg * word_of_int 1000000) = sint (cfg_ReadTimeout cfg) * 1000000"
    by (rule scaled) (use assms(3) in simp_all)
  moreover have "sint (cfg_ConnMaxIdleTime cfg * word_of_int 60000000000) =
      sint (cfg_ConnMaxIdleTime cfg) * 60000000000"
    by (rule scaled) (use assms(4) in simp_all)
  ultimately show ?thesis
    using assms(1)
    by (auto simp: clientOptions_def Let_def Sprintf_address time_Second_def time_Millisecond_def
        time_Minute64_def split: if_splits)
qed

definition demo_config :: "unit RedisConfig" where
  "demo_config = \<lparr>cfg_Username = '''', cfg_Host = ''localhost'', cfg_Port = ''6379'', cfg_Password = '''',
     cfg_DB = 0, cfg_Protocol = 0, cfg_TLSConfig = None, cfg_DisableIdentity = False,
     cfg_MaintNotifications = False, cfg_PoolSize = 10, cfg_MinIdleConn = 1, cfg_MaxIdleConn = 5,
     cfg_PoolTimeout = 4, cfg_DialTimeout = 5, cfg_ReadTimeout = 300, cfg_WriteTimeout = 300,
     cfg_MaxRetries = 3, cfg_MinRetryBackoff = 8, cfg_MaxRetryBackoff = 512, cfg_ConnMaxIdleTime = 30,
     cfg_ConnMaxLifeTime = 60\<rparr>"

theorem clientOptions_values_witness:
  "Protocol (projr (clientOptions demo_config)) \<in> {2, 3} \<and>
    (cfg_Protocol demo_config = 0 \<or> Protocol (projr (clientOptions demo_config)) = cfg_Protocol demo_config) \<and>
    Addr (projr (clientOptions demo_config)) = cfg_Host demo_config @ '':'' @ cfg_Port demo_config \<and>
    sint (PoolTimeout (projr (clientOptions demo_config))) = sint (cfg_PoolTimeout demo_config) * 1000000000 \<and>
    sint (ReadTimeout (projr (clientOptions demo_config))) = sint (cfg_ReadTimeout demo_config) * 1000000 \<and>
    sint (ConnMaxIdleTime64 (projr (clientOptions demo_config))) =
      sint (cfg_ConnMaxIdleTime demo_config) * 60000000000"
  by (rule clientOptions_values) (simp_all add: clientOptions_def Let_def demo_config_def)


section \<open>Rate limiting\<close>

text \<open>A sequence of constructor calls, \<open>True\<close> for \<open>NewValkeyClient\<close>, and the clients made.\<close>

fun construct_all ::
    "(bool \<times> 'tls RedisConfig option) list \<Rightarrow> ('tls, 'w) redis_state
       \<Rightarrow> redisClient list \<times> ('tls, 'w) redis_state" where
  "construct_all [] s = ([], s)"
| "construct_all ((valkey, cfg) # calls) s =
    (case (if valkey then NewValkeyClient cfg s else NewRedisClient cfg s) of
       (Inl e, s') \<Rightarrow> construct_all calls s'
     | (Inr c, s') \<Rightarrow> (let (cs, s'') = construct_all calls s' in (c # cs, s'')))"

lemma newClient_cases:
  "(\<exists>e. newClient cfg s = (Inl e, s)) \<or>
   (\<exists>opt. newClient cfg s = (Inr \<lparr>rc_client = length (clients s), rc_limiter = length (clients s)\<rparr>,
      s\<lparr>g_client := Some (length (clients s)), g_limiter := Some (length (clients s)),
        clients := clients s @ [opt]\<rparr>))"
  by (auto simp: newClient_def Let_def split: option.splits sum.splits)

lemma construct_all_limiters:
  "map rc_limiter (fst (construct_all calls s)) =
     [length (clients s)..<length (clients (snd (construct_all calls s)))] \<and>
   length (clients s) \<le> length (clients (snd (construct_all calls s))) \<and>
   g_limiter (snd (construct_all calls s)) =
     (if fst (construct_all calls s) = [] then g_limiter s
      else Some (rc_limiter (last (fst (construct_all calls s)))))"
proof (induction calls arbitrary: s)
  case (Cons call calls)
  obtain valkey cfg where call: "call = (valkey, cfg)" by (cases call)
  from newClient_cases [of cfg s] show ?case
  proof (elim disjE exE)
    fix opt
    assume n: "newClient cfg s = (Inr \<lparr>rc_client = length (clients s), rc_limiter = length (clients s)\<rparr>,
      s\<lparr>g_client := Some (length (clients s)), g_limiter := Some (length (clients s)),
        clients := clients s @ [opt]\<rparr>)" (is "_ = (_, ?s)")
    from Cons.IH [of ?s] show ?thesis
      by (auto simp: call n NewValkeyClient_def NewRedisClient_def upt_conv_Cons
          split: prod.splits)
  qed (use Cons.IH [of s] in \<open>auto simp: call NewValkeyClient_def NewRedisClient_def\<close>)
qed simp

lemma allow_no_address [simp]: "allow L rl None lim s = (Panics, s)"
  by (simp add: allow_def)

text \<open>
  C31: After any calls of the two constructors, some of which may fail, the package
  function \<open>RateLimiter\<close> is that of the last client made (of an earlier one when every
  call failed); the method of each client uses that client's limiter, which no other
  client has, whatever was made later. Both panic without a client address in the
  context, and the package function panics before any client was made.
\<close>

theorem RateLimiter_last_client:
  "let (cs, s') = construct_all calls s in
     RateLimiter L rl (Some ip) s' =
       (if cs = [] then allow L rl (Some ip) (g_limiter s) s'
        else client_RateLimiter L rl (Some ip) (last cs) s') \<and>
     (g_limiter s = None \<and> cs = [] \<longrightarrow> RateLimiter L rl (Some ip) s' = (Panics, s')) \<and>
     map rc_limiter cs = [length (clients s)..<length (clients s')] \<and>
     client_RateLimiter L rl (Some ip) c s' = allow L rl (Some ip) (Some (rc_limiter c)) s' \<and>
     RateLimiter L rl None s' = (Panics, s') \<and> client_RateLimiter L rl None c s' = (Panics, s')"
  using construct_all_limiters [of calls s]
  by (auto simp: RateLimiter_def client_RateLimiter_def allow_def [of _ _ _ None] split: prod.splits)

definition demo_limiter :: "nat limiter_ops" where
  "demo_limiter = \<lparr>lim_Allow = (\<lambda>l ip n w. (Inr (n - int w), w + 1))\<rparr>"

definition demo_redis :: "(unit, nat) redis_state" where
  "demo_redis = \<lparr>g_client = None, g_limiter = None, clients = [], redis_world = 0\<rparr>"

theorem RateLimiter_last_client_witness:
  "let (cs, s') = construct_all [(False, Some demo_config), (True, None), (True, Some demo_config)] demo_redis in
     map rc_limiter cs = [0, 1] \<and>
     RateLimiter demo_limiter ''2'' (Some ''ip'') s' = client_RateLimiter demo_limiter ''2'' (Some ''ip'') (last cs) s'"
  using RateLimiter_last_client [of "[(False, Some demo_config), (True, None), (True, Some demo_config)]"
      demo_redis demo_limiter "''2''" "''ip''"]
  by (simp add: NewRedisClient_def NewValkeyClient_def newClient_def clientOptions_def demo_config_def
      demo_redis_def Let_def upt_conv_Cons)


section \<open>The cache\<close>

text \<open>
  C29: A value set with an expiry, or with none, is read back until it expires, and from
  then on \<open>Get\<close> fails with \<open>redis.Nil\<close>. What is read back is the empty-interface form of
  its document: a struct becomes a map, and every number, whole or not, the nearest
  \<open>float64\<close> of its literal. Integers are exact below 2 to the 53; from there on different
  values are read as the same one. Other keys are not touched. (\<open>printable\<close> says that
  numbers are literals of the JSON grammar, as in every document the encoder writes.)
\<close>

theorem cache_roundtrip:
  assumes "keeps R wait" and "to_json R v = Inr j" and "printable j" and "0 \<le> sint t"
    and "cache_Set R key v t w = ((True, None), w')"
  shows "(t = 0 \<or> int n < expiry_ns t \<longrightarrow>
      fst (cache_Get R key (wait n w')) =
        (case any_of_json j of
           None \<Rightarrow> Inl (Errorf (''json unmarshal err: '' @ error_text range_error)) | Some a \<Rightarrow> Inr a) \<and>
      (\<forall>i. j = JNum i \<longrightarrow> \<bar>i\<bar> < 2 ^ 53 \<longrightarrow>
        (\<exists>f. fst (cache_Get R key (wait n w')) = Inr (AFloat (i < 0) f) \<and> float_trunc f = nat \<bar>i\<bar>)) \<and>
      (j = JNum 9007199254740993 \<longrightarrow>
        fst (cache_Get R key (wait n w')) = Inr (the (any_of_json (JNum 9007199254740992))))) \<and>
    (t \<noteq> 0 \<and> expiry_ns t \<le> int n \<longrightarrow> fst (cache_Get R key (wait n w')) = Inl redis_Nil) \<and>
    (\<forall>other. other \<noteq> key \<longrightarrow> fst (cache_Get R other w') = fst (cache_Get R other w))"
proof -
  have sent: "cmd_Set R key (json_text j) t w = (None, w')"
    using cache_Set_sent [OF assms(5)] assms(2) by auto
  have read: "fst (cmd_Get R key (wait n w')) =
      (if t = 0 \<or> int n < expiry_ns t then Inr (json_text j) else Inl redis_Nil)"
    using assms(1,4) sent unfolding keeps_def by blast
  have got: "fst (cache_Get R key (wait n w')) =
      (case any_of_json j of
         None \<Rightarrow> Inl (Errorf (''json unmarshal err: '' @ error_text range_error)) | Some a \<Rightarrow> Inr a)"
    if "t = 0 \<or> int n < expiry_ns t"
    using cache_Get_bytes [of R key "wait n w'" "json_text j"] read that
    by (simp add: json_Unmarshal_any_text [OF assms(3)] split: option.splits)
  have small: "\<exists>f. fst (cache_Get R key (wait n w')) = Inr (AFloat (i < 0) f) \<and> float_trunc f = nat \<bar>i\<bar>"
    if "t = 0 \<or> int n < expiry_ns t" and "j = JNum i" and "\<bar>i\<bar> < 2 ^ 53" for i
    using got [OF that(1)] any_of_small_int [OF that(3)] that(2,3) by (simp add: nat_less_iff del: any_of_json.simps)
  have "any_of_json (JNum 9007199254740992) \<noteq> None"
    by (simp add: nearest_float_def float_of_ratio_def scaled_def round_half_even_def bit_length.simps Let_def)
  then have large: "fst (cache_Get R key (wait n w')) = Inr (the (any_of_json (JNum 9007199254740992)))"
    if "t = 0 \<or> int n < expiry_ns t" and "j = JNum 9007199254740993"
    unfolding got [OF that(1)] unfolding that(2) any_of_large_int by (simp del: any_of_json.simps split: option.splits)
  have gone: "fst (cache_Get R key (wait n w')) = Inl redis_Nil" if "t \<noteq> 0 \<and> expiry_ns t \<le> int n"
    using cache_Get_error [of R key "wait n w'" redis_Nil] read that by simp
  have "fst (cmd_Get R other w') = fst (cmd_Get R other w)" if "other \<noteq> key" for other
    using assms(1,4) sent that unfolding keeps_def by blast
  then have others: "fst (cache_Get R other w') = fst (cache_Get R other w)" if "other \<noteq> key" for other
    using that by (auto simp: cache_Get_def split: sum.splits prod.splits) (metis fst_conv sum.sel sum.distinct)+
  show ?thesis
  proof (intro conjI impI)
    assume now: "t = 0 \<or> int n < expiry_ns t"
    show "fst (cache_Get R key (wait n w')) =
        (case any_of_json j of
           None \<Rightarrow> Inl (Errorf (''json unmarshal err: '' @ error_text range_error)) | Some a \<Rightarrow> Inr a)"
      by (rule got [OF now])
    show "\<forall>i. j = JNum i \<longrightarrow> \<bar>i\<bar> < 2 ^ 53 \<longrightarrow>
        (\<exists>f. fst (cache_Get R key (wait n w')) = Inr (AFloat (i < 0) f) \<and> float_trunc f = nat \<bar>i\<bar>)"
      using small [OF now] by blast
    assume "j = JNum 9007199254740993"
    then show "fst (cache_Get R key (wait n w')) = Inr (the (any_of_json (JNum 9007199254740992)))"
      by (rule large [OF now])
  qed (use gone others in blast)+
qed

text \<open>
  A server whose state is its keyspace, with the time each key expires at, and a clock;
  \<open>SetNX\<close> stores a string as it is, as go-redis does.
\<close>

type_synonym keyspace = "(string \<Rightarrow> (string \<times> int option) option) \<times> int"

definition live :: "string \<Rightarrow> keyspace \<Rightarrow> string option" where
  "live key w = (case fst w key of
     None \<Rightarrow> None
   | Some (b, None) \<Rightarrow> Some b
   | Some (b, Some e) \<Rightarrow> if snd w < e then Some b else None)"

definition store :: "string \<Rightarrow> string \<Rightarrow> int64 \<Rightarrow> keyspace \<Rightarrow> keyspace" where
  "store key b t w = ((fst w)(key := Some (b, if t = 0 \<or> sint t < 0 then None else Some (snd w + expiry_ns t))), snd w)"

definition demo_wait :: "nat \<Rightarrow> keyspace \<Rightarrow> keyspace" where
  "demo_wait n w = (fst w, snd w + int n)"

definition demo_server :: "(json, unit, unit, keyspace) redis_cmds" where
  "demo_server = \<lparr>cmd_Set = (\<lambda>key b t w. (None, store key b t w)),
     cmd_Get = (\<lambda>key w. (case live key w of None \<Rightarrow> Inl redis_Nil | Some b \<Rightarrow> Inr b, w)),
     cmd_Del = (\<lambda>key w. (None, ((fst w)(key := None), snd w))),
     cmd_SetNX = (\<lambda>key v t w. (case live key w of
        Some _ \<Rightarrow> ((False, None), w)
      | None \<Rightarrow> ((True, None), store key (case v of JStr s \<Rightarrow> s | _ \<Rightarrow> json_text v) t w))),
     cmd_FlushDB = (\<lambda>w. (None, (\<lambda>_. None, snd w))), cmd_Ping = (\<lambda>w. (None, w)), cmd_Publish = (\<lambda>ch m w. (None, w)),
     cmd_GeoAdd = (\<lambda>key g w. (None, w)), cmd_GeoRadiusByMember = (\<lambda>key m q w. ((None, []), w)),
     to_json = Inr\<rparr>"

lemma live_store:
  "other \<noteq> key \<Longrightarrow> live other (store key b t w) = live other w"
  "0 \<le> sint t \<Longrightarrow> live key (demo_wait n (store key b t w)) = (if t = 0 \<or> int n < expiry_ns t then Some b else None)"
  by (cases w, simp add: live_def store_def cong: option.case_cong) (simp add: live_def store_def demo_wait_def)

lemma demo_server_keeps: "keeps demo_server demo_wait"
  by (simp add: keeps_def demo_server_def live_store)

text \<open>A basket with a fractional total, cached for a minute: there after 59 seconds, gone after 60.\<close>

theorem cache_roundtrip_witness:
  "let j = JObj [(''total'', JDec ''1.5''), (''items'', JNum 3)];
       w' = snd (cache_Set demo_server ''basket:1'' j 60000000000 (\<lambda>_. None, 0))
   in fst (cache_Get demo_server ''basket:1'' (demo_wait 59000000000 w')) =
        Inr (AMap [(''total'', AFloat False (6755399441055744, -52)), (''items'', AFloat False (6755399441055744, -51))]) \<and>
      fst (cache_Get demo_server ''basket:1'' (demo_wait 60000000000 w')) = Inl redis_Nil"
proof -
  let ?j = "JObj [(''total'', JDec ''1.5''), (''items'', JNum 3)]"
  let ?w' = "snd (cache_Set demo_server ''basket:1'' ?j 60000000000 (\<lambda>_. None, 0))"
  have set: "cache_Set demo_server ''basket:1'' ?j 60000000000 (\<lambda>_. None, 0) = ((True, None), ?w')"
    by (simp add: cache_Set_def demo_server_def)
  have doc: "to_json demo_server ?j = Inr ?j" by (simp add: demo_server_def)
  have num: "printable ?j"
    by (simp add: json_number_def int_digits_def fraction_part_def exponent_part_def is_digit_def Let_def)
  have t: "0 \<le> sint (60000000000 :: int64)" "expiry_ns 60000000000 = 60000000000" "(60000000000 :: int64) \<noteq> 0"
    by (simp_all add: expiry_ns_def)
  have ratio: "literal_ratio ''1.5'' = (False, 15, 10)"
    by (simp add: literal_ratio_def int_digits_def fraction_part_def exponent_part_def is_digit_def digit_def
        exponent_value_def Let_def)
  have floats: "nearest_float 15 10 = Some (6755399441055744, -52)" "nearest_float 3 (Suc 0) = Some (6755399441055744, -51)"
    by (simp_all add: nearest_float_def float_of_ratio_def scaled_def round_half_even_def bit_length.simps Let_def)
  have any: "any_of_json ?j =
      Some (AMap [(''total'', AFloat False (6755399441055744, -52)), (''items'', AFloat False (6755399441055744, -51))])"
    by (simp add: ratio floats AList.update.simps)
  note C = cache_roundtrip [OF demo_server_keeps doc num t(1) set]
  show ?thesis
    using C [of 59000000000] C [of 60000000000] by (simp add: t any Let_def del: any_of_json.simps)
qed

text \<open>
  \<open>SetNX\<close> does not write JSON, so a plain string it has stored is refused by \<open>Get\<close>, with
  an error that hides its cause from \<open>errors.Is\<close>.
\<close>

theorem SetNX_string_unreadable:
  "\<exists>w'. cache_SetNX demo_server ''lock'' (JStr ''worker 7'') 0 (\<lambda>_. None, 0) = ((True, None), w') \<and>
    fst (cache_Get demo_server ''lock'' w') =
      Inl (Errorf (''json unmarshal err: '' @ error_text json_syntax_error))"
proof -
  have "json_parse ''worker 7'' = Inl json_syntax_error"
    by (simp add: json_parse_def eval_nat_numeral json_literal_def json_number_def int_digits_def is_digit_def skip_space_def Let_def)
  then show ?thesis
    by (simp add: cache_SetNX_def demo_server_def cache_Get_def json_Unmarshal_any_def store_def live_def)
qed

end
