(* ===== verification/Nsq_Client.thy ===== *)
theory Nsq_Client
  imports Go_Fmt
begin

text \<open>
  Package \<open>nsq_client\<close> (\<open>nsq.go\<close>, \<open>publisher.go\<close>): connecting a producer, publishing,
  and registering a consumer with the function it runs for each message. The NSQ library is
  the record \<open>nsq_pkg\<close> of functions on a world; what it does with a handler it is given is
  its own affair.
\<close>

section \<open>The client\<close>

definition nsq_Second :: int64 where "nsq_Second = 1000000000"

record NSQConfig =
  NSQDHost :: string
  NSQDTCPPort :: string
  LookupdHttpPort :: string
  MaxInFlight :: int
  ConcurrentConsumer :: int
  nsq_ReadTimeout :: int64
  nsq_WriteTimeout :: int64
  HeartbeatInterval :: int64
  BackoffMultiplier :: int64
  MaxBackoffDuration :: int64

text \<open>The library's configuration, with the fields the code sets.\<close>

record nsq_Config =
  nc_MaxInFlight :: int
  nc_ReadTimeout :: int64
  nc_WriteTimeout :: int64
  nc_HeartbeatInterval :: int64
  nc_BackoffMultiplier :: int64
  nc_MaxBackoffDuration :: int64

text \<open>
  A message as the code sees it: its body, and the delays of the calls of \<open>Requeue\<close> on it. A
  handler works on the state \<^typ>\<open>'u\<close> of the program; it may call \<open>Requeue\<close> and returns an error.
\<close>

record nsq_Message =
  msg_Body :: string
  msg_Requeues :: "int list"

type_synonym 'u nsq_handler = "nsq_Message \<Rightarrow> 'u \<Rightarrow> (err \<times> nsq_Message) \<times> 'u"

record ('p, 'c, 'u, 'w) nsq_pkg =
  NewProducer :: "string \<Rightarrow> nsq_Config \<Rightarrow> 'w \<Rightarrow> (go_error + 'p) \<times> 'w"
  producer_Ping :: "'p \<Rightarrow> 'w \<Rightarrow> err \<times> 'w"
  producer_Publish :: "'p \<Rightarrow> string \<Rightarrow> string \<Rightarrow> 'w \<Rightarrow> err \<times> 'w"
  NewConsumer :: "string \<Rightarrow> string \<Rightarrow> nsq_Config \<Rightarrow> 'w \<Rightarrow> (go_error + 'c) \<times> 'w"
  AddConcurrentHandlers :: "'c \<Rightarrow> 'u nsq_handler \<Rightarrow> int \<Rightarrow> 'w \<Rightarrow> 'w"
  ConnectToNSQD :: "'c \<Rightarrow> string \<Rightarrow> 'w \<Rightarrow> err \<times> 'w"

record 'p nsqClient =
  pub :: 'p
  nsq_config :: NSQConfig
  nsqConfig :: nsq_Config
  lookupd :: string
  concurrentConsumer :: int

definition NewNsqClient ::
    "('p, 'c, 'u, 'w) nsq_pkg \<Rightarrow> NSQConfig \<Rightarrow> 'w \<Rightarrow> (go_error + 'p nsqClient) \<times> 'w" where
  "NewNsqClient N cfg w =
    (let conf = \<lparr>nc_MaxInFlight = MaxInFlight cfg, nc_ReadTimeout = nsq_ReadTimeout cfg * nsq_Second,
           nc_WriteTimeout = nsq_WriteTimeout cfg * nsq_Second,
           nc_HeartbeatInterval = HeartbeatInterval cfg * nsq_Second,
           nc_BackoffMultiplier = BackoffMultiplier cfg * nsq_Second,
           nc_MaxBackoffDuration = MaxBackoffDuration cfg * nsq_Second\<rparr>;
         addr = Sprintf ''%s:%s'' [FString (NSQDHost cfg), FString (NSQDTCPPort cfg)]
     in (case NewProducer N addr conf w of
           (Inl e, w1) \<Rightarrow> (Inl (Wrapf ''failed to create NSQ producer: '' e), w1)
         | (Inr producer, w1) \<Rightarrow>
            (case producer_Ping N producer w1 of
               (Some e, w2) \<Rightarrow> (Inl (Wrapf (''nsqd unreachable at '' @ addr @ '': '') e), w2)
             | (None, w2) \<Rightarrow>
                (Inr \<lparr>pub = producer, nsq_config = cfg, nsqConfig = conf,
                   lookupd = Sprintf ''%s:%s'' [FString (NSQDHost cfg), FString (LookupdHttpPort cfg)],
                   concurrentConsumer = ConcurrentConsumer cfg\<rparr>, w2))))"

definition nsq_Publish :: "('p, 'c, 'u, 'w) nsq_pkg \<Rightarrow> 'p nsqClient \<Rightarrow> string \<Rightarrow> string \<Rightarrow> 'w \<Rightarrow> err \<times> 'w" where
  "nsq_Publish N n topic body w = producer_Publish N (pub n) topic body w"


section \<open>Handling a message\<close>

text \<open>
  The context of a message: the value stored under the topic, and a time limit. The
  caller's \<open>handlerFunc\<close> gets the context and a string. The function literal around it
  always returns nil, so the branch of an error is never taken.
\<close>

record message_ctx =
  ctx_key :: string
  ctx_value :: string
  ctx_timeout :: int

definition handleMessage :: "string \<Rightarrow> (message_ctx \<Rightarrow> string \<Rightarrow> 'u \<Rightarrow> 'u) \<Rightarrow> 'u nsq_handler" where
  "handleMessage topic handlerFunc msg u =
    (let body = msg_Body msg;
         ctx = \<lparr>ctx_key = topic, ctx_value = body, ctx_timeout = 30 * 1000000000\<rparr>;
         literal = (\<lambda>v. (None :: err, handlerFunc ctx body v));
         (e, u1) = literal u
     in (case e of
           Some x \<Rightarrow> ((Some x, msg\<lparr>msg_Requeues := msg_Requeues msg @ [-1]\<rparr>), u1)
         | None \<Rightarrow> ((None, msg), u1)))"

definition RegisterConsumer ::
    "('p, 'c, 'u, 'w) nsq_pkg \<Rightarrow> 'p nsqClient \<Rightarrow> string \<Rightarrow> string \<Rightarrow> (message_ctx \<Rightarrow> string \<Rightarrow> 'u \<Rightarrow> 'u)
       \<Rightarrow> 'w \<Rightarrow> err \<times> 'w" where
  "RegisterConsumer N n topic channel handlerFunc w =
    (case NewConsumer N topic channel (nsqConfig n) w of
       (Inl e, w1) \<Rightarrow> (Some (Wrapf ''failed to create NSQ consumer: '' e), w1)
     | (Inr consumer, w1) \<Rightarrow>
        (let w2 = AddConcurrentHandlers N consumer (handleMessage topic handlerFunc) (concurrentConsumer n) w1;
             nsqdAddr = Sprintf ''%s:%s'' [FString (NSQDHost (nsq_config n)), FString (NSQDTCPPort (nsq_config n))]
         in (case ConnectToNSQD N consumer nsqdAddr w2 of
               (Some e, w3) \<Rightarrow> (Some (Wrapf ''failed to connect to nsqd: '' e), w3)
             | (None, w3) \<Rightarrow> (None, w3))))"


text \<open>The interface \<open>Nsq\<close> (\<open>interface.go\<close>), and a \<open>*nsqClient\<close> as a value of it.\<close>

record ('u, 'w) Nsq =
  nq_Publish :: "string \<Rightarrow> string \<Rightarrow> 'w \<Rightarrow> err \<times> 'w"
  nq_RegisterConsumer :: "string \<Rightarrow> string \<Rightarrow> (message_ctx \<Rightarrow> string \<Rightarrow> 'u \<Rightarrow> 'u) \<Rightarrow> 'w \<Rightarrow> err \<times> 'w"

definition nsqClient_Nsq :: "('p, 'c, 'u, 'w) nsq_pkg \<Rightarrow> 'p nsqClient \<Rightarrow> ('u, 'w) Nsq" where
  "nsqClient_Nsq N n = \<lparr>nq_Publish = nsq_Publish N n, nq_RegisterConsumer = RegisterConsumer N n\<rparr>"

text \<open>The interface \<open>Publish\<close> is a subset of it: every value of \<open>Nsq\<close> is one.\<close>

record 'w Publish =
  pb_Publish :: "string \<Rightarrow> string \<Rightarrow> 'w \<Rightarrow> err \<times> 'w"

definition Nsq_Publish :: "('u, 'w) Nsq \<Rightarrow> 'w Publish" where
  "Nsq_Publish n = \<lparr>pb_Publish = nq_Publish n\<rparr>"

end
