(* ===== verification/Nsq_Consumer.thy ===== *)
theory Nsq_Consumer
  imports Nsq_Client
begin

text \<open>
  A client from its configuration to its consumers (\<open>nsq.go\<close>), over what \<open>go-nsq\<close>
  documents of the handlers it is given.
\<close>

section \<open>The handlers of the library\<close>

datatype disposition = Finish | Requeue

text \<open>
  What \<open>go-nsq\<close> documents of a handler: a message is finished when the handler returns nil,
  and requeued when it returns an error or has called \<open>Requeue\<close> itself.
\<close>

definition answer_of :: "err \<times> nsq_Message \<Rightarrow> disposition" where
  "answer_of r = (if fst r = None \<and> msg_Requeues (snd r) = [] then Finish else Requeue)"

text \<open>
  \<open>served w c as\<close> says that from the state \<open>w\<close> of the library on, the consumer \<open>c\<close> has answered
  messages with the bodies and answers \<open>as\<close>. Whatever the number of its goroutines and the
  order and the states of the program in which they run, each answer is that of a call of the
  handler that was added to the consumer.
\<close>

definition runs_handlers ::
    "('p, 'c, 'u, 'w) nsq_pkg \<Rightarrow> ('w \<Rightarrow> 'c \<Rightarrow> (string \<times> disposition) list \<Rightarrow> bool) \<Rightarrow> bool" where
  "runs_handlers N served \<longleftrightarrow>
     (\<forall>topic channel conf w c w1 h k addr e w2 as b a.
        NewConsumer N topic channel conf w = (Inr c, w1) \<longrightarrow>
        ConnectToNSQD N c addr (AddConcurrentHandlers N c h k w1) = (e, w2) \<longrightarrow> served w2 c as \<longrightarrow>
        (b, a) \<in> set as \<longrightarrow> (\<exists>u. a = answer_of (fst (h \<lparr>msg_Body = b, msg_Requeues = []\<rparr> u))))"

lemma handleMessage_eq:
  "handleMessage topic f msg u =
    ((None, msg), f \<lparr>ctx_key = topic, ctx_value = msg_Body msg, ctx_timeout = 30000000000\<rparr> (msg_Body msg) u)"
  by (simp add: handleMessage_def Let_def)

lemma served_finished:
  assumes "runs_handlers N served" and "NewConsumer N topic channel conf w = (Inr c, w1)"
    and "ConnectToNSQD N c addr (AddConcurrentHandlers N c (handleMessage topic f) k w1) = (e, w2)"
    and "served w2 c as" and "(b, a) \<in> set as"
  shows "a = Finish"
proof -
  from assms obtain u where "a = answer_of (fst (handleMessage topic f \<lparr>msg_Body = b, msg_Requeues = []\<rparr> u))"
    unfolding runs_handlers_def by blast
  then show ?thesis by (simp add: answer_of_def handleMessage_eq)
qed

lemma NewNsqClient_made:
  assumes "NewNsqClient N cfg w = (Inr n, w')"
  shows "nsq_config n = cfg \<and> concurrentConsumer n = ConcurrentConsumer cfg \<and>
    (\<exists>w1. NewProducer N (NSQDHost cfg @ '':'' @ NSQDTCPPort cfg) (nsqConfig n) w = (Inr (pub n), w1) \<and>
      producer_Ping N (pub n) w1 = (None, w'))"
  using assms by (auto simp: NewNsqClient_def Let_def Sprintf_address split: prod.splits sum.splits option.splits)


section \<open>Properties\<close>

text \<open>
  C37: A client that \<open>NewNsqClient\<close> made of a configuration has a producer that answered a
  ping, and registers its consumers with the same library configuration and at the same
  address as that producer's. A consumer the library refuses is neither given a handler nor
  connected. Otherwise it gets one handler, with the \<open>ConcurrentConsumer\<close> of the configuration
  for the number of its goroutines, before it is connected; and the result is nil or the
  wrapped error of the connection. The handler calls the caller's function once, with the body
  both as its argument and under the topic in its context, and returns nil: whatever messages
  the library gives it, each that it answers is finished and none is requeued.
\<close>

theorem consumer_registered:
  assumes "NewNsqClient N cfg w0 = (Inr n, w1)" and "runs_handlers N served"
  shows "(\<exists>w. NewProducer N (NSQDHost cfg @ '':'' @ NSQDTCPPort cfg) (nsqConfig n) w0 = (Inr (pub n), w) \<and>
      producer_Ping N (pub n) w = (None, w1)) \<and>
    (case NewConsumer N topic channel (nsqConfig n) v of
       (Inl e, v1) \<Rightarrow> RegisterConsumer N n topic channel f v = (Some (Wrapf ''failed to create NSQ consumer: '' e), v1)
     | (Inr c, v1) \<Rightarrow> \<exists>h e v2.
         ConnectToNSQD N c (NSQDHost cfg @ '':'' @ NSQDTCPPort cfg)
           (AddConcurrentHandlers N c h (ConcurrentConsumer cfg) v1) = (e, v2) \<and>
         RegisterConsumer N n topic channel f v = (map_option (Wrapf ''failed to connect to nsqd: '') e, v2) \<and>
         (\<forall>msg u. h msg u = ((None, msg),
            f \<lparr>ctx_key = topic, ctx_value = msg_Body msg, ctx_timeout = 30000000000\<rparr> (msg_Body msg) u)) \<and>
         (\<forall>as. served v2 c as \<longrightarrow> snd ` set as \<subseteq> {Finish}))"
proof (intro conjI)
  note made = NewNsqClient_made [OF assms(1)]
  then show "\<exists>w. NewProducer N (NSQDHost cfg @ '':'' @ NSQDTCPPort cfg) (nsqConfig n) w0 = (Inr (pub n), w) \<and>
      producer_Ping N (pub n) w = (None, w1)" by blast
  obtain r v1 where c: "NewConsumer N topic channel (nsqConfig n) v = (r, v1)" by fastforce
  show "case NewConsumer N topic channel (nsqConfig n) v of
       (Inl e, v1) \<Rightarrow> RegisterConsumer N n topic channel f v = (Some (Wrapf ''failed to create NSQ consumer: '' e), v1)
     | (Inr c, v1) \<Rightarrow> \<exists>h e v2.
         ConnectToNSQD N c (NSQDHost cfg @ '':'' @ NSQDTCPPort cfg)
           (AddConcurrentHandlers N c h (ConcurrentConsumer cfg) v1) = (e, v2) \<and>
         RegisterConsumer N n topic channel f v = (map_option (Wrapf ''failed to connect to nsqd: '') e, v2) \<and>
         (\<forall>msg u. h msg u = ((None, msg),
            f \<lparr>ctx_key = topic, ctx_value = msg_Body msg, ctx_timeout = 30000000000\<rparr> (msg_Body msg) u)) \<and>
         (\<forall>as. served v2 c as \<longrightarrow> snd ` set as \<subseteq> {Finish})"
  proof (cases r)
    case (Inr k)
    let ?h = "handleMessage topic f"
    obtain e v2 where d: "ConnectToNSQD N k (NSQDHost cfg @ '':'' @ NSQDTCPPort cfg)
        (AddConcurrentHandlers N k ?h (ConcurrentConsumer cfg) v1) = (e, v2)" by fastforce
    have "RegisterConsumer N n topic channel f v = (map_option (Wrapf ''failed to connect to nsqd: '') e, v2)"
      using c Inr d made by (simp add: RegisterConsumer_def Let_def Sprintf_address split: option.splits)
    moreover have "\<forall>as. served v2 k as \<longrightarrow> snd ` set as \<subseteq> {Finish}"
      using served_finished [OF assms(2) c [unfolded Inr] d] by force
    ultimately show ?thesis
      unfolding c Inr prod.case sum.case using d handleMessage_eq [of topic f]
      by (intro exI [of _ ?h] exI [of _ e] exI [of _ v2]) simp
  qed (simp add: c RegisterConsumer_def)
qed

text \<open>
  A library whose consumers are numbered; the handlers added to each, with their numbers of
  goroutines, are its state. Each consumer with a handler has answered two messages.
\<close>

definition demo_nsq :: "(unit, nat, nat, (nat nsq_handler \<times> int) list) nsq_pkg" where
  "demo_nsq = \<lparr>NewProducer = (\<lambda>addr conf w. (Inr (), w)), producer_Ping = (\<lambda>p w. (None, w)),
     producer_Publish = (\<lambda>p t b w. (None, w)),
     NewConsumer = (\<lambda>t ch conf w. (if t = '''' then Inl (External ''invalid topic name'') else Inr (length w), w)),
     AddConcurrentHandlers = (\<lambda>c h k w. w @ [(h, k)]), ConnectToNSQD = (\<lambda>c addr w. (None, w))\<rparr>"

definition demo_served :: "(nat nsq_handler \<times> int) list \<Rightarrow> nat \<Rightarrow> (string \<times> disposition) list \<Rightarrow> bool" where
  "demo_served w c as \<longleftrightarrow>
     as = map (\<lambda>b. (b, answer_of (fst (fst (w ! c) \<lparr>msg_Body = b, msg_Requeues = []\<rparr> 0)))) [''a'', ''b'']"

definition demo_nsq_config :: NSQConfig where
  "demo_nsq_config = \<lparr>NSQDHost = ''localhost'', NSQDTCPPort = ''4150'', LookupdHttpPort = ''4161'', MaxInFlight = 10,
     ConcurrentConsumer = 2, nsq_ReadTimeout = 1, nsq_WriteTimeout = 1, HeartbeatInterval = 1,
     BackoffMultiplier = 1, MaxBackoffDuration = 1\<rparr>"

definition demo_nsq_client :: "unit nsqClient" where
  "demo_nsq_client = projr (fst (NewNsqClient demo_nsq demo_nsq_config []))"

theorem consumer_registered_witness:
  "\<exists>h. RegisterConsumer demo_nsq demo_nsq_client ''orders'' ''billing'' (\<lambda>ctx b u. u + length b) [] =
       (None, [(h, ConcurrentConsumer demo_nsq_config)]) \<and>
     (\<forall>msg u. h msg u = ((None, msg), u + length (msg_Body msg))) \<and>
     demo_served [(h, 2)] 0 [(''a'', Finish), (''b'', Finish)]"
proof -
  have n: "NewNsqClient demo_nsq demo_nsq_config [] = (Inr demo_nsq_client, [])"
    by (simp add: demo_nsq_client_def NewNsqClient_def demo_nsq_def Let_def)
  have runs: "runs_handlers demo_nsq demo_served"
    by (auto simp: runs_handlers_def demo_nsq_def demo_served_def nth_append split: if_splits)
  from consumer_registered [OF n runs, where topic = "''orders''" and channel = "''billing''" and v = "[]" and
      f = "\<lambda>ctx b u. u + length b"]
  obtain h where "RegisterConsumer demo_nsq demo_nsq_client ''orders'' ''billing'' (\<lambda>ctx b u. u + length b) [] =
      (None, [(h, ConcurrentConsumer demo_nsq_config)])"
    "\<forall>msg u. h msg u = ((None, msg), u + length (msg_Body msg))"
    by (auto simp: demo_nsq_def)
  then show ?thesis
    by (intro exI [of _ h]) (simp add: demo_served_def answer_of_def)
qed

end
