(* ===== verification/Storage_Manager.thy ===== *)
theory Storage_Manager
  imports Go_Fmt "HOL-Library.Sublist"
begin

text \<open>
  Package \<open>tigris\<close> (\<open>tigris.go\<close>, \<open>s3.go\<close>, \<open>storage_manager.go\<close>): two object stores behind
  one interface, and the handler that names the one in use. The S3 protocol client is
  the record \<open>s3_api\<close>; reading a body gives the bytes read and perhaps an error.
\<close>

section \<open>The protocol client\<close>

record ('o, 'w) s3_api =
  api_CreateBucket :: "string \<Rightarrow> 'w \<Rightarrow> err \<times> 'w"
  api_PutObject :: "string \<Rightarrow> string \<Rightarrow> string \<Rightarrow> 'w \<Rightarrow> err \<times> 'w"
  api_GetObject :: "string \<Rightarrow> string \<Rightarrow> 'w \<Rightarrow> (go_error + string \<times> err) \<times> 'w"
  api_ListObjectsV2 :: "string \<Rightarrow> 'w \<Rightarrow> (go_error + 'o list) \<times> 'w"

record StorageManagerConfig =
  AccessKeyID :: string
  SecretAccessKey :: string
  EndpointURL :: string
  Region :: string

definition tigrisBaseURL :: string where
  "tigrisBaseURL = ''https://%s.fly.storage.tigris.dev/%s''"

definition awsS3URLPath :: string where
  "awsS3URLPath = ''https://%s.s3.%s.amazonaws.com/%s''"


section \<open>Tigris (tigris.go)\<close>

record ('o, 'w) tigrisClient =
  tg_storageManager :: StorageManagerConfig
  tigrisStorageClient :: "('o, 'w) s3_api"

text \<open>The options given to \<open>storage.New\<close>.\<close>

record tigris_options =
  WithEndpoint :: string
  WithAccessKeypair :: "string \<times> string"
  WithRegion :: string

definition NewTigrisClient ::
    "(tigris_options \<Rightarrow> go_error + ('o, 'w) s3_api) \<Rightarrow> StorageManagerConfig \<Rightarrow> go_error + ('o, 'w) tigrisClient" where
  "NewTigrisClient storage_New config =
    (case storage_New \<lparr>WithEndpoint = EndpointURL config,
         WithAccessKeypair = (AccessKeyID config, SecretAccessKey config), WithRegion = Region config\<rparr> of
       Inl e \<Rightarrow> Inl e
     | Inr c \<Rightarrow> Inr \<lparr>tg_storageManager = config, tigrisStorageClient = c\<rparr>)"

definition tigris_CreateBucket :: "('o, 'w) s3_api \<Rightarrow> string \<Rightarrow> 'w \<Rightarrow> err \<times> 'w" where
  "tigris_CreateBucket A bucketName w = api_CreateBucket A bucketName w"

definition tigris_CreateForkBucket :: "string \<Rightarrow> string \<Rightarrow> 'w \<Rightarrow> err call \<times> 'w" where
  "tigris_CreateForkBucket bucketName forkBucketName w = (Panics, w)"

definition tigris_UploadObject ::
    "('o, 'w) s3_api \<Rightarrow> string \<Rightarrow> string \<Rightarrow> string \<Rightarrow> 'w \<Rightarrow> (string \<times> err) \<times> 'w" where
  "tigris_UploadObject A bucketName key file w =
    (case api_PutObject A bucketName key file w of
       (Some e, w') \<Rightarrow> (('''', Some e), w')
     | (None, w') \<Rightarrow> ((Sprintf tigrisBaseURL [FString bucketName, FString key], None), w'))"

definition tigris_DownloadObject ::
    "('o, 'w) s3_api \<Rightarrow> string \<Rightarrow> string \<Rightarrow> 'w \<Rightarrow> (go_error + string) \<times> 'w" where
  "tigris_DownloadObject A bucketName fileName w =
    (case api_GetObject A bucketName fileName w of
       (Inl e, w') \<Rightarrow> (Inl e, w')
     | (Inr (data, readErr), w') \<Rightarrow> (Inr data, w'))"

definition tigris_ListObject ::
    "('o, 'w) s3_api \<Rightarrow> string \<Rightarrow> 'w \<Rightarrow> (go_error + 'o list) \<times> 'w" where
  "tigris_ListObject A bucketName w = api_ListObjectsV2 A bucketName w"


section \<open>S3 (s3.go)\<close>

record ('o, 'w) s3Client =
  s3_storageManager :: StorageManagerConfig
  awsS3Client :: "('o, 'w) s3_api"

text \<open>
  The fields of \<open>s3.Options\<close> the constructor sets; the credentials are what its provider
  returns: key, secret and session token.
\<close>

record s3_Options =
  o_Region :: string
  o_BaseEndpoint :: "string option"
  o_Credentials :: "string \<times> string \<times> string"

definition NewS3Client ::
    "(go_error + 'c) \<Rightarrow> ('c \<Rightarrow> (s3_Options \<Rightarrow> s3_Options) \<Rightarrow> ('o, 'w) s3_api) \<Rightarrow> StorageManagerConfig
       \<Rightarrow> go_error + ('o, 'w) s3Client" where
  "NewS3Client loadDefaultConfig s3_NewFromConfig config =
    (case loadDefaultConfig of
       Inl e \<Rightarrow> Inl e
     | Inr awsConfig \<Rightarrow>
        Inr \<lparr>s3_storageManager = config,
          awsS3Client = s3_NewFromConfig awsConfig (\<lambda>opts. opts\<lparr>o_Region := Region config,
            o_BaseEndpoint := Some (EndpointURL config),
            o_Credentials := (AccessKeyID config, SecretAccessKey config, '''')\<rparr>)\<rparr>)"

definition s3_CreateBucket :: "('o, 'w) s3_api \<Rightarrow> string \<Rightarrow> 'w \<Rightarrow> err \<times> 'w" where
  "s3_CreateBucket A bucketName w = api_CreateBucket A bucketName w"

definition s3_CreateForkBucket :: "string \<Rightarrow> string \<Rightarrow> 'w \<Rightarrow> err \<times> 'w" where
  "s3_CreateForkBucket bucketName forkBucketName w = (None, w)"

definition s3_UploadObject ::
    "('o, 'w) s3_api \<Rightarrow> StorageManagerConfig \<Rightarrow> string \<Rightarrow> string \<Rightarrow> string \<Rightarrow> 'w \<Rightarrow> (string \<times> err) \<times> 'w" where
  "s3_UploadObject A storageManager bucketName key file w =
    (case api_PutObject A bucketName key file w of
       (Some e, w') \<Rightarrow> (('''', Some e), w')
     | (None, w') \<Rightarrow>
         ((Sprintf awsS3URLPath [FString bucketName, FString (Region storageManager), FString key], None), w'))"

definition s3_DownloadObject ::
    "('o, 'w) s3_api \<Rightarrow> string \<Rightarrow> string \<Rightarrow> 'w \<Rightarrow> (go_error + string) \<times> 'w" where
  "s3_DownloadObject A bucketName fileName w =
    (case api_GetObject A bucketName fileName w of
       (Inl e, w') \<Rightarrow> (Inl e, w')
     | (Inr (data, readErr), w') \<Rightarrow> (Inr data, w'))"

definition s3_ListObject ::
    "('o, 'w) s3_api \<Rightarrow> string \<Rightarrow> 'w \<Rightarrow> (go_error + 'o list) \<times> 'w" where
  "s3_ListObject A bucketName w = api_ListObjectsV2 A bucketName w"


section \<open>The interface and the handler (storage_manager.go)\<close>

record ('o, 'w) StorageManager =
  m_CreateBucket :: "string \<Rightarrow> 'w \<Rightarrow> err call \<times> 'w"
  m_CreateForkBucket :: "string \<Rightarrow> string \<Rightarrow> 'w \<Rightarrow> err call \<times> 'w"
  m_UploadObject :: "string \<Rightarrow> string \<Rightarrow> string \<Rightarrow> 'w \<Rightarrow> (string \<times> err) call \<times> 'w"
  m_DownloadObject :: "string \<Rightarrow> string \<Rightarrow> 'w \<Rightarrow> (go_error + string) call \<times> 'w"
  m_ListObject :: "string \<Rightarrow> 'w \<Rightarrow> (go_error + 'o list) call \<times> 'w"

text \<open>A value of the interface: one of the two clients, another implementation, or nil.\<close>

datatype ('o, 'w) storage_manager =
    TigrisClient "('o, 'w) tigrisClient"
  | S3Client "('o, 'w) s3Client"
  | OtherManager "('o, 'w) StorageManager"
  | NilManager

text \<open>The methods of the two clients, and of an interface value; a method of nil panics.\<close>

definition tigris_methods :: "('o, 'w) tigrisClient \<Rightarrow> ('o, 'w) StorageManager" where
  "tigris_methods t =
    (let A = tigrisStorageClient t
     in \<lparr>m_CreateBucket = (\<lambda>b w. apfst Returns (tigris_CreateBucket A b w)),
         m_CreateForkBucket = tigris_CreateForkBucket,
         m_UploadObject = (\<lambda>b k f w. apfst Returns (tigris_UploadObject A b k f w)),
         m_DownloadObject = (\<lambda>b k w. apfst Returns (tigris_DownloadObject A b k w)),
         m_ListObject = (\<lambda>b w. apfst Returns (tigris_ListObject A b w))\<rparr>)"

definition s3_methods :: "('o, 'w) s3Client \<Rightarrow> ('o, 'w) StorageManager" where
  "s3_methods c =
    (let A = awsS3Client c
     in \<lparr>m_CreateBucket = (\<lambda>b w. apfst Returns (s3_CreateBucket A b w)),
         m_CreateForkBucket = (\<lambda>b f w. apfst Returns (s3_CreateForkBucket b f w)),
         m_UploadObject = (\<lambda>b k f w. apfst Returns (s3_UploadObject A (s3_storageManager c) b k f w)),
         m_DownloadObject = (\<lambda>b k w. apfst Returns (s3_DownloadObject A b k w)),
         m_ListObject = (\<lambda>b w. apfst Returns (s3_ListObject A b w))\<rparr>)"

fun manager_methods :: "('o, 'w) storage_manager \<Rightarrow> ('o, 'w) StorageManager" where
  "manager_methods (TigrisClient t) = tigris_methods t"
| "manager_methods (S3Client c) = s3_methods c"
| "manager_methods (OtherManager m) = m"
| "manager_methods NilManager = \<lparr>m_CreateBucket = (\<lambda>b w. (Panics, w)),
     m_CreateForkBucket = (\<lambda>b f w. (Panics, w)), m_UploadObject = (\<lambda>b k f w. (Panics, w)),
     m_DownloadObject = (\<lambda>b k w. (Panics, w)), m_ListObject = (\<lambda>b w. (Panics, w))\<rparr>"

record ('o, 'w) StorageHandler =
  sh_config :: StorageManagerConfig
  sh_storageManager :: "('o, 'w) storage_manager"
  currentStorageManager :: string

definition SetStorageManager ::
    "('o, 'w) storage_manager \<Rightarrow> ('o, 'w) StorageHandler \<Rightarrow> ('o, 'w) StorageHandler" where
  "SetStorageManager m s0 =
    (let s1 = (case m of TigrisClient _ \<Rightarrow> s0\<lparr>currentStorageManager := ''TIGRIS''\<rparr> | _ \<Rightarrow> s0);
         s2 = (case m of S3Client _ \<Rightarrow> s1\<lparr>currentStorageManager := ''S3''\<rparr> | _ \<Rightarrow> s1)
     in s2\<lparr>sh_storageManager := m\<rparr>)"

definition GetStorageManager :: "('o, 'w) StorageHandler \<Rightarrow> string" where
  "GetStorageManager s = currentStorageManager s"

definition InitStorageHandler :: "StorageManagerConfig \<Rightarrow> ('o, 'w) StorageHandler" where
  "InitStorageHandler config = \<lparr>sh_config = config, sh_storageManager = NilManager,
     currentStorageManager = ''''\<rparr>"

end
