(* ===== verification/Storage_Properties.thy ===== *)
theory Storage_Properties
  imports Storage_Manager
begin

text \<open>
  The contract of an object store, its interpretation by both clients over any S3 server
  that keeps what it is given, and the label the handler reports.
\<close>

section \<open>The contract of an object store\<close>

text \<open>
  Documented behaviour of the server: \<open>stored\<close> is what it holds. A successful put stores
  the object and nothing else changes; a get reads the object, or a beginning of it when
  reading the body fails.
\<close>

definition s3_laws :: "('o, 'w) s3_api \<Rightarrow> ('w \<Rightarrow> string \<times> string \<Rightarrow> string option) \<Rightarrow> bool" where
  "s3_laws A stored \<longleftrightarrow>
     (\<forall>b k f w w'. api_PutObject A b k f w = (None, w') \<longrightarrow> stored w' = (stored w)((b, k) := Some f)) \<and>
     (\<forall>b k w data e w'. api_GetObject A b k w = (Inr (data, e), w') \<longrightarrow> stored w' = stored w \<and>
        (\<exists>full. stored w (b, k) = Some full \<and> (if e = None then data = full else prefix data full)))"

text \<open>A run of uploads by the client operation \<open>up\<close>, given up at the first error.\<close>

fun uploads ::
    "(string \<Rightarrow> string \<Rightarrow> string \<Rightarrow> 'w \<Rightarrow> (string \<times> err) \<times> 'w) \<Rightarrow> ((string \<times> string) \<times> string) list
       \<Rightarrow> 'w \<Rightarrow> 'w option" where
  "uploads up [] w = Some w"
| "uploads up (((b, k), f) # ops) w =
    (case up b k f w of ((_, None), w') \<Rightarrow> uploads up ops w' | _ \<Rightarrow> None)"

text \<open>
  What a client promises over such a server: an upload stores the bytes under bucket and
  key and answers with their address, a download gives a beginning of them.
\<close>

locale object_store =
  fixes up :: "('o, 'w) s3_api \<Rightarrow> string \<Rightarrow> string \<Rightarrow> string \<Rightarrow> 'w \<Rightarrow> (string \<times> err) \<times> 'w"
    and down :: "('o, 'w) s3_api \<Rightarrow> string \<Rightarrow> string \<Rightarrow> 'w \<Rightarrow> (go_error + string) \<times> 'w"
    and address :: "string \<Rightarrow> string \<Rightarrow> string"
  assumes up_stores: "s3_laws A stored \<Longrightarrow> up A b k f w = ((p, None), w') \<Longrightarrow>
      stored w' = (stored w)((b, k) := Some f) \<and> p = address b k"
    and down_reads: "s3_laws A stored \<Longrightarrow> down A b k w = (Inr data, w') \<Longrightarrow>
      stored w' = stored w \<and> (\<exists>full. stored w (b, k) = Some full \<and> prefix data full)"
begin

lemma uploads_stored:
  "s3_laws A stored \<Longrightarrow> uploads (up A) ops w = Some w' \<Longrightarrow>
     stored w' bk = (case map_of (rev ops) bk of Some f \<Rightarrow> Some f | None \<Rightarrow> stored w bk)"
proof (induction "up A" ops w rule: uploads.induct)
  case (2 b k f ops w)
  obtain p w1 where u: "up A b k f w = ((p, None), w1)" "uploads (up A) ops w1 = Some w'"
    using "2.prems"(2) by (auto split: prod.splits option.splits)
  show ?case
    using "2.hyps" [OF u(1) [symmetric] refl refl "2.prems"(1) u(2)] up_stores [OF "2.prems"(1) u(1)]
    by (auto simp: map_add_def split: option.splits)
qed simp

lemma download_after:
  assumes "s3_laws A stored" and "uploads (up A) ops w = Some w'" and "map_of (rev ops) (b, k) = Some f"
    and "down A b k w' = (Inr data, w2)"
  shows "prefix data f"
  using down_reads [OF assms(1,4)] uploads_stored [OF assms(1,2), of "(b, k)"] assms(3) by simp

end

interpretation tigris: object_store tigris_UploadObject tigris_DownloadObject
    "\<lambda>b k. ''https://'' @ b @ ''.fly.storage.tigris.dev/'' @ k"
proof unfold_locales
  show "stored w' = (stored w)((b, k) := Some f) \<and> p = ''https://'' @ b @ ''.fly.storage.tigris.dev/'' @ k"
    if "s3_laws A stored" "tigris_UploadObject A b k f w = ((p, None), w')"
    for A :: "('o, 'w) s3_api" and stored b k f w p w'
    using that by (auto simp: s3_laws_def tigris_UploadObject_def tigrisBaseURL_def split: prod.splits option.splits)
  show "stored w' = stored w \<and> (\<exists>full. stored w (b, k) = Some full \<and> prefix data full)"
    if "s3_laws A stored" "tigris_DownloadObject A b k w = (Inr data, w')"
    for A :: "('o, 'w) s3_api" and stored b k w data w'
    using that by (fastforce simp: s3_laws_def tigris_DownloadObject_def split: prod.splits sum.splits if_splits)
qed

interpretation aws: object_store "\<lambda>A. s3_UploadObject A conf" s3_DownloadObject
    "\<lambda>b k. ''https://'' @ b @ ''.s3.'' @ Region conf @ ''.amazonaws.com/'' @ k" for conf
proof unfold_locales
  show "stored w' = (stored w)((b, k) := Some f) \<and>
      p = ''https://'' @ b @ ''.s3.'' @ Region conf @ ''.amazonaws.com/'' @ k"
    if "s3_laws A stored" "s3_UploadObject A conf b k f w = ((p, None), w')"
    for A :: "('o, 'w) s3_api" and stored b k f w p w'
    using that by (auto simp: s3_laws_def s3_UploadObject_def awsS3URLPath_def split: prod.splits option.splits)
  show "stored w' = stored w \<and> (\<exists>full. stored w (b, k) = Some full \<and> prefix data full)"
    if "s3_laws A stored" "s3_DownloadObject A b k w = (Inr data, w')"
    for A :: "('o, 'w) s3_api" and stored b k w data w'
    using that by (fastforce simp: s3_laws_def s3_DownloadObject_def split: prod.splits sum.splits if_splits)
qed


section \<open>Uploads are found again\<close>

lemma full_read:
  assumes "s3_laws A stored" and "stored w (b, k) = Some f" and "api_GetObject A b k w = (Inr (d, None), w')"
  shows "tigris_DownloadObject A b k w = (Inr f, w')" and "s3_DownloadObject A b k w = (Inr f, w')"
  using assms by (force simp: s3_laws_def tigris_DownloadObject_def s3_DownloadObject_def)+

text \<open>
  C36: After any run of successful uploads, by either client, a download of an object that was
  uploaded gives the bytes of its last upload, all of them when the body is read to its
  end and otherwise a beginning of them; uploads under other names do not matter.
\<close>

theorem last_upload_downloaded:
  assumes "s3_laws A stored" and "map_of (rev ops) (b, k) = Some f"
    and "uploads (tigris_UploadObject A) ops w = Some wt" and "uploads (s3_UploadObject A conf) ops w = Some ws"
    and "tigris_DownloadObject A b k wt = (Inr dt, wt')" and "s3_DownloadObject A b k ws = (Inr ds, ws')"
  shows "prefix dt f \<and> prefix ds f \<and>
    (\<forall>d. api_GetObject A b k wt = (Inr (d, None), wt') \<longrightarrow> dt = f) \<and>
    (\<forall>d. api_GetObject A b k ws = (Inr (d, None), ws') \<longrightarrow> ds = f)"
proof (intro conjI allI impI)
  show "prefix dt f" using assms(1,3,2,5) by (rule tigris.download_after)
  show "prefix ds f" using assms(1,4,2,6) by (rule aws.download_after)
  have "stored wt (b, k) = Some f" "stored ws (b, k) = Some f"
    using tigris.uploads_stored [OF assms(1,3)] aws.uploads_stored [OF assms(1,4)] assms(2) by simp_all
  then show "dt = f" if "api_GetObject A b k wt = (Inr (d, None), wt')" for d
    using full_read(1) [OF assms(1) _ that] assms(5) by simp
  show "ds = f" if "api_GetObject A b k ws = (Inr (d, None), ws')" for d
    using full_read(2) [OF assms(1) _ that] assms(6) \<open>stored ws (b, k) = Some f\<close> by simp
qed

text \<open>A server that is its objects.\<close>

definition demo_store :: "(unit, string \<times> string \<Rightarrow> string option) s3_api" where
  "demo_store = \<lparr>api_CreateBucket = (\<lambda>b w. (None, w)), api_PutObject = (\<lambda>b k f w. (None, w((b, k) := Some f))),
     api_GetObject = (\<lambda>b k w. (case w (b, k) of None \<Rightarrow> Inl (External ''NoSuchKey'') | Some f \<Rightarrow> Inr (f, None), w)),
     api_ListObjectsV2 = (\<lambda>b w. (Inr [], w))\<rparr>"

definition demo_region :: StorageManagerConfig where
  "demo_region = \<lparr>AccessKeyID = '''', SecretAccessKey = '''', EndpointURL = '''', Region = ''eu-west-1''\<rparr>"

lemma demo_store_laws: "s3_laws demo_store (\<lambda>w. w)"
  by (auto simp: s3_laws_def demo_store_def split: option.splits)

theorem last_upload_downloaded_witness:
  "\<exists>w. uploads (tigris_UploadObject demo_store)
      [((''b'', ''k''), ''one''), ((''b'', ''k''), ''two''), ((''b'', ''other''), ''x'')] (\<lambda>_. None) = Some w \<and>
    tigris_DownloadObject demo_store ''b'' ''k'' w = (Inr ''two'', w) \<and> prefix ''two'' ''two''"
proof -
  let ?ops = "[((''b'', ''k''), ''one''), ((''b'', ''k''), ''two''), ((''b'', ''other''), ''x'')]"
  let ?w = "(\<lambda>_. None)((''b'', ''k'') := Some ''one'', (''b'', ''k'') := Some ''two'', (''b'', ''other'') := Some ''x'')"
  have up: "uploads (tigris_UploadObject demo_store) ?ops (\<lambda>_. None) = Some ?w"
    "uploads (s3_UploadObject demo_store demo_region) ?ops (\<lambda>_. None) = Some ?w"
    by (simp_all add: tigris_UploadObject_def s3_UploadObject_def demo_store_def)
  have down: "tigris_DownloadObject demo_store ''b'' ''k'' ?w = (Inr ''two'', ?w)"
    "s3_DownloadObject demo_store ''b'' ''k'' ?w = (Inr ''two'', ?w)"
    by (simp_all add: tigris_DownloadObject_def s3_DownloadObject_def demo_store_def)
  have "map_of (rev ?ops) (''b'', ''k'') = Some ''two''" by simp
  from last_upload_downloaded [OF demo_store_laws this up down] up(1) down(1) show ?thesis by blast
qed


section \<open>The label of the handler\<close>

text \<open>The kind of a manager, as the handler names it.\<close>

fun manager_label :: "('o, 'w) storage_manager \<Rightarrow> string option" where
  "manager_label (TigrisClient _) = Some ''TIGRIS''"
| "manager_label (S3Client _) = Some ''S3''"
| "manager_label _ = None"

lemma last_label:
  "GetStorageManager (fold SetStorageManager ms s) =
    (case filter (\<lambda>m. manager_label m \<noteq> None) ms of
       [] \<Rightarrow> GetStorageManager s
     | known \<Rightarrow> the (manager_label (last known)))"
proof (induction ms arbitrary: s)
  case (Cons m ms)
  have "GetStorageManager (SetStorageManager m s) =
      (case manager_label m of None \<Rightarrow> GetStorageManager s | Some l \<Rightarrow> l)"
    by (cases m) (simp_all add: SetStorageManager_def GetStorageManager_def)
  with Cons show ?case by (auto split: list.splits)
qed simp

lemma last_manager:
  "sh_storageManager (fold SetStorageManager ms s) = (if ms = [] then sh_storageManager s else last ms)"
  by (induction ms arbitrary: s) (auto simp: SetStorageManager_def Let_def split: storage_manager.splits)

lemma init_handler:
  "GetStorageManager (InitStorageHandler config) = ''''"
  "sh_storageManager (InitStorageHandler config) = NilManager"
  by (simp_all add: InitStorageHandler_def GetStorageManager_def)

text \<open>
  The name the handler reports is that of the last Tigris or S3 client that was set,
  not of the manager in use: setting another implementation, or nil, keeps the old name.
\<close>

theorem GetStorageManager_label:
  "GetStorageManager (fold SetStorageManager ms (InitStorageHandler config)) =
    (case filter (\<lambda>m. manager_label m \<noteq> None) ms of
       [] \<Rightarrow> ''''
     | known \<Rightarrow> the (manager_label (last known))) \<and>
   sh_storageManager (fold SetStorageManager ms (InitStorageHandler config)) =
     (if ms = [] then NilManager else last ms)"
  unfolding last_label last_manager init_handler by simp

text \<open>
  On both stores an upload puts the bytes under the bucket and key it was given and
  returns the object's address, and a download returns what was read as success even if
  reading the body failed half-way.
\<close>

theorem storage_paths:
  assumes "api_PutObject A b key file w = (None, w1)"
    and "api_GetObject A b key w1 = (Inr (data, Some e), w2)"
  shows "tigris_UploadObject A b key file w =
      ((''https://'' @ b @ ''.fly.storage.tigris.dev/'' @ key, None), w1) \<and>
    s3_UploadObject A conf b key file w =
      ((''https://'' @ b @ ''.s3.'' @ Region conf @ ''.amazonaws.com/'' @ key, None), w1) \<and>
    tigris_DownloadObject A b key w1 = (Inr data, w2) \<and> s3_DownloadObject A b key w1 = (Inr data, w2)"
  using assms
  by (simp add: tigris_UploadObject_def s3_UploadObject_def tigris_DownloadObject_def
      s3_DownloadObject_def tigrisBaseURL_def awsS3URLPath_def)

definition demo_api :: "(unit, nat) s3_api" where
  "demo_api = \<lparr>api_CreateBucket = (\<lambda>b w. (None, w)), api_PutObject = (\<lambda>b k f w. (None, w + 1)),
     api_GetObject = (\<lambda>b k w. (Inr (''par'', Some (External ''unexpected EOF'')), w)),
     api_ListObjectsV2 = (\<lambda>b w. (Inr [], w))\<rparr>"

definition demo_storage :: StorageManagerConfig where
  "demo_storage = \<lparr>AccessKeyID = '''', SecretAccessKey = '''', EndpointURL = '''', Region = ''eu-west-1''\<rparr>"

theorem storage_paths_witness:
  "tigris_UploadObject demo_api ''b'' ''k'' ''partial'' 0 =
      ((''https://'' @ ''b'' @ ''.fly.storage.tigris.dev/'' @ ''k'', None), 1) \<and>
    s3_UploadObject demo_api demo_storage ''b'' ''k'' ''partial'' 0 =
      ((''https://'' @ ''b'' @ ''.s3.'' @ Region demo_storage @ ''.amazonaws.com/'' @ ''k'', None), 1) \<and>
    tigris_DownloadObject demo_api ''b'' ''k'' 1 = (Inr ''par'', 1) \<and>
    s3_DownloadObject demo_api ''b'' ''k'' 1 = (Inr ''par'', 1)"
  by (rule storage_paths [where e = "External ''unexpected EOF''"]) (simp_all add: demo_api_def)

end
