(* ===== verification/Elastic_Client.thy ===== *)
theory Elastic_Client
  imports Go_Json_Roundtrip
begin

text \<open>
  Package \<open>elasticsearch_client\<close> (\<open>elasticsearch.go\<close>): index creation from a schema,
  documents, bulk insertion. The typed client is the record \<open>es_api\<close> of functions on a
  world.
\<close>

section \<open>The typed client\<close>

datatype property_type = IntegerNumber | BooleanType | DateType | FloatNumber | ByteNumber

record ('q, 'r, 'w) es_api =
  es_Create :: "string \<Rightarrow> (string \<times> property_type) list \<Rightarrow> 'w \<Rightarrow> err \<times> 'w"
  es_Delete :: "string \<Rightarrow> 'w \<Rightarrow> err \<times> 'w"
  es_Exists :: "string \<Rightarrow> 'w \<Rightarrow> (go_error + bool) \<times> 'w"
  es_Index :: "string \<Rightarrow> string \<Rightarrow> 'w \<Rightarrow> (go_error + bool) \<times> 'w"
  es_Get :: "string \<Rightarrow> string \<Rightarrow> 'w \<Rightarrow> (go_error + string option) \<times> 'w"
  es_Update :: "string \<Rightarrow> string \<Rightarrow> string \<Rightarrow> 'w \<Rightarrow> err \<times> 'w"
  es_DeleteDoc :: "string \<Rightarrow> string \<Rightarrow> 'w \<Rightarrow> err \<times> 'w"
  es_Search :: "string \<Rightarrow> 'q \<Rightarrow> 'w \<Rightarrow> (go_error + 'r) \<times> 'w"


section \<open>Indices\<close>

definition valueTypeMapping :: "string \<Rightarrow> property_type option" where
  "valueTypeMapping t =
    (if t = ''integer'' then Some IntegerNumber
     else if t = ''boolean'' then Some BooleanType
     else if t = ''date'' then Some DateType
     else if t = ''float'' then Some FloatNumber
     else if t = ''byte'' then Some ByteNumber
     else None)"

text \<open>
  The schema is a map, ranged over in the order \<open>order\<close> the runtime picks: the first
  field with an unknown type is the one reported.
\<close>

fun typeMapping ::
    "string list \<Rightarrow> (string \<rightharpoonup> string) \<Rightarrow> (string \<times> property_type) list \<Rightarrow> go_error + (string \<times> property_type) list" where
  "typeMapping [] schema acc = Inr acc"
| "typeMapping (field # order) schema acc =
    (case schema field of
       None \<Rightarrow> typeMapping order schema acc
     | Some fieldType \<Rightarrow>
        (case valueTypeMapping fieldType of
           None \<Rightarrow> Inl (Errorf (''unsupported field type '' @ strconv_Quote fieldType @
                     '' for field '' @ strconv_Quote field))
         | Some newProp \<Rightarrow> typeMapping order schema (acc @ [(field, newProp)])))"

definition CreateIndex ::
    "string list \<Rightarrow> ('q, 'r, 'w) es_api \<Rightarrow> string \<Rightarrow> (string \<rightharpoonup> string) \<Rightarrow> 'w \<Rightarrow> err \<times> 'w" where
  "CreateIndex order E indexName schema w =
    (case typeMapping order schema [] of
       Inl e \<Rightarrow> (Some e, w)
     | Inr m \<Rightarrow> es_Create E indexName m w)"

definition DeleteIndex :: "('q, 'r, 'w) es_api \<Rightarrow> string \<Rightarrow> 'w \<Rightarrow> err \<times> 'w" where
  "DeleteIndex E indexName w = es_Delete E indexName w"

definition IndexExists :: "('q, 'r, 'w) es_api \<Rightarrow> string \<Rightarrow> 'w \<Rightarrow> (bool \<times> err) \<times> 'w" where
  "IndexExists E indexName w =
    (case es_Exists E indexName w of
       (Inl e, w') \<Rightarrow> ((False, Some e), w')
     | (Inr b, w') \<Rightarrow> ((b, None), w'))"


section \<open>Documents\<close>

text \<open>
  \<open>es_Index\<close> says whether the response was non-nil; \<open>to_json\<close> is the document of a Go value,
  or the error of a value that has none, whose text \<open>json.Marshal\<close> writes.
\<close>

definition InsertDocument ::
    "('v \<Rightarrow> go_error + json) \<Rightarrow> ('q, 'r, 'w) es_api \<Rightarrow> string \<Rightarrow> 'v \<Rightarrow> 'w \<Rightarrow> (bool \<times> err) \<times> 'w" where
  "InsertDocument to_json E indexName document w =
    (case to_json document of
       Inl e \<Rightarrow> ((False, Some e), w)
     | Inr j \<Rightarrow>
        (case es_Index E indexName (json_text j) w of
           (Inl e, w') \<Rightarrow> ((False, Some e), w')
         | (Inr nonnil, w') \<Rightarrow> ((nonnil, None), w')))"

definition GetDocument ::
    "('q, 'r, 'w) es_api \<Rightarrow> string \<Rightarrow> string \<Rightarrow> 'w \<Rightarrow> (string option \<times> err) \<times> 'w" where
  "GetDocument E indexName docID w =
    (case es_Get E indexName docID w of
       (Inl e, w') \<Rightarrow> ((None, Some e), w')
     | (Inr None, w') \<Rightarrow> ((None, None), w')
     | (Inr (Some source), w') \<Rightarrow> ((None, None), w'))"

definition UpdateDocument ::
    "('v \<Rightarrow> go_error + json) \<Rightarrow> ('q, 'r, 'w) es_api \<Rightarrow> string \<Rightarrow> string \<Rightarrow> 'v \<Rightarrow> 'w \<Rightarrow> (bool \<times> err) \<times> 'w" where
  "UpdateDocument to_json E indexName docID document w =
    (case to_json document of
       Inl e \<Rightarrow> ((False, Some e), w)
     | Inr j \<Rightarrow>
        (case es_Update E indexName docID (json_text j) w of
           (Some e, w') \<Rightarrow> ((False, Some e), w')
         | (None, w') \<Rightarrow> ((True, None), w')))"

definition DeleteDocument :: "('q, 'r, 'w) es_api \<Rightarrow> string \<Rightarrow> string \<Rightarrow> 'w \<Rightarrow> err \<times> 'w" where
  "DeleteDocument E indexName docID w = es_DeleteDoc E indexName docID w"

fun BulkInsert ::
    "('v \<Rightarrow> go_error + json) \<Rightarrow> ('q, 'r, 'w) es_api \<Rightarrow> string \<Rightarrow> 'v list \<Rightarrow> 'w \<Rightarrow> err \<times> 'w" where
  "BulkInsert to_json E indexName [] w = (None, w)"
| "BulkInsert to_json E indexName (document # documents) w =
    (case InsertDocument to_json E indexName document w of
       ((_, Some e), w') \<Rightarrow> (Some e, w')
     | ((_, None), w') \<Rightarrow> BulkInsert to_json E indexName documents w')"

definition SearchDocument :: "('q, 'r, 'w) es_api \<Rightarrow> string \<Rightarrow> 'q \<Rightarrow> 'w \<Rightarrow> (go_error + 'r) \<times> 'w" where
  "SearchDocument E indexName request w = es_Search E indexName request w"

definition Count :: "string \<Rightarrow> 'q \<Rightarrow> 'w \<Rightarrow> (int64 \<times> err) \<times> 'w" where
  "Count indexName request w = ((0, None), w)"


section \<open>The interface (interface.go)\<close>

text \<open>
  The interface, and a client as a value of it; \<open>order\<close> is the order in which the runtime
  ranges over a schema. Nothing in the package makes such a value:
  its client has no constructor.
\<close>

record ('v, 'q, 'r, 'w) ElasticSearchClient =
  ec_CreateIndex :: "string \<Rightarrow> (string \<rightharpoonup> string) \<Rightarrow> 'w \<Rightarrow> err \<times> 'w"
  ec_DeleteIndex :: "string \<Rightarrow> 'w \<Rightarrow> err \<times> 'w"
  ec_IndexExists :: "string \<Rightarrow> 'w \<Rightarrow> (bool \<times> err) \<times> 'w"
  ec_InsertDocument :: "string \<Rightarrow> 'v \<Rightarrow> 'w \<Rightarrow> (bool \<times> err) \<times> 'w"
  ec_GetDocument :: "string \<Rightarrow> string \<Rightarrow> 'w \<Rightarrow> (string option \<times> err) \<times> 'w"
  ec_UpdateDocument :: "string \<Rightarrow> string \<Rightarrow> 'v \<Rightarrow> 'w \<Rightarrow> (bool \<times> err) \<times> 'w"
  ec_DeleteDocument :: "string \<Rightarrow> string \<Rightarrow> 'w \<Rightarrow> err \<times> 'w"
  ec_BulkInsert :: "string \<Rightarrow> 'v list \<Rightarrow> 'w \<Rightarrow> err \<times> 'w"
  ec_SearchDocument :: "string \<Rightarrow> 'q \<Rightarrow> 'w \<Rightarrow> (go_error + 'r) \<times> 'w"
  ec_Count :: "string \<Rightarrow> 'q \<Rightarrow> 'w \<Rightarrow> (int64 \<times> err) \<times> 'w"

definition elasticSearchClient ::
    "((string \<rightharpoonup> string) \<Rightarrow> string list) \<Rightarrow> ('v \<Rightarrow> go_error + json) \<Rightarrow> ('q, 'r, 'w) es_api
       \<Rightarrow> ('v, 'q, 'r, 'w) ElasticSearchClient" where
  "elasticSearchClient order to_json E = \<lparr>
     ec_CreateIndex = (\<lambda>indexName schema. CreateIndex (order schema) E indexName schema), ec_DeleteIndex = DeleteIndex E,
     ec_IndexExists = IndexExists E, ec_InsertDocument = InsertDocument to_json E, ec_GetDocument = GetDocument E,
     ec_UpdateDocument = UpdateDocument to_json E, ec_DeleteDocument = DeleteDocument E,
     ec_BulkInsert = BulkInsert to_json E, ec_SearchDocument = SearchDocument E, ec_Count = Count\<rparr>"


section \<open>Properties\<close>

lemma BulkInsert_append:
  "BulkInsert to_json E idx (xs @ ys) w =
    (case BulkInsert to_json E idx xs w of
       (Some e, w') \<Rightarrow> (Some e, w')
     | (None, w') \<Rightarrow> BulkInsert to_json E idx ys w')"
  by (induction xs arbitrary: w) (auto split: prod.splits option.splits)

lemma typeMapping_known:
  "typeMapping order schema acc = Inr m \<Longrightarrow>
   (\<forall>f \<in> set order. \<forall>t. schema f = Some t \<longrightarrow> valueTypeMapping t \<noteq> None) \<and>
   map fst m = map fst acc @ filter (\<lambda>f. schema f \<noteq> None) order"
  by (induction order schema acc arbitrary: m rule: typeMapping.induct)
    (auto split: option.splits)

text \<open>
  A bulk insertion is a sequence of single ones: it stops at the first that fails,
  with the documents before it already stored and those after it not sent.
\<close>

theorem BulkInsert_prefix:
  assumes "BulkInsert to_json E idx before w = (None, w1)"
    and "InsertDocument to_json E idx doc w1 = ((ok, Some e), w2)"
  shows "BulkInsert to_json E idx (before @ doc # rest) w = (Some e, w2)"
  using assms by (simp add: BulkInsert_append)

definition demo_es :: "(unit, unit, string list) es_api" where
  "demo_es = \<lparr>es_Create = (\<lambda>i m w. (None, w)), es_Delete = (\<lambda>i w. (None, w)),
     es_Exists = (\<lambda>i w. (Inr True, w)),
     es_Index = (\<lambda>i d w. if d = ''null'' then (Inl (External ''400''), w) else (Inr True, w @ [d])),
     es_Get = (\<lambda>i d w. (Inr (Some ''doc''), w)), es_Update = (\<lambda>i d b w. (None, w)),
     es_DeleteDoc = (\<lambda>i d w. (None, w)), es_Search = (\<lambda>i q w. (Inr (), w))\<rparr>"

theorem BulkInsert_prefix_witness:
  "BulkInsert Inr demo_es ''i'' ([JBool True, JBool False] @ JNull # [JBool True]) [] =
     (Some (External ''400''), [''true'', ''false''])"
  by (rule BulkInsert_prefix [where ok = False])
    (simp_all add: InsertDocument_def demo_es_def)

text \<open>
  \<open>GetDocument\<close> never returns a document: whatever the store holds, its result is
  nil, so a document that is there looks like one that is not; \<open>Count\<close> is always zero.
\<close>

theorem GetDocument_nil:
  "fst (fst (GetDocument E idx i w)) = None \<and> fst (fst (Count idx q v)) = 0"
  by (simp add: GetDocument_def Count_def split: prod.splits sum.splits option.splits)

lemma BulkInsert_done:
  "BulkInsert to_json E idx docs w = (None, w') \<Longrightarrow> w' = fold (\<lambda>d v. snd (InsertDocument to_json E idx d v)) docs w"
  by (induction docs arbitrary: w) (auto split: prod.splits option.splits)

lemma BulkInsert_stopped:
  "BulkInsert to_json E idx docs w = (Some e, w') \<Longrightarrow> \<exists>before doc rest w1. docs = before @ doc # rest \<and>
     BulkInsert to_json E idx before w = (None, w1) \<and>
     w1 = fold (\<lambda>d v. snd (InsertDocument to_json E idx d v)) before w \<and>
     snd (fst (InsertDocument to_json E idx doc w1)) = Some e \<and> snd (InsertDocument to_json E idx doc w1) = w'"
proof (induction docs arbitrary: w)
  case (Cons d ds)
  obtain ok e1 w1 where ins: "InsertDocument to_json E idx d w = ((ok, e1), w1)" by (metis surj_pair)
  show ?case
  proof (cases e1)
    case (Some x)
    with Cons.prems ins show ?thesis by (intro exI [of _ "[]"] exI [of _ d] exI [of _ ds] exI [of _ w]) simp
  next
    case None
    with Cons.prems ins have "BulkInsert to_json E idx ds w1 = (Some e, w')" by simp
    from Cons.IH [OF this] obtain before doc rest w2 where
      "ds = before @ doc # rest" "BulkInsert to_json E idx before w1 = (None, w2)"
      "w2 = fold (\<lambda>d v. snd (InsertDocument to_json E idx d v)) before w1"
      "snd (fst (InsertDocument to_json E idx doc w2)) = Some e" "snd (InsertDocument to_json E idx doc w2) = w'" by blast
    with ins None show ?thesis
      by (intro exI [of _ "d # before"] exI [of _ doc] exI [of _ rest] exI [of _ w2]) simp
  qed
qed simp

text \<open>Every document of a list, each as often as the list of numbers says.\<close>

definition copies :: "nat list \<Rightarrow> 'a list \<Rightarrow> 'a list" where
  "copies ns xs = concat (map2 replicate ns xs)"

lemma copies_simps [simp]: "copies [] xs = []" "copies (n # ns) (x # xs) = replicate n x @ copies ns xs"
  by (simp_all add: copies_def)

text \<open>
  Documented behaviour of the client and the server: \<open>holds w idx\<close> are the sources of an index
  in the order they were added. A document is indexed under an id the server generates, so one
  that the client sends again (it retries after a timeout or an overloaded server) is there
  again: after a success it has been added at least once, after an error any number of times,
  not at all included.
\<close>

definition index_laws :: "('q, 'r, 'w) es_api \<Rightarrow> ('w \<Rightarrow> string \<Rightarrow> string list) \<Rightarrow> bool" where
  "index_laws E holds \<longleftrightarrow> (\<forall>idx d w r w'. es_Index E idx d w = (r, w') \<longrightarrow>
     (\<exists>n. holds w' = (holds w)(idx := holds w idx @ replicate n d) \<and>
       (\<forall>nonnil. r = Inr nonnil \<longrightarrow> nonnil \<and> 1 \<le> n)))"

lemma index_lawsD:
  assumes "index_laws E holds" and "es_Index E idx d w = (r, w')"
  obtains n where "holds w' = (holds w)(idx := holds w idx @ replicate n d)"
    and "\<And>nonnil. r = Inr nonnil \<Longrightarrow> nonnil \<and> 1 \<le> n"
proof -
  from assms obtain n where "holds w' = (holds w)(idx := holds w idx @ replicate n d)"
    "\<forall>nonnil. r = Inr nonnil \<longrightarrow> nonnil \<and> 1 \<le> n"
    unfolding index_laws_def by metis
  with that show thesis by blast
qed

lemma InsertDocument_stored:
  assumes "index_laws E holds" and "InsertDocument to_json E idx d w = ((ok, None), w')"
  obtains j n where "ok" and "to_json d = Inr j" and "1 \<le> n"
    and "holds w' = (holds w)(idx := holds w idx @ replicate n (json_text j))"
proof -
  from assms(2) obtain j where j: "to_json d = Inr j" "es_Index E idx (json_text j) w = (Inr ok, w')"
    by (auto simp: InsertDocument_def split: sum.splits prod.splits)
  from index_lawsD [OF assms(1) j(2)] that j(1) show thesis by metis
qed

lemma InsertDocument_failed:
  assumes "index_laws E holds" and "InsertDocument to_json E idx d w = ((ok, Some e), w')"
  shows "\<not> ok \<and>
    (to_json d = Inl e \<and> w' = w \<or>
     (\<exists>j n. to_json d = Inr j \<and> es_Index E idx (json_text j) w = (Inl e, w') \<and>
       holds w' = (holds w)(idx := holds w idx @ replicate n (json_text j))))"
proof (cases "to_json d")
  case (Inr j)
  with assms(2) have i: "es_Index E idx (json_text j) w = (Inl e, w')" and "\<not> ok"
    by (auto simp: InsertDocument_def split: sum.splits prod.splits)
  from index_lawsD [OF assms(1) i] Inr i \<open>\<not> ok\<close> show ?thesis by metis
qed (use assms(2) in \<open>auto simp: InsertDocument_def\<close>)

lemma BulkInsert_holds:
  assumes "index_laws E holds"
  shows "BulkInsert to_json E idx docs w = (None, w') \<Longrightarrow>
    \<exists>js ns. map to_json docs = map Inr js \<and> length ns = length docs \<and> (\<forall>n\<in>set ns. 1 \<le> n) \<and>
      holds w' = (holds w)(idx := holds w idx @ copies ns (map json_text js))"
proof (induction docs arbitrary: w)
  case (Cons d ds)
  obtain ok e w1 where ins: "InsertDocument to_json E idx d w = ((ok, e), w1)" by (metis surj_pair)
  with Cons.prems have e: "e = None" and rest: "BulkInsert to_json E idx ds w1 = (None, w')"
    by (auto split: option.splits)
  from ins [unfolded e] obtain j n where
    j: "to_json d = Inr j" "1 \<le> n" "holds w1 = (holds w)(idx := holds w idx @ replicate n (json_text j))"
    by (rule InsertDocument_stored [OF assms])
  from Cons.IH [OF rest] obtain js ns where
    "map to_json ds = map Inr js" "length ns = length ds" "\<forall>n\<in>set ns. 1 \<le> n"
    "holds w' = (holds w1)(idx := holds w1 idx @ copies ns (map json_text js))" by blast
  with j show ?case by (intro exI [of _ "j # js"] exI [of _ "n # ns"]) simp
qed (simp add: exI [of _ "[]"])

text \<open>
  C39: After a bulk insertion without an error the index holds, after what it held before, the
  texts of all documents in order, each at least once and nothing else, and each text reads
  back as the document it was, fractional numbers included. With an error the same is true of
  the documents before the one that failed; that one was not sent when its encoding failed,
  and may be there when the server's answer was the error; those after it are not there.
  (\<open>printable\<close> says of a document that its numbers are number literals of JSON, as those
  \<open>json.Marshal\<close> writes are.)
\<close>

theorem BulkInsert_documents:
  assumes "index_laws E holds" and "\<forall>d j. to_json d = Inr j \<longrightarrow> printable j"
  shows "case BulkInsert to_json E idx docs w of
      (None, w') \<Rightarrow> \<exists>js ns. map to_json docs = map Inr js \<and> length ns = length docs \<and> (\<forall>n\<in>set ns. 1 \<le> n) \<and>
        holds w' = (holds w)(idx := holds w idx @ copies ns (map json_text js)) \<and>
        map (json_parse \<circ> json_text) js = map Inr js
    | (Some e, w') \<Rightarrow> \<exists>before doc rest js ns w1. docs = before @ doc # rest \<and> map to_json before = map Inr js \<and>
        length ns = length before \<and> (\<forall>n\<in>set ns. 1 \<le> n) \<and> map (json_parse \<circ> json_text) js = map Inr js \<and>
        holds w1 = (holds w)(idx := holds w idx @ copies ns (map json_text js)) \<and>
        (to_json doc = Inl e \<and> w' = w1 \<or>
         (\<exists>j n. to_json doc = Inr j \<and> es_Index E idx (json_text j) w1 = (Inl e, w') \<and>
           holds w' = (holds w1)(idx := holds w1 idx @ replicate n (json_text j))))"
proof -
  have parse: "map (json_parse \<circ> json_text) js = map Inr js" if "map to_json ds = map Inr js" for ds js
    using that
  proof (induction ds arbitrary: js)
    case (Cons d ds)
    then show ?case using assms(2) json_parse_text by (cases js) auto
  qed simp
  show ?thesis
  proof (cases "BulkInsert to_json E idx docs w")
    case (Pair r w')
    show ?thesis
    proof (cases r)
      case None
      with Pair BulkInsert_holds [OF assms(1)] parse show ?thesis by fastforce
    next
      case (Some e)
      with Pair BulkInsert_stopped [of to_json E idx docs w e w'] obtain before doc rest w1 where
        b: "docs = before @ doc # rest" "BulkInsert to_json E idx before w = (None, w1)"
        "InsertDocument to_json E idx doc w1 = ((fst (fst (InsertDocument to_json E idx doc w1)), Some e), w')"
        by (metis prod.collapse)
      from BulkInsert_holds [OF assms(1) b(2)] obtain js ns where
        js: "map to_json before = map Inr js" "length ns = length before" "\<forall>n\<in>set ns. 1 \<le> n"
        "holds w1 = (holds w)(idx := holds w idx @ copies ns (map json_text js))" by blast
      note conj = b(1) js(1-3) parse [OF js(1)] js(4) InsertDocument_failed [OF assms(1) b(3), THEN conjunct2]
      then show ?thesis unfolding Pair Some prod.case option.case by blast
    qed
  qed
qed

text \<open>
  An index whose client loses its connection with \<open>null\<close> after the document is stored, and
  sends a document with a fractional price twice.
\<close>

definition demo_index :: "(unit, unit, string \<Rightarrow> string list) es_api" where
  "demo_index = \<lparr>es_Create = (\<lambda>i m w. (None, w)), es_Delete = (\<lambda>i w. (None, w(i := []))),
     es_Exists = (\<lambda>i w. (Inr True, w)),
     es_Index = (\<lambda>i d w. if d = ''null'' then (Inl (External ''EOF''), w(i := w i @ [d]))
       else (Inr True, w(i := w i @ replicate (if d = ''12.5'' then 2 else 1) d))),
     es_Get = (\<lambda>i d w. (Inr None, w)), es_Update = (\<lambda>i d b w. (None, w)),
     es_DeleteDoc = (\<lambda>i d w. (None, w)), es_Search = (\<lambda>i q w. (Inr (), w))\<rparr>"

definition demo_json :: "bool option \<Rightarrow> go_error + json" where
  "demo_json v = (case v of None \<Rightarrow> Inr JNull | Some b \<Rightarrow> Inr (if b then JDec ''12.5'' else JBool b))"

theorem BulkInsert_documents_witness:
  "BulkInsert demo_json demo_index ''i'' [Some True, None, Some False] (\<lambda>_. []) =
     (Some (External ''EOF''), (\<lambda>_. [])(''i'' := [''12.5'', ''12.5'', ''null''])) \<and>
   (\<exists>before doc rest js. [Some True, None, Some False] = before @ doc # rest \<and> map demo_json before = map Inr js \<and>
     map (json_parse \<circ> json_text) js = map Inr js)"
proof -
  have laws: "index_laws demo_index (\<lambda>w. w)"
    unfolding index_laws_def
  proof (intro allI impI)
    fix i d w r w'
    assume "es_Index demo_index i d w = (r, w')"
    then show "\<exists>n. w' = w(i := w i @ replicate n d) \<and> (\<forall>nonnil. r = Inr nonnil \<longrightarrow> nonnil \<and> 1 \<le> n)"
      by (intro exI [of _ "if d = ''12.5'' then 2 else 1"]) (auto simp: demo_index_def split: if_splits)
  qed
  have "json_number ''12.5'' = Some (JDec ''12.5'', [])" by code_simp
  then have docs: "\<forall>d j. demo_json d = Inr j \<longrightarrow> printable j"
    by (auto simp: demo_json_def split: option.splits)
  have run: "BulkInsert demo_json demo_index ''i'' [Some True, None, Some False] (\<lambda>_. []) =
      (Some (External ''EOF''), (\<lambda>_. [])(''i'' := [''12.5'', ''12.5'', ''null'']))"
    by (simp add: InsertDocument_def demo_json_def demo_index_def numeral_2_eq_2)
  from BulkInsert_documents [where to_json = demo_json and idx = "''i''" and docs = "[Some True, None, Some False]" and
      w = "\<lambda>_. []", OF laws docs, unfolded run prod.case option.case]
  obtain before doc rest js where "[Some True, None, Some False] = before @ doc # rest"
    "map demo_json before = map Inr js" "map (json_parse \<circ> json_text) js = map Inr js"
    by (elim exE conjE) (rule that)
  with run show ?thesis by (intro conjI exI)
qed

lemma typeMapping_map:
  "typeMapping order schema acc = Inr m \<Longrightarrow>
    m = acc @ map (\<lambda>f. (f, the (valueTypeMapping (the (schema f))))) (filter (\<lambda>f. schema f \<noteq> None) order)"
  by (induction order schema acc arbitrary: m rule: typeMapping.induct) (auto split: option.splits)

lemma typeMapping_error:
  "typeMapping order schema acc = Inl e \<Longrightarrow>
    \<exists>f\<in>set order. \<exists>t. schema f = Some t \<and> valueTypeMapping t = None \<and>
      e = Errorf (''unsupported field type '' @ strconv_Quote t @ '' for field '' @ strconv_Quote f)"
  by (induction order schema acc rule: typeMapping.induct) (fastforce split: option.splits if_splits)+

lemma map_of_graph: "map_of (map (\<lambda>f. (f, g f)) fs) f = (if f \<in> set fs then Some (g f) else None)"
  by (induction fs) auto

text \<open>
  C38: In whatever order the schema is ranged over: with an unsupported type the error names a
  field that has one and the server is not asked; otherwise the index is created with the
  type of every field, and of no other.
\<close>

theorem CreateIndex_types:
  assumes "set order = dom schema"
  shows "if \<exists>f t. schema f = Some t \<and> valueTypeMapping t = None
    then \<exists>f t. schema f = Some t \<and> valueTypeMapping t = None \<and> CreateIndex order E idx schema w =
      (Some (Errorf (''unsupported field type '' @ strconv_Quote t @ '' for field '' @ strconv_Quote f)), w)
    else \<exists>m. CreateIndex order E idx schema w = es_Create E idx m w \<and>
      (\<forall>f. map_of m f = Option.bind (schema f) valueTypeMapping)"
proof (cases "typeMapping order schema []")
  case (Inl e)
  from typeMapping_error [OF this] obtain f t where "schema f = Some t" "valueTypeMapping t = None"
    "e = Errorf (''unsupported field type '' @ strconv_Quote t @ '' for field '' @ strconv_Quote f)" by blast
  moreover from this(1,2) have "\<exists>f t. schema f = Some t \<and> valueTypeMapping t = None" by blast
  moreover have "CreateIndex order E idx schema w = (Some e, w)" using Inl by (simp add: CreateIndex_def)
  ultimately show ?thesis by (simp only: if_True) blast
next
  case (Inr m)
  have "map_of m f = Option.bind (schema f) valueTypeMapping" for f
    using typeMapping_known [OF Inr] typeMapping_map [OF Inr] assms
    by (cases "schema f") (auto simp: map_of_graph dom_def)
  moreover have "\<not> (\<exists>f t. schema f = Some t \<and> valueTypeMapping t = None)"
    using typeMapping_known [OF Inr] assms by blast
  moreover have "CreateIndex order E idx schema w = es_Create E idx m w" using Inr by (simp add: CreateIndex_def)
  ultimately show ?thesis by (simp only: if_False) blast
qed

theorem CreateIndex_types_witness:
  "\<exists>f t. [''age'' \<mapsto> ''integer'', ''name'' \<mapsto> ''keyword''] f = Some t \<and> valueTypeMapping t = None \<and>
    CreateIndex [''age'', ''name''] demo_es ''i'' [''age'' \<mapsto> ''integer'', ''name'' \<mapsto> ''keyword''] [] =
      (Some (Errorf (''unsupported field type '' @ strconv_Quote t @ '' for field '' @ strconv_Quote f)), [])"
proof -
  have "set [''age'', ''name''] = dom [''age'' \<mapsto> ''integer'', ''name'' \<mapsto> ''keyword'']" by auto
  moreover have "\<exists>f t. [''age'' \<mapsto> ''integer'', ''name'' \<mapsto> ''keyword''] f = Some t \<and> valueTypeMapping t = None"
    by (intro exI [of _ "''name''"] exI [of _ "''keyword''"]) (simp add: valueTypeMapping_def)
  ultimately show ?thesis using CreateIndex_types [of "[''age'', ''name'']" _ demo_es "''i''" "[]"] by presburger
qed

end
