(* ===== verification/Cron_Scheduler.thy ===== *)
theory Cron_Scheduler
  imports Go_Prelude
begin

text \<open>
  Package \<open>cronjob_client\<close> (\<open>cronjob.go\<close>, \<open>scheduler.go\<close>): a scheduler over the cron
  library, its mutex, and the \<open>select\<close> that ends it. The library is a parameter; which
  of several ready branches a \<open>select\<close> takes is not determined, so \<open>Stop\<close> has a list of
  possible results.
\<close>

section \<open>Contexts and select\<close>

text \<open>
  A context is known by its error: \<^term>\<open>None\<close> while it is not done. This is the
  contract of package \<open>context\<close>: \<open>Err\<close> is nil exactly until \<open>Done\<close> is closed.
\<close>

type_synonym go_context = err

text \<open>The results of a \<open>select\<close> with a default: of the ready branches, else of the default.\<close>

definition select_default :: "(bool \<times> 'a) list \<Rightarrow> 'a \<Rightarrow> 'a list" where
  "select_default branches dflt =
    (let ready = map snd (filter fst branches) in if ready = [] then [dflt] else ready)"




section \<open>The library\<close>

text \<open>
  \<^typ>\<open>'c\<close> is a \<open>*cron.Cron\<close>, \<^typ>\<open>'l\<close> a \<open>*time.Location\<close>. \<open>cron_Stop\<close> returns the
  context that is done when the running jobs have completed.
\<close>

record ('l, 'c) cron_ops =
  LoadLocation_of :: "string \<Rightarrow> go_error + 'l"
  cron_New :: "bool \<Rightarrow> 'l \<Rightarrow> 'c"
  cron_Start :: "'c \<Rightarrow> 'c"
  cron_Stop :: "'c \<Rightarrow> go_context \<times> 'c"


section \<open>The scheduler\<close>


text \<open>The field \<open>redis\<close>, which nothing sets or reads, is left out.\<close>

record 'c scheduler =
  cronJob :: 'c
  mu :: bool


text \<open>\<open>Run\<close> waits for the mutex, which it gives back on return; the context is not used.\<close>

definition Run :: "('l, 'c) cron_ops \<Rightarrow> go_context \<Rightarrow> 'c scheduler \<Rightarrow> (err, 'c scheduler) outcome" where
  "Run K ctx s =
    (if mu s then Parked s
     else (let s1 = s\<lparr>mu := True\<rparr>; s2 = s1\<lparr>cronJob := cron_Start K (cronJob s1)\<rparr>
           in Return None (s2\<lparr>mu := False\<rparr>)))"

text \<open>\<open>ctxs\<close> gives what the contexts are when \<open>Stop\<close> selects: the library's and the caller's.\<close>

definition Stop :: "('l, 'c) cron_ops \<Rightarrow> go_context \<Rightarrow> 'c scheduler \<Rightarrow> err list \<times> 'c scheduler" where
  "Stop K ctx s =
    (let (cronCtx, c) = cron_Stop K (cronJob s)
     in (select_default [(cronCtx \<noteq> None, cronCtx), (ctx \<noteq> None, ctx)] None, s\<lparr>cronJob := c\<rparr>))"

text \<open>The interface \<open>Scheduler\<close> (\<open>cronjob.go\<close>), and a \<open>*scheduler\<close> as a value of it.\<close>

record 's Scheduler =
  sch_Run :: "go_context \<Rightarrow> 's \<Rightarrow> (err, 's) outcome"
  sch_Stop :: "go_context \<Rightarrow> 's \<Rightarrow> err list \<times> 's"

definition scheduler_Scheduler :: "('l, 'c) cron_ops \<Rightarrow> 'c scheduler Scheduler" where
  "scheduler_Scheduler K = \<lparr>sch_Run = Run K, sch_Stop = Stop K\<rparr>"


section \<open>Properties\<close>




end
