(* ===== verification/Spec2Isabelle.thy ===== *)
theory Spec2Isabelle
  imports Temporal_Properties Temporal_Registration Temporal_Public_Properties Temporal_Data_Properties
    Temporal_Client_Properties Temporal_Consumers Temporal_Delivery Temporal_Query Temporal_Nexus Security_Properties Db_Table Redis_Properties
    Nsq_Consumer Storage_Properties Elastic_Client Cron_Scheduler
begin

text \<open>
  A verification development for go-cook, a collection of Go packages that wrap
  infrastructure libraries: a Temporal client with a resumable activity pipeline, a
  generic database repository, JWT token pairs, a scheduler, and clients for Redis, NSQ,
  object storage and Elasticsearch.


  \<^bold>\<open>The program\<close>

  The packages do not call each other. The one with logic of its own is \<open>temporal\<close>:
  a workflow function builds a graph of named activities
  (\<open>AddTransitionActivityWithOptions\<close>) and runs it (\<open>Execute\<close>). The state is the
  receiver \<open>WorkflowExecutionData\<close> and the caller's \<open>ExecutionData\<close>, which every
  activity rewrites and whose \<open>GetActivity\<close> names the next activity. A plain activity
  runs at once; one with a signal event parks (\<open>runResumableActivity\<close>) until its signal
  arrives, applies the payload as a correction, runs, and on failure parks again, up to
  \<open>MaxCorrectionAttempts\<close> retries; it may then wait for an approval. \<open>public.go\<close> runs
  the pipeline for a workflow function and reads its state from outside through a query;
  \<open>temporal.go\<close> and \<open>signals.go\<close> wrap the SDK's client and its signal channels. The
  other packages turn configuration and calls into calls of a library.


  \<^bold>\<open>How the code is modelled\<close>

  A struct is a \<open>record\<close> with the source's fields, a method a \<open>definition\<close> or \<open>fun\<close>
  with the source's name that takes the state and returns it updated. A Go \<open>error\<close> is
  an optional \<open>go_error\<close>, which keeps the chain of \<open>%w\<close> wrappings; a result or error is
  a sum with the error on the left. A computation that may wait for ever has an
  \<open>outcome\<close>: \<open>Return\<close> with a result, \<open>Parked\<close> at a wait that never ends, or
  \<open>Running\<close> when its turns ran out; \<open>post\<close> states a property of all three. Integers
  of a fixed width are words where the code computes with them (Redis durations, token
  lifetimes, pool settings), strings are character lists, a nil slice, map entry or
  pointer is \<^term>\<open>None\<close>, and a panic is a value of its own (\<open>Panics\<close>). An interface
  whose methods the code calls through, or that two types implement, is a record of
  functions (\<open>Temporal\<close>, \<open>WorkflowExecution\<close>, \<open>ExecutionDataOps\<close>, \<open>DBClient\<close>, \<open>Redis\<close>,
  \<open>Nsq\<close>, \<open>StorageManager\<close>, \<open>ElasticSearchClient\<close>, \<open>Scheduler\<close>).

  Code outside the repository is a parameter: a record of functions on a \<open>world\<close> of any
  type that every operation takes as its first argument (\<open>sdk\<close>, \<open>sdk_client\<close>,
  \<open>signal_sdk\<close>, \<open>sql_pkg\<close>, \<open>Trigger\<close>, \<open>nsq_pkg\<close>, \<open>s3_api\<close>, \<open>es_api\<close>, \<open>redis_cmds\<close>,
  \<open>cron_ops\<close> and the JWT library). Nothing is assumed of them unless a theorem says so. The order in which
  Go ranges over a map is an argument too. Of \<open>wstate\<close> only the \<open>history\<close>, a ghost list
  of the calls made, is not in the code; no operation reads it.


  \<^bold>\<open>The theories\<close>

  \<^item> \<open>Go_Prelude\<close>: error values and their order by wrapping, outcomes and their rules,
    \<open>strings\<close>. The standard library as far as the code uses it, each with the lemmas by
    which what is printed is read back: \<open>Go_Fmt\<close> (\<open>Sprintf\<close>), \<open>Go_Strconv\<close> (\<open>Atoi\<close>),
    \<open>Go_Float\<close> (rounding to \<open>float64\<close>), \<open>Go_Time\<close> (\<open>ParseDuration\<close>), \<open>Go_Json\<close>
    (structs from documents), \<open>Go_Json_Text\<close> and \<open>Go_Json_Roundtrip\<close> (the text of
    documents, its printer and parser), \<open>Go_Any\<close> (documents read into an empty interface).
  \<^item> \<open>Temporal_Types\<close>: \<open>const.go\<close>, the structs of \<open>workflow.go\<close>, \<open>resumable.go\<close> and
    \<open>temporal.go\<close>, the interface \<open>ExecutionData\<close>, the SDK's record, the history.
  \<^item> \<open>Temporal_Resumable\<close>, \<open>Temporal_Workflow\<close>: the functions of \<open>resumable.go\<close> and the
    graph and \<open>Execute\<close> of \<open>workflow.go\<close>.
  \<^item> \<open>Temporal_Spec\<close>: the abstract workflow machine. Its phases are the places where a
    workflow can be observed, its labelled steps (\<open>wf_step\<close>) say what may happen next on
    a graph; below it, by induction over runs, the status protocol, the signal gate, the
    edges, the finality of a rejection, and what needs options no public call can set.
  \<^item> \<open>Temporal_Refinement\<close>: one lemma per operation, each moving the phase, composed to
    \<open>Execute_phase\<close>: the code only does what the machine does.
  \<^item> \<open>Temporal_Stable\<close>: the locale \<open>stable\<close>, a relation that the few primitive changes of
    the state keep is kept by \<open>Execute\<close>; interpreted for the receiver's other fields and
    the growth of the history here, for the well-formed graph in \<open>Temporal_Graph\<close> and for
    the graph itself in \<open>Temporal_Budget\<close>.
  \<^item> \<open>Temporal_Graph\<close>: what registrations build. \<open>Temporal_Budget\<close>: how often activities
    run, and the fuel of the loop. \<open>Temporal_Progress\<close>: what is achieved when the SDK
    answers. \<open>Temporal_Properties\<close>: the properties of the pipeline.
    \<open>Temporal_Registration\<close>: registration and execution together, over the locale
    \<open>activity_registry\<close>, what the pipeline relies on of the registry behind the client,
    interpreted on the client's \<open>RegisterActivity\<close>, whose panics for a name that is taken
    or a function the worker does not accept are part of it.
  \<^item> \<open>Temporal_Data\<close>, \<open>Temporal_Data_Properties\<close>: the locales \<open>execution_data\<close>, the
    contract of \<open>ExecutionData\<close> the branching relies on, and \<open>serializable_data\<close>, what
    decoding relies on, interpreted on the two implementations the repository has with
    their JSON text; branching, decoding and corrections on them.
  \<^item> \<open>Temporal_Interface\<close>: the interface \<open>WorkflowExecution\<close> and its implementation by the
    methods of \<open>workflow.go\<close>. \<open>Temporal_Public\<close>, \<open>Temporal_Public_Properties\<close>: \<open>public.go\<close>
    over it, with pointers to execution data as addresses in a store, so that aliasing is
    visible; the locale \<open>workflow_execution\<close>, what the query handler relies on of the
    interface, interpreted on its implementation.
  \<^item> \<open>Temporal_Client\<close>, \<open>Temporal_Signals\<close>, \<open>Temporal_Client_Properties\<close>: \<open>temporal.go\<close>
    with the interface \<open>Temporal\<close>, \<open>signals.go\<close>, and the methods of \<open>workflow.go\<close> that
    wrap the SDK. \<open>Temporal_Consumers\<close>: several consumers at once, as a step relation in
    which arrivals and the two halves of each consumer's loop interleave.
    \<open>Temporal_Clock\<close>: \<open>Execute\<close> reads the time only for \<open>StartedAt\<close> and \<open>CompletedAt\<close>, so
    runs at other times differ in these alone.
    \<open>Temporal_Replay\<close>: a workflow replayed from one server after another, with nothing
    assumed of Go's clock, which such a replay reads anew; the locale
    \<open>signal_source\<close>, what every way of sending a signal promises, interpreted on the
    client, the interface and an external workflow. \<open>Temporal_Query\<close>: a query from the
    caller through client, server and handler to the decoded data. \<open>Temporal_Delivery\<close>: a
    server with a queue for each signal, from the client's signals to the client's result.
    \<open>Temporal_Nexus\<close>: the declarations of the stub \<open>nexus\<close>.
  \<^item> \<open>Security_Tokens\<close>, \<open>Security_Properties\<close>: \<open>security/jwt.go\<close> and
    \<open>security/v2/jwt.go\<close>: both claim types, their JSON forms, the issued pairs.
  \<^item> \<open>Db_Repository\<close>, \<open>Db_Client\<close>, \<open>Db_Properties\<close>: \<open>db/repository.go\<close>, \<open>db/db.go\<close>,
    \<open>db/migration.go\<close>, with the statements, result sets and pools the code holds open.
    \<open>Db_Table\<close>: a table as a map from keys to rows, and the locale \<open>row_store\<close>, a store
    of which every operation is a step of such a table, interpreted on the repository over
    a server of either kind; a call that fails may have done its work.
  \<^item> \<open>Redis_Client\<close>, \<open>Redis_Cache\<close>, \<open>Redis_Properties\<close>: \<open>redis/redis.go\<close>,
    \<open>redis/cache.go\<close> and the interface \<open>Redis\<close>; a server whose keys expire.
  \<^item> \<open>Storage_Manager\<close>, \<open>Storage_Properties\<close>: package \<open>tigris\<close>; the locale \<open>object_store\<close>,
    what a client promises over a server that keeps what it is given, interpreted on
    both clients.
  \<^item> \<open>Nsq_Client\<close> with \<open>Nsq_Consumer\<close>, a client from its configuration to the handlers it
    gives to the library,
    \<open>Elastic_Client\<close> (the documents of a bulk insertion through their JSON text) and
    \<open>Cron_Scheduler\<close>: packages \<open>nsq\<close>, \<open>elasticsearch\<close> and \<open>cronjob\<close>, each with its lemmas.
    Which ready branch a \<open>select\<close> takes is open, so \<open>Stop\<close> of the scheduler has a list of possible results.


  \<^bold>\<open>What is shown\<close>

  \<^item> Refinement: whatever the SDK answers, a call of \<open>Execute\<close> is a run of the workflow
    machine, and from it the safety properties of the observable history. They hold of
    calls that return, that are parked, and that are cut off after any number of turns.
  \<^item> Progress: when every activity succeeds and every signal and approval arrives, a
    workflow on a graph without cycles completes; the retry budget of a gated activity is
    exact; a workflow parked at a signal resumes once a client has sent it. With one signal
    for each gated activity, and one more for each run of the first that fails, a workflow
    over the client's server returns, and the client reads COMPLETED and the result.
  \<^item> Termination: a gated activity runs at most \<open>MaxCorrectionAttempts + 1\<close> times a visit;
    on a graph with a rank \<open>Execute\<close> ends within the rank of the start node; a
    self-transition runs for ever.
  \<^item> Registration: the contents of the graph after any sequence of registrations, its
    well-formedness, the independence of their order, and that only functions the client's
    worker has are run when every declared successor is registered.
  \<^item> Public helpers: the query answers the registered pointer, the query loop ends with its
    deadline, decoding writes through \<open>dest\<close> only and copies the data exactly; a caller that
    polls gets the workflow's data of the first moment it is ready; the status a client is
    told is the stored one.
  \<^item> Corrections of the repository's execution data, payload by payload. Signal consumers:
    each message once and in order under every interleaving.
  \<^item> Tokens: round trip of each claim type, both directions of the compatibility the
    comments of version 2 promise, and the lifetimes of issued tokens and of configured settings.
  \<^item> Database: the repository over a server that executes its statements refines a table of
    rows, and a saved row is read back, failing calls included; every statement prepared is closed.
  \<^item> Integer conversions and wrap-around of the Redis settings and what the cache gives back;
    uploads and downloads of both object stores and the state of the storage handler; the
    consumers an NSQ client registers; index types, and which documents a bulk insertion leaves
    on the server; the answers of the scheduler's \<open>Stop\<close>.


  \<^bold>\<open>Bounds and fuel\<close>

  \<open>correctionLoop\<close> needs no fuel: its measure is the number of attempts left.
  \<open>executeLoop\<close> takes a number of turns because a cyclic graph may run for ever; once a
  call has returned or is parked more turns change nothing (\<open>Execute_fuel_independent\<close>),
  and on a ranked graph the rank of the start node plus one is enough
  (\<open>Execute_terminates_acyclic\<close>). \<open>queryLoop\<close> takes a number of polls; with a deadline
  the remaining time in units of the clock plus two is enough (\<open>QueryWorkflowData_terminates\<close>).
  The JSON parser's depth is bounded by twice the length of the text, beyond which nothing
  changes (\<open>json_value_fuel\<close>).
  The counter of \<open>correctionLoop\<close> is an unbounded integer: it never exceeds
  \<open>MaxCorrectionAttempts + 1\<close>.


  \<^bold>\<open>Not modelled\<close>

  Logging; what \<open>go-nsq\<close> does with a handler but for the answer it gives a message; methods of the interfaces of \<open>db\<close> and \<open>nexus\<close> that the package only declares, for
  which there is no code; waits with a time limit in \<open>Temporal_Replay\<close> and
  \<open>Temporal_Delivery\<close>, whose workflows have none, as no public operation sets one; a
  handler that yields in the middle of its work (its effect is taken to happen when it
  returns); the field \<open>signalConsumer\<close>, which no method reads; what the execution data
  looks like to an observer while an activity is running; token signing and the JSON form
  of \<open>jwt.RegisteredClaims\<close>, which are parameters; texts that are not valid UTF-8, the
  escapes \<open>%q\<close> has for unprintable characters beyond ASCII, the
  text of JSON syntax errors, and the limit on the nesting of JSON documents.
\<close>

end
